(* ===== verification/Prelude.thy ===== *)
theory Prelude
  imports Complex_Main
begin

section \<open>Shared vocabulary of the development\<close>

text \<open>
  The library facts every component uses: tables as lists of rows addressed by a key column,
  outcomes of service calls as sums (an error on the left, the new database and the answer on
  the right), instants as integer microseconds, and the arithmetic of log sequence numbers.
  Nothing here is specific to one table; the components of the control plane import it.
\<close>

named_theorems row_simps \<open>reading a table after it was written\<close>
named_theorems outcome_simps \<open>when a guarded call returns normally\<close>
named_theorems frame_simps \<open>columns and tables an operation leaves alone\<close>

type_synonym uuid = nat
type_synonym instant = int
type_synonym digest = string

text \<open>Instants count microseconds in UTC, the resolution of Python's \<open>datetime\<close>.\<close>

definition microseconds :: "int \<Rightarrow> instant" where
  "microseconds s = s * 1000000"

definition day_length :: int where
  "day_length = 86400 * 1000000"

text \<open>\<open>datetime.combine(moment.date(), time.min, tzinfo=UTC)\<close>.\<close>

definition utc_midnight :: "instant \<Rightarrow> instant" where
  "utc_midnight t = t - t mod day_length"

lemma utc_midnight_le: "utc_midnight t \<le> t"
  by (simp add: utc_midnight_def day_length_def)

lemma utc_midnight_gt: "t < utc_midnight t + day_length"
  by (simp add: utc_midnight_def day_length_def)

lemma utc_midnight_mono: "s \<le> t \<Longrightarrow> utc_midnight s \<le> utc_midnight t"
proof -
  assume "s \<le> t"
  then have "s div day_length \<le> t div day_length"
    by (rule zdiv_mono1) (simp add: day_length_def)
  then show ?thesis
    unfolding utc_midnight_def by (simp add: minus_mod_eq_mult_div day_length_def)
qed

subsection \<open>Tables\<close>

definition lookup_row :: "('r \<Rightarrow> 'k) \<Rightarrow> 'k \<Rightarrow> 'r list \<Rightarrow> 'r option" where
  "lookup_row key k rows = find (\<lambda>r. key r = k) rows"

definition update_where :: "('r \<Rightarrow> bool) \<Rightarrow> ('r \<Rightarrow> 'r) \<Rightarrow> 'r list \<Rightarrow> 'r list" where
  "update_where P f rows = map (\<lambda>r. if P r then f r else r) rows"

definition update_row :: "('r \<Rightarrow> 'k) \<Rightarrow> 'k \<Rightarrow> ('r \<Rightarrow> 'r) \<Rightarrow> 'r list \<Rightarrow> 'r list" where
  "update_row key k f rows = update_where (\<lambda>r. key r = k) f rows"

definition count_rows :: "('r \<Rightarrow> bool) \<Rightarrow> 'r list \<Rightarrow> int" where
  "count_rows P rows = int (length (filter P rows))"

lemma find_SomeD: "find P xs = Some x \<Longrightarrow> x \<in> set xs \<and> P x"
  by (induction xs) (auto split: if_splits)

lemma lookup_row_SomeD: "lookup_row key k rows = Some r \<Longrightarrow> r \<in> set rows \<and> key r = k"
  by (auto simp: lookup_row_def dest: find_SomeD)

lemma lookup_row_NoneD: "lookup_row key k rows = None \<Longrightarrow> r \<in> set rows \<Longrightarrow> key r \<noteq> k"
  by (auto simp: lookup_row_def find_None_iff)

lemma lookup_row_None_iff: "lookup_row key k rows = None \<longleftrightarrow> k \<notin> key ` set rows"
  by (auto simp: lookup_row_def find_None_iff)

lemma lookup_row_unique:
  "distinct (map key rows) \<Longrightarrow> r \<in> set rows \<Longrightarrow> lookup_row key (key r) rows = Some r"
  by (induction rows) (auto simp: lookup_row_def image_iff)

lemma lookup_row_Nil [simp]: "lookup_row key k [] = None"
  by (simp add: lookup_row_def)

lemma lookup_row_Cons [row_simps]:
  "lookup_row key k (x # xs) = (if key x = k then Some x else lookup_row key k xs)"
  by (simp add: lookup_row_def)

lemma find_append: "find P (xs @ ys) = (case find P xs of None \<Rightarrow> find P ys | Some x \<Rightarrow> Some x)"
  by (induction xs) auto

lemma lookup_row_append [row_simps]:
  "lookup_row key k (xs @ ys) =
     (case lookup_row key k xs of None \<Rightarrow> lookup_row key k ys | Some x \<Rightarrow> Some x)"
  by (simp add: lookup_row_def find_append split: option.split)

lemma update_where_Nil [simp]: "update_where P f [] = []"
  by (simp add: update_where_def)

lemma update_where_Cons [row_simps]:
  "update_where P f (x # xs) = (if P x then f x else x) # update_where P f xs"
  by (simp add: update_where_def)

lemma update_where_append [row_simps]:
  "update_where P f (xs @ ys) = update_where P f xs @ update_where P f ys"
  by (simp add: update_where_def)

lemma length_update_where [simp]: "length (update_where P f rows) = length rows"
  by (simp add: update_where_def)

lemma length_update_row [simp]: "length (update_row key k f rows) = length rows"
  by (simp add: update_row_def)

lemma in_set_update_where:
  "x \<in> set (update_where P f rows) \<longleftrightarrow> (\<exists>r\<in>set rows. x = (if P r then f r else r))"
  by (auto simp: update_where_def)

lemma ids_update_row: "key new = i \<Longrightarrow> key ` set (update_row key i (\<lambda>_. new) rows) = key ` set rows"
  by (induction rows) (auto simp: update_row_def update_where_def)

lemma set_update_row: "r \<in> set (update_row key i (\<lambda>_. new) rows) \<Longrightarrow> r \<in> set rows \<or> r = new"
  by (auto simp: update_row_def update_where_def split: if_split_asm)

lemma map_update_where:
  "(\<And>r. P r \<Longrightarrow> g (f r) = g r) \<Longrightarrow> map g (update_where P f rows) = map g rows"
  by (simp add: update_where_def)

lemma map_update_row:
  "(\<And>r. key r = k \<Longrightarrow> g (f r) = g r) \<Longrightarrow> map g (update_row key k f rows) = map g rows"
  by (simp add: update_row_def map_update_where)

lemma lookup_update_row [row_simps]:
  assumes "\<And>r. key (f r) = key r"
  shows "lookup_row key j (update_row key k f rows) =
    (if j = k then map_option f (lookup_row key j rows) else lookup_row key j rows)"
  using assms by (induction rows) (auto simp: update_row_def row_simps)

lemma lookup_update_where:
  assumes "\<And>r. key (f r) = key r"
  shows "lookup_row key k (update_where P f rows) =
    map_option (\<lambda>r. if P r then f r else r) (lookup_row key k rows)"
  using assms by (induction rows) (auto simp: row_simps)

lemma count_rows_nonneg [simp]: "0 \<le> count_rows P rows"
  by (simp add: count_rows_def)

lemma count_rows_append [row_simps]:
  "count_rows P (xs @ ys) = count_rows P xs + count_rows P ys"
  by (simp add: count_rows_def)

lemma count_rows_Nil [simp]: "count_rows P [] = 0"
  by (simp add: count_rows_def)

lemma count_rows_Cons [row_simps]:
  "count_rows P (x # xs) = (if P x then 1 else 0) + count_rows P xs"
  by (simp add: count_rows_def)

lemma count_rows_mono: "(\<And>x. x \<in> set rows \<Longrightarrow> P x \<Longrightarrow> Q x) \<Longrightarrow> count_rows P rows \<le> count_rows Q rows"
  by (induction rows) (auto simp: row_simps)

lemma count_update_where_le:
  "(\<And>x. x \<in> set rows \<Longrightarrow> P x \<Longrightarrow> Q (f x) \<Longrightarrow> Q x) \<Longrightarrow> count_rows Q (update_where P f rows) \<le> count_rows Q rows"
proof (induction rows)
  case (Cons a rows)
  from Cons.prems have "P a \<Longrightarrow> Q (f a) \<Longrightarrow> Q a" by simp
  moreover from Cons have "count_rows Q (update_where P f rows) \<le> count_rows Q rows" by simp
  ultimately show ?case by (auto simp: row_simps)
qed simp

lemma count_update_where_eq:
  "(\<And>x. x \<in> set rows \<Longrightarrow> P x \<Longrightarrow> Q (f x) = Q x) \<Longrightarrow> count_rows Q (update_where P f rows) = count_rows Q rows"
  by (induction rows) (auto simp: row_simps)

lemma count_rows_pos: "x \<in> set rows \<Longrightarrow> P x \<Longrightarrow> 1 \<le> count_rows P rows"
  by (induction rows) (auto simp: row_simps add_increasing)

lemma count_rows_zero_iff: "count_rows P rows = 0 \<longleftrightarrow> (\<forall>x\<in>set rows. \<not> P x)"
  by (auto simp: count_rows_def filter_empty_conv)

subsection \<open>Sequence numbers\<close>

text \<open>\<open>int(max(sequence) or 0) + 1\<close> over the rows of one log.\<close>

definition next_sequence :: "nat list \<Rightarrow> nat" where
  "next_sequence ns = foldr max ns 0 + 1"

lemma next_sequence_gt: "n \<in> set ns \<Longrightarrow> n < next_sequence ns"
proof -
  have "n \<in> set ns \<Longrightarrow> n \<le> foldr max ns 0" for n
    by (induction ns) auto
  then show "n \<in> set ns \<Longrightarrow> n < next_sequence ns"
    by (simp add: next_sequence_def le_imp_less_Suc)
qed

lemma next_sequence_upto: "next_sequence [1..<Suc n] = Suc n"
proof -
  have "foldr max [1..<Suc n] m = max n m" for m
    by (induction n arbitrary: m) auto
  then show ?thesis by (simp add: next_sequence_def)
qed

subsection \<open>Outcomes\<close>

text \<open>
  A service call either raises (\<open>Inl\<close>: the session is rolled back, so no new database is
  returned) or commits (\<open>Inr\<close>).  \<open>bind_outcome\<close> runs a call after another in the same
  session: a raise of the first is a raise of the whole.
\<close>

definition bind_outcome :: "'e + 'a \<Rightarrow> ('a \<Rightarrow> 'e + 'b) \<Rightarrow> 'e + 'b" where
  "bind_outcome m k = (case m of Inl e \<Rightarrow> Inl e | Inr a \<Rightarrow> k a)"

definition require_row :: "'e \<Rightarrow> 'a option \<Rightarrow> 'e + 'a" where
  "require_row e r = (case r of None \<Rightarrow> Inl e | Some a \<Rightarrow> Inr a)"

lemma bind_outcome_simps [simp]:
  "bind_outcome (Inl e) k = Inl e"
  "bind_outcome (Inr a) k = k a"
  by (simp_all add: bind_outcome_def)

lemma bind_outcome_InrE:
  assumes "bind_outcome m k = Inr b"
  obtains a where "m = Inr a" "k a = Inr b"
  using assms by (cases m) auto

text \<open>A raise guarded by a condition: the call goes on exactly when the condition is false.\<close>

lemma guard_Inr_iff [outcome_simps]: "(if c then Inl e else m) = Inr a \<longleftrightarrow> \<not> c \<and> m = Inr a"
  by simp

lemma bind_outcome_Inr_iff [outcome_simps]: "bind_outcome m k = Inr b \<longleftrightarrow> (\<exists>a. m = Inr a \<and> k a = Inr b)"
  by (cases m) auto

lemma require_row_simps [simp]:
  "require_row e None = Inl e"
  "require_row e (Some a) = Inr a"
  by (simp_all add: require_row_def)

lemma require_row_Inr_iff [outcome_simps]: "require_row e r = Inr a \<longleftrightarrow> r = Some a"
  by (cases r) auto

lemma bind_require_InrE:
  assumes "bind_outcome (require_row e r) k = Inr b"
  obtains a where "r = Some a" "k a = Inr b"
  using assms by (cases r) simp_all

lemma guard_InrE:
  assumes "(if c then Inl e else m) = Inr a"
  obtains "\<not> c" "m = Inr a"
  using assms by (cases c) simp_all

text \<open>Validating the items of a list: the first error, or the validated items in order.\<close>

fun validate_all :: "('a \<Rightarrow> 'e + 'b) \<Rightarrow> 'a list \<Rightarrow> 'e + 'b list" where
  "validate_all f [] = Inr []"
| "validate_all f (a # as) =
     bind_outcome (f a) (\<lambda>b. bind_outcome (validate_all f as) (\<lambda>bs. Inr (b # bs)))"

lemma validate_all_Inr: "validate_all f xs = Inr ys \<longleftrightarrow> list_all2 (\<lambda>x y. f x = Inr y) xs ys"
  by (induction xs arbitrary: ys) (auto simp: outcome_simps list_all2_Cons1)

lemma validate_all_map:
  assumes "validate_all f xs = Inr ys" "\<And>x y. f x = Inr y \<Longrightarrow> g y = h x"
  shows "map g ys = map h xs"
  using assms(1)
  by (induction xs arbitrary: ys) (auto simp: outcome_simps assms(2))

lemma validate_all_again:
  assumes "validate_all f xs = Inr ys" "\<And>x y. f x = Inr y \<Longrightarrow> f y = Inr y"
  shows "validate_all f ys = Inr ys"
  using assms(1)
  by (induction xs arbitrary: ys) (auto simp: outcome_simps assms(2))

lemma validate_all_filter:
  "validate_all f xs = Inr xs \<Longrightarrow> validate_all f (filter P xs) = Inr (filter P xs)"
  by (induction xs) (auto simp: outcome_simps)

text \<open>Whether an optional argument overwrites a column (\<open>if payload.x is not None\<close>).\<close>

definition given_or :: "'a option \<Rightarrow> 'a \<Rightarrow> 'a" where
  "given_or v old = (case v of None \<Rightarrow> old | Some x \<Rightarrow> x)"

lemma given_or_simps [simp]: "given_or None old = old" "given_or (Some x) old = x"
  by (simp_all add: given_or_def)

end
