(* ===== verification/Capabilities.thy ===== *)
theory Capabilities
  imports Prelude
begin

section \<open>The keyword registry\<close>

text \<open>
  \<open>packages/contracts/src/testops/contracts/capabilities.py\<close>: the one registry of keyword
  operations and assertions.  A specification has a canonical key and aliases; the index maps
  each of them to the specification, and building it fails on a duplicate.  The human-readable
  descriptions (Chinese display text) are left out of the record: nothing reads them.
\<close>

datatype capability_kind = Operation_kind | Assertion_kind

record capability_spec =
  cap_key :: string
  cap_kind :: capability_kind
  cap_requires_locator :: bool
  cap_consumes_input :: bool
  cap_requires_input :: bool
  cap_aliases :: "string list"

datatype capability_error = Duplicate_capability_key string | Unsupported_capability string

text \<open>The constructor call \<open>CapabilitySpec(key, kind, ..., flags)\<close>; absent flags default to False.\<close>

definition capability ::
  "capability_kind \<Rightarrow> string \<Rightarrow> bool \<Rightarrow> bool \<Rightarrow> bool \<Rightarrow> string list \<Rightarrow> capability_spec" where
  "capability kind key locator consumes requires aliases =
     \<lparr>cap_key = key, cap_kind = kind, cap_requires_locator = locator,
      cap_consumes_input = consumes, cap_requires_input = requires, cap_aliases = aliases\<rparr>"

definition OPERATIONS :: "capability_spec list" where
  "OPERATIONS =
    [capability Operation_kind ''execute_excel_case'' False True True [],
     capability Operation_kind ''input'' True True True [],
     capability Operation_kind ''input_enter'' True True True [],
     capability Operation_kind ''click'' True False False [],
     capability Operation_kind ''select'' True True True [],
     capability Operation_kind ''verify'' True False False [],
     capability Operation_kind ''hover'' True False False [],
     capability Operation_kind ''scroll'' False False False [],
     capability Operation_kind ''wait'' False False False [],
     capability Operation_kind ''nav'' False True False [],
     capability Operation_kind ''find_click'' True False False [],
     capability Operation_kind ''upload'' True True True [],
     capability Operation_kind ''daterange'' True True True [''date_range''],
     capability Operation_kind ''switch_tab'' False False False [],
     capability Operation_kind ''retry_report'' True False False [],
     capability Operation_kind ''set_viewport'' True False False [],
     capability Operation_kind ''wait_hidden'' True False False [],
     capability Operation_kind ''vision_compare_step'' True True True []]"

definition ASSERTIONS :: "capability_spec list" where
  "ASSERTIONS =
    [capability Assertion_kind ''excel_case_passed'' False False False [],
     capability Assertion_kind ''text_equals'' False False False [],
     capability Assertion_kind ''text_contains'' False False False [],
     capability Assertion_kind ''text_visible'' False False False [''visible_text''],
     capability Assertion_kind ''text_hidden'' False False False [],
     capability Assertion_kind ''text_not_empty'' True False False [],
     capability Assertion_kind ''value_equals'' True False False [],
     capability Assertion_kind ''element_visible'' True False False [],
     capability Assertion_kind ''element_disabled'' True False False [],
     capability Assertion_kind ''element_count'' True False False [],
     capability Assertion_kind ''attr_equals'' True False False [],
     capability Assertion_kind ''url_contains'' False False False [],
     capability Assertion_kind ''url_not_contains'' False False False [],
     capability Assertion_kind ''url_matches'' False False False [],
     capability Assertion_kind ''empty_list'' True False False [],
     capability Assertion_kind ''list_contains'' True False False [],
     capability Assertion_kind ''date_in_range'' True False False [],
     capability Assertion_kind ''value_in_range'' True False False [],
     capability Assertion_kind ''file_verify'' False False False [],
     capability Assertion_kind ''age_in_range'' False False False [],
     capability Assertion_kind ''date_format'' True False False [],
     capability Assertion_kind ''text_optional'' True False False [],
     capability Assertion_kind ''vision_contains'' True False False [],
     capability Assertion_kind ''vision_count'' True False False [],
     capability Assertion_kind ''vision_page_state'' True False False [],
     capability Assertion_kind ''vision_canvas_ready'' True False False [],
     capability Assertion_kind ''vision_compare_reference'' True False False [],
     capability Assertion_kind ''vision_step_sequence'' False False False []]"

subsection \<open>Building and reading the index\<close>

fun index_keys ::
  "capability_spec \<Rightarrow> string list \<Rightarrow> (string \<rightharpoonup> capability_spec) \<Rightarrow> capability_error + (string \<rightharpoonup> capability_spec)" where
  "index_keys spec [] index = Inr index"
| "index_keys spec (key # keys) index =
     (if index key \<noteq> None then Inl (Duplicate_capability_key key)
      else index_keys spec keys (index(key \<mapsto> spec)))"

fun build_index_from ::
  "(string \<rightharpoonup> capability_spec) \<Rightarrow> capability_spec list \<Rightarrow> capability_error + (string \<rightharpoonup> capability_spec)" where
  "build_index_from index [] = Inr index"
| "build_index_from index (spec # specs) =
     bind_outcome (index_keys spec (cap_key spec # cap_aliases spec) index)
       (\<lambda>index'. build_index_from index' specs)"

definition build_index :: "capability_spec list \<Rightarrow> capability_error + (string \<rightharpoonup> capability_spec)" where
  "build_index specs = build_index_from Map.empty specs"

text \<open>\<open>str.strip()\<close> on the white space of ASCII.\<close>

definition is_space :: "char \<Rightarrow> bool" where
  "is_space c \<longleftrightarrow> of_char c \<in> ({9, 10, 11, 12, 13, 28, 29, 30, 31, 32} :: nat set)"

definition strip :: "string \<Rightarrow> string" where
  "strip s = rev (dropWhile is_space (rev (dropWhile is_space s)))"

definition index_of :: "capability_spec list \<Rightarrow> (string \<rightharpoonup> capability_spec)" where
  "index_of specs = (case build_index specs of Inl _ \<Rightarrow> Map.empty | Inr index \<Rightarrow> index)"

definition spec_in :: "(string \<rightharpoonup> capability_spec) \<Rightarrow> string \<Rightarrow> capability_error + capability_spec" where
  "spec_in index key = require_row (Unsupported_capability key) (index (strip key))"

definition get_operation_spec :: "string \<Rightarrow> capability_error + capability_spec" where
  "get_operation_spec key = spec_in (index_of OPERATIONS) key"

definition get_assertion_spec :: "string \<Rightarrow> capability_error + capability_spec" where
  "get_assertion_spec key = spec_in (index_of ASSERTIONS) key"

subsection \<open>What a successful build promises\<close>

lemma index_keys_Inr:
  "index_keys spec keys index = Inr index' \<Longrightarrow>
     index' = (\<lambda>k. if k \<in> set keys then Some spec else index k)
     \<and> distinct keys \<and> (\<forall>k\<in>set keys. index k = None)"
proof (induction keys arbitrary: index)
  case (Cons k keys)
  then have rest: "index_keys spec keys (index(k \<mapsto> spec)) = Inr index'" and new: "index k = None"
    by (auto split: if_splits)
  from Cons.IH [OF rest] new show ?case
    by (auto simp: fun_eq_iff split: if_splits)
qed simp

lemma build_index_from_Inr:
  assumes "build_index_from index specs = Inr index'"
  shows "(index k = Some s \<longrightarrow> index' k = Some s)
    \<and> (s \<in> set specs \<and> k \<in> set (cap_key s # cap_aliases s) \<longrightarrow> index' k = Some s)
    \<and> (index' k = Some s \<longrightarrow> index k = Some s \<or> s \<in> set specs \<and> k \<in> set (cap_key s # cap_aliases s))"
  using assms
proof (induction specs arbitrary: index)
  case (Cons a specs)
  then obtain index1 where one: "index_keys a (cap_key a # cap_aliases a) index = Inr index1"
    and rest: "build_index_from index1 specs = Inr index'"
    by (auto elim: bind_outcome_InrE simp del: index_keys.simps)
  from index_keys_Inr [OF one]
  have index1: "index1 = (\<lambda>k. if k \<in> set (cap_key a # cap_aliases a) then Some a else index k)"
    and fresh: "\<forall>k\<in>set (cap_key a # cap_aliases a). index k = None" by blast+
  show ?case
    using Cons.IH [OF rest] fresh unfolding index1 by (auto split: if_splits)
qed simp

locale capability_registry =
  fixes specs :: "capability_spec list"
    and index :: "string \<rightharpoonup> capability_spec"
  assumes built: "build_index specs = Inr index"
begin

lemma key_resolves: "s \<in> set specs \<Longrightarrow> k \<in> set (cap_key s # cap_aliases s) \<Longrightarrow> index k = Some s"
  using build_index_from_Inr [OF built [unfolded build_index_def], where k = k and s = s] by blast

lemma resolved_is_listed: "index k = Some s \<Longrightarrow> s \<in> set specs \<and> k \<in> set (cap_key s # cap_aliases s)"
  using build_index_from_Inr [OF built [unfolded build_index_def], where k = k and s = s] by simp

lemma canonical_key_resolves: "index k = Some s \<Longrightarrow> index (cap_key s) = Some s"
  by (rule key_resolves) (use resolved_is_listed in auto)

lemma spec_in_canonical:
  assumes "spec_in index key = Inr s" and "strip (cap_key s) = cap_key s"
  shows "spec_in index (cap_key s) = Inr s"
  using assms by (auto simp: spec_in_def require_row_Inr_iff intro: canonical_key_resolves)

end

text \<open>Building succeeds exactly when no key or alias occurs twice.\<close>

definition all_keys :: "capability_spec list \<Rightarrow> string list" where
  "all_keys specs = concat (map (\<lambda>s. cap_key s # cap_aliases s) specs)"

lemma index_keys_ok:
  "distinct keys \<Longrightarrow> \<forall>k\<in>set keys. index k = None \<Longrightarrow>
     index_keys spec keys index = Inr (\<lambda>k. if k \<in> set keys then Some spec else index k)"
proof (induction keys arbitrary: index)
  case (Cons a keys)
  then have "index_keys spec keys (index(a \<mapsto> spec)) =
    Inr (\<lambda>k. if k \<in> set keys then Some spec else (index(a \<mapsto> spec)) k)"
    by (intro Cons.IH) auto
  with Cons.prems show ?case by (auto simp: fun_eq_iff)
qed simp

lemma build_index_from_ok:
  "distinct (all_keys specs) \<Longrightarrow> \<forall>k\<in>set (all_keys specs). index k = None \<Longrightarrow>
     \<exists>index'. build_index_from index specs = Inr index'"
proof (induction specs arbitrary: index)
  case (Cons a specs)
  let ?keys = "cap_key a # cap_aliases a"
  have "index_keys a ?keys index = Inr (\<lambda>k. if k \<in> set ?keys then Some a else index k)"
    by (rule index_keys_ok) (use Cons.prems in \<open>auto simp: all_keys_def\<close>)
  moreover have "\<exists>index'. build_index_from (\<lambda>k. if k \<in> set ?keys then Some a else index k) specs = Inr index'"
    by (rule Cons.IH) (use Cons.prems in \<open>auto simp: all_keys_def\<close>)
  ultimately show ?case by (simp del: index_keys.simps)
qed simp

lemma build_index_ok: "distinct (all_keys specs) \<Longrightarrow> build_index specs = Inr (index_of specs)"
  using build_index_from_ok [of specs Map.empty] by (auto simp: build_index_def index_of_def)

lemma OPERATIONS_build: "build_index OPERATIONS = Inr (index_of OPERATIONS)"
  by (rule build_index_ok) code_simp

lemma ASSERTIONS_build: "build_index ASSERTIONS = Inr (index_of ASSERTIONS)"
  by (rule build_index_ok) code_simp

interpretation operation_registry: capability_registry OPERATIONS "index_of OPERATIONS"
  by unfold_locales (rule OPERATIONS_build)

interpretation assertion_registry: capability_registry ASSERTIONS "index_of ASSERTIONS"
  by unfold_locales (rule ASSERTIONS_build)

lemma operation_keys_stripped: "s \<in> set OPERATIONS \<Longrightarrow> strip (cap_key s) = cap_key s"
proof -
  have "list_all (\<lambda>s. strip (cap_key s) = cap_key s) OPERATIONS" by code_simp
  then show "s \<in> set OPERATIONS \<Longrightarrow> strip (cap_key s) = cap_key s" by (auto simp: list_all_iff)
qed

lemma assertion_keys_stripped: "s \<in> set ASSERTIONS \<Longrightarrow> strip (cap_key s) = cap_key s"
proof -
  have "list_all (\<lambda>s. strip (cap_key s) = cap_key s) ASSERTIONS" by code_simp
  then show "s \<in> set ASSERTIONS \<Longrightarrow> strip (cap_key s) = cap_key s" by (auto simp: list_all_iff)
qed

lemma get_operation_spec_listed:
  "get_operation_spec key = Inr s \<Longrightarrow> s \<in> set OPERATIONS \<and> strip key \<in> set (cap_key s # cap_aliases s)"
  using operation_registry.resolved_is_listed
  by (auto simp: get_operation_spec_def spec_in_def require_row_Inr_iff)

lemma get_operation_spec_canonical:
  "get_operation_spec key = Inr s \<Longrightarrow> get_operation_spec (cap_key s) = Inr s"
  unfolding get_operation_spec_def
  by (rule operation_registry.spec_in_canonical)
    (use operation_keys_stripped get_operation_spec_listed [unfolded get_operation_spec_def] in blast)+

lemma get_assertion_spec_listed:
  "get_assertion_spec key = Inr s \<Longrightarrow> s \<in> set ASSERTIONS \<and> strip key \<in> set (cap_key s # cap_aliases s)"
  using assertion_registry.resolved_is_listed
  by (auto simp: get_assertion_spec_def spec_in_def require_row_Inr_iff)

lemma get_assertion_spec_canonical:
  "get_assertion_spec key = Inr s \<Longrightarrow> get_assertion_spec (cap_key s) = Inr s"
  unfolding get_assertion_spec_def
  by (rule assertion_registry.spec_in_canonical)
    (use assertion_keys_stripped get_assertion_spec_listed [unfolded get_assertion_spec_def] in blast)+

end
