(* ===== verification/Contracts.thy ===== *)
theory Contracts
  imports Capabilities
begin

section \<open>Versioned contracts of cases, jobs and results\<close>

text \<open>
  \<open>packages/contracts/src/testops/contracts/models.py\<close>.  Every frozen model is a record with
  the model's fields in order; its \<open>model_validator\<close> is a function of the same name that
  returns the first error the validator raises.  The \<open>schema_version\<close> constants and the
  regular-expression patterns of single fields are boundary checks of the model library and
  are left out, as is white-space normalisation of fields; the cross-field rules the services
  rely on are all here.  Documents are compared by these values (\<open>model_dump\<close> is injective
  on them), and hashes of documents are an argument of the services (\<open>hasher\<close>).
\<close>

subsection \<open>Enumerations\<close>

datatype case_priority = P0 | P1 | P2 | P3

datatype target_type = WEB | APP | API

datatype run_status =
  QUEUED | PREPARING | RUNNING | PASSED | FAILED | CANCELED | TIMED_OUT | INFRA_ERROR

datatype case_result_status = Case_PASSED | Case_FAILED | Case_SKIPPED | Case_INFRA_ERROR

datatype artifact_kind = LOG | SCREENSHOT | VIDEO | TRACE | ALLURE | OTHER

datatype runner_type = WEB_PLAYWRIGHT | ANDROID_APPIUM

datatype execution_group = Group_A | Group_B | Group_SERIAL | Group_AUTO

datatype contract_error =
    Unsupported_keyword capability_error
  | Requires_locator string
  | Requires_input string
  | Nav_requires_url
  | No_steps
  | No_cases
  | Duplicate_case_id
  | Duplicate_case_code
  | Web_requires_browser
  | Web_requires_web_config
  | Web_config_only_for_web
  | Runner_type_mismatch
  | Case_count_exceeds_baseline
  | Duplicate_variable_binding
  | Finished_before_started
  | Failed_requires_error_message
  | Result_requires_terminal_status
  | Secret_like_variable_name string
  | Incomplete_isolation_evidence

subsection \<open>Cases\<close>

datatype step_input =
    Str_input string | Int_input int | Float_input rat | Bool_input bool
  | List_input "string list" | Dict_input "(string \<times> string) list"

record step_definition =
  step_operation :: string
  step_locator :: "string option"
  step_input :: "step_input option"
  step_timeout :: "rat option"

definition has_text :: "string option \<Rightarrow> bool" where
  "has_text s = (case s of None \<Rightarrow> False | Some t \<Rightarrow> strip t \<noteq> [])"

definition validate_step :: "step_definition \<Rightarrow> contract_error + step_definition" where
  "validate_step step =
     (case get_operation_spec (step_operation step) of
        Inl e \<Rightarrow> Inl (Unsupported_keyword e)
      | Inr spec \<Rightarrow>
          (let step' = step\<lparr>step_operation := cap_key spec\<rparr> in
           if cap_requires_locator spec \<and> \<not> has_text (step_locator step')
           then Inl (Requires_locator (cap_key spec))
           else if cap_requires_input spec \<and> step_input step' = None
           then Inl (Requires_input (cap_key spec))
           else if cap_key spec = ''nav''
             \<and> (step_input step' = None \<or> step_input step' = Some (Str_input []))
             \<and> \<not> has_text (step_locator step')
           then Inl Nav_requires_url
           else Inr step'))"

record assertion_definition =
  assertion_type :: string
  assertion_expected :: "step_input option"
  assertion_locator :: "string option"
  assertion_timeout :: "rat option"

definition validate_assertion :: "assertion_definition \<Rightarrow> contract_error + assertion_definition" where
  "validate_assertion a =
     (case get_assertion_spec (assertion_type a) of
        Inl e \<Rightarrow> Inl (Unsupported_keyword e)
      | Inr spec \<Rightarrow>
          (let a' = a\<lparr>assertion_type := cap_key spec\<rparr> in
           if cap_requires_locator spec \<and> \<not> has_text (assertion_locator a')
           then Inl (Requires_locator (cap_key spec))
           else Inr a'))"

record case_definition =
  case_id :: uuid
  case_code :: string
  case_module_key :: string
  case_module_name :: string
  case_title :: string
  case_test_point :: string
  case_priority :: case_priority
  case_preconditions :: "string list"
  case_steps :: "step_definition list"
  case_assertion :: assertion_definition
  case_tags :: "string list"
  case_enabled :: bool
  case_source_instructions :: "string option"
  case_data_type :: "string option"
  case_expected_result :: "string option"
  case_timeout :: "rat option"
  case_source_trace :: "(string \<times> int) option"
  case_notes :: "string option"
  case_execution_group :: "execution_group option"

definition validate_case :: "case_definition \<Rightarrow> contract_error + case_definition" where
  "validate_case c =
     (if case_steps c = [] then Inl No_steps
      else bind_outcome (validate_all validate_step (case_steps c)) (\<lambda>steps.
           bind_outcome (validate_assertion (case_assertion c)) (\<lambda>a.
           Inr (c\<lparr>case_steps := steps, case_assertion := a\<rparr>))))"

datatype baseline_source =
    Legacy_excel (excel_file_name: string) (excel_file_digest: digest) (excel_worksheet: string)
  | Derived_baseline (parent_baseline_id: uuid) (parent_version: string)
      (parent_digest: digest) (change_set: uuid)

record case_baseline =
  baseline_id :: uuid
  baseline_project_key :: string
  baseline_version :: string
  baseline_source :: baseline_source
  baseline_cases :: "case_definition list"

definition validate_cases :: "case_baseline \<Rightarrow> contract_error + case_baseline" where
  "validate_cases b =
     (if baseline_cases b = [] then Inl No_cases
      else if \<not> distinct (map case_id (baseline_cases b)) then Inl Duplicate_case_id
      else if \<not> distinct (map case_code (baseline_cases b)) then Inl Duplicate_case_code
      else Inr b)"

text \<open>
  \<open>CaseBaseline.model_validate\<close> of a stored document: every case is validated as well.  (A model
  built from validated models runs its own validator only.)
\<close>

definition parse_baseline :: "case_baseline \<Rightarrow> contract_error + case_baseline" where
  "parse_baseline b =
     bind_outcome (validate_all validate_case (baseline_cases b)) (\<lambda>cases.
       validate_cases (b\<lparr>baseline_cases := cases\<rparr>))"

record case_baseline_ref =
  ref_baseline_id :: uuid
  ref_version :: string
  ref_digest :: digest
  ref_case_count :: int

subsection \<open>Run snapshots\<close>

record runtime_variable =
  var_name :: string
  var_value :: string

definition contains :: "string \<Rightarrow> string \<Rightarrow> bool" where
  "contains needle s \<longleftrightarrow> (\<exists>i\<in>set [0..<Suc (length s)]. take (length needle) (drop i s) = needle)"

definition reject_secret_like_names :: "runtime_variable \<Rightarrow> contract_error + runtime_variable" where
  "reject_secret_like_names v =
     (if (\<exists>w\<in>set [''PASSWORD'', ''PASSWD'', ''TOKEN'', ''SECRET'', ''API_KEY'', ''PRIVATE_KEY''].
            contains w (var_name v))
      then Inl (Secret_like_variable_name (var_name v))
      else Inr v)"

record secret_binding =
  secret_name :: string
  secret_ref :: string

record web_run_config =
  web_base_url :: string
  web_headless :: bool
  web_viewport_width :: int
  web_viewport_height :: int
  web_action_timeout :: rat
  web_navigation_timeout :: rat
  web_ignore_https_errors :: bool
  web_capture_trace :: bool

record supply_chain_ref =
  sc_verification_id :: uuid
  sc_report_digest :: digest
  sc_policy_version :: string
  sc_verifier :: string
  sc_signature_bundle_digest :: digest
  sc_provenance_digest :: digest
  sc_sbom_digest :: digest
  sc_certificate_issuer :: string
  sc_certificate_identity :: string
  sc_builder_id :: string
  sc_source_repository :: string
  sc_source_revision :: string

record package_ref =
  pref_name :: string
  pref_version :: string
  pref_digest :: digest
  pref_runner_type :: runner_type
  pref_image_repository :: string
  pref_supply_chain :: "supply_chain_ref option"

record run_snapshot =
  snap_run_id :: uuid
  snap_project :: uuid
  snap_target :: uuid
  snap_target_type :: target_type
  snap_environment :: uuid
  snap_baseline :: case_baseline_ref
  snap_package :: package_ref
  snap_cases :: "case_definition list"
  snap_browser :: "string option"
  snap_web_config :: "web_run_config option"
  snap_config_hash :: digest
  snap_variables :: "runtime_variable list"
  snap_secrets :: "secret_binding list"
  snap_created_by :: uuid
  snap_created_at :: instant

definition expected_runner :: "target_type \<Rightarrow> runner_type option" where
  "expected_runner t =
     (case t of WEB \<Rightarrow> Some WEB_PLAYWRIGHT | APP \<Rightarrow> Some ANDROID_APPIUM | API \<Rightarrow> None)"

definition binding_names :: "runtime_variable list \<Rightarrow> secret_binding list \<Rightarrow> string list" where
  "binding_names vs ss = map var_name vs @ map secret_name ss"

definition validate_snapshot :: "run_snapshot \<Rightarrow> contract_error + run_snapshot" where
  "validate_snapshot s =
     (if snap_cases s = [] then Inl No_cases
      else if snap_target_type s = WEB \<and> (snap_browser s = None \<or> snap_browser s = Some [])
      then Inl Web_requires_browser
      else if snap_target_type s = WEB \<and> snap_web_config s = None then Inl Web_requires_web_config
      else if snap_target_type s \<noteq> WEB \<and> snap_web_config s \<noteq> None then Inl Web_config_only_for_web
      else if expected_runner (snap_target_type s) \<noteq> None
        \<and> Some (pref_runner_type (snap_package s)) \<noteq> expected_runner (snap_target_type s)
      then Inl Runner_type_mismatch
      else if \<not> distinct (map case_id (snap_cases s)) then Inl Duplicate_case_id
      else if int (length (snap_cases s)) > ref_case_count (snap_baseline s)
      then Inl Case_count_exceeds_baseline
      else if \<not> distinct (binding_names (snap_variables s) (snap_secrets s))
      then Inl Duplicate_variable_binding
      else Inr s)"

definition parse_snapshot :: "run_snapshot \<Rightarrow> contract_error + run_snapshot" where
  "parse_snapshot s =
     bind_outcome (validate_all validate_case (snap_cases s)) (\<lambda>cases.
     bind_outcome (validate_all reject_secret_like_names (snap_variables s)) (\<lambda>variables.
       validate_snapshot (s\<lparr>snap_cases := cases, snap_variables := variables\<rparr>)))"

subsection \<open>Results\<close>

record artifact =
  art_id :: uuid
  art_kind :: artifact_kind
  art_name :: string
  art_uri :: string
  art_digest :: digest
  art_size_bytes :: int

record case_result =
  cres_case_id :: uuid
  cres_case_code :: string
  cres_status :: case_result_status
  cres_started_at :: instant
  cres_finished_at :: instant
  cres_duration_ms :: int
  cres_failure_category :: "string option"
  cres_error_message :: "string option"
  cres_artifact_ids :: "uuid list"

definition validate_case_result :: "case_result \<Rightarrow> contract_error + case_result" where
  "validate_case_result c =
     (if cres_finished_at c < cres_started_at c then Inl Finished_before_started
      else if cres_status c \<in> {Case_FAILED, Case_INFRA_ERROR}
        \<and> (cres_error_message c = None \<or> cres_error_message c = Some [])
      then Inl Failed_requires_error_message
      else Inr c)"

datatype isolation_mode = IN_PROCESS | SUBPROCESS | CONTAINER | KUBERNETES

datatype credential_scope = WORKER | RUN_SECRETS_ONLY

datatype network_policy = WORKER_DEFAULT | DENY_ALL | ALLOWLIST

record isolation_evidence =
  iso_mode :: isolation_mode
  iso_executor_version :: string
  iso_dedicated_process :: bool
  iso_credential_scope :: credential_scope
  iso_read_only_root :: bool
  iso_network_policy :: network_policy
  iso_limits_enforced :: bool
  iso_image_id :: "digest option"
  iso_memory_limit :: "int option"
  iso_cpu_limit :: "int option"
  iso_pids_limit :: "int option"
  iso_storage_limit :: "int option"
  iso_namespace :: "string option"
  iso_service_account :: "string option"
  iso_token_automounted :: "bool option"

definition validate_isolation :: "isolation_evidence \<Rightarrow> contract_error + isolation_evidence" where
  "validate_isolation i =
     (if iso_mode i \<notin> {CONTAINER, KUBERNETES} then Inr i
      else if \<not> iso_dedicated_process i \<or> iso_credential_scope i \<noteq> RUN_SECRETS_ONLY
      then Inl Incomplete_isolation_evidence
      else if \<not> iso_read_only_root i \<or> iso_network_policy i = WORKER_DEFAULT
      then Inl Incomplete_isolation_evidence
      else if \<not> iso_limits_enforced i then Inl Incomplete_isolation_evidence
      else if iso_image_id i = None \<or> iso_memory_limit i = None \<or> iso_cpu_limit i = None
      then Inl Incomplete_isolation_evidence
      else if iso_mode i = CONTAINER \<and> iso_pids_limit i = None
      then Inl Incomplete_isolation_evidence
      else if iso_mode i = KUBERNETES \<and> iso_storage_limit i = None
      then Inl Incomplete_isolation_evidence
      else if iso_mode i = KUBERNETES
        \<and> (iso_namespace i \<in> {None, Some []} \<or> iso_service_account i \<in> {None, Some []})
      then Inl Incomplete_isolation_evidence
      else if iso_mode i = KUBERNETES \<and> iso_service_account i = Some ''default''
      then Inl Incomplete_isolation_evidence
      else if iso_mode i = KUBERNETES \<and> iso_token_automounted i \<noteq> Some False
      then Inl Incomplete_isolation_evidence
      else Inr i)"

record run_result =
  res_run_id :: uuid
  res_status :: run_status
  res_started_at :: instant
  res_finished_at :: instant
  res_runner_version :: string
  res_case_results :: "case_result list"
  res_artifacts :: "artifact list"
  res_isolation :: "isolation_evidence option"

definition terminal_statuses :: "run_status list" where
  "terminal_statuses = [PASSED, FAILED, CANCELED, TIMED_OUT, INFRA_ERROR]"

definition validate_result :: "run_result \<Rightarrow> contract_error + run_result" where
  "validate_result r =
     (if res_status r \<notin> set terminal_statuses then Inl Result_requires_terminal_status
      else if res_finished_at r < res_started_at r then Inl Finished_before_started
      else Inr r)"

definition parse_result :: "run_result \<Rightarrow> contract_error + run_result" where
  "parse_result r =
     bind_outcome (validate_all validate_case_result (res_case_results r)) (\<lambda>cases.
     bind_outcome (case res_isolation r of None \<Rightarrow> Inr None
         | Some i \<Rightarrow> bind_outcome (validate_isolation i) (\<lambda>i'. Inr (Some i'))) (\<lambda>isolation.
       validate_result (r\<lparr>res_case_results := cases, res_isolation := isolation\<rparr>)))"

subsection \<open>Facts about the validators\<close>

lemma validate_step_idem:
  assumes "validate_step s = Inr s'"
  shows "validate_step s' = Inr s'"
proof -
  obtain spec where g: "get_operation_spec (step_operation s) = Inr spec"
    using assms by (cases "get_operation_spec (step_operation s)") (simp_all add: validate_step_def)
  have s': "s' = s\<lparr>step_operation := cap_key spec\<rparr>"
    using assms by (simp add: validate_step_def g Let_def split: if_split_asm)
  show ?thesis
    using assms get_operation_spec_canonical [OF g]
    by (simp add: validate_step_def g s' Let_def split: if_split_asm)
qed

lemma validate_assertion_idem:
  assumes "validate_assertion a = Inr a'"
  shows "validate_assertion a' = Inr a'"
proof -
  obtain spec where g: "get_assertion_spec (assertion_type a) = Inr spec"
    using assms by (cases "get_assertion_spec (assertion_type a)") (simp_all add: validate_assertion_def)
  have a': "a' = a\<lparr>assertion_type := cap_key spec\<rparr>"
    using assms by (simp add: validate_assertion_def g Let_def split: if_split_asm)
  show ?thesis
    using assms get_assertion_spec_canonical [OF g]
    by (simp add: validate_assertion_def g a' Let_def split: if_split_asm)
qed

lemma validate_case_fields:
  assumes "validate_case c = Inr c'"
  shows "case_id c' = case_id c" "case_code c' = case_code c" "case_enabled c' = case_enabled c"
    "case_steps c' \<noteq> []"
  using assms by (auto simp: validate_case_def outcome_simps validate_all_Inr)

lemma validate_case_idem:
  assumes "validate_case c = Inr c'"
  shows "validate_case c' = Inr c'"
proof -
  obtain steps a where steps: "validate_all validate_step (case_steps c) = Inr steps"
    and a: "validate_assertion (case_assertion c) = Inr a"
    and c': "c' = c\<lparr>case_steps := steps, case_assertion := a\<rparr>" and "case_steps c \<noteq> []"
    using assms by (auto simp: validate_case_def outcome_simps)
  moreover from steps \<open>case_steps c \<noteq> []\<close> have "steps \<noteq> []" by (auto simp: validate_all_Inr)
  ultimately show ?thesis
    using validate_all_again [OF steps validate_step_idem] validate_assertion_idem [OF a]
    by (simp add: validate_case_def)
qed

lemma validate_cases_Inr: "validate_cases b = Inr b' \<longleftrightarrow>
    b' = b \<and> baseline_cases b \<noteq> [] \<and> distinct (map case_id (baseline_cases b))
    \<and> distinct (map case_code (baseline_cases b))"
  by (auto simp: validate_cases_def)

lemma parse_baseline_fields:
  assumes "parse_baseline b = Inr b'"
  shows "map case_id (baseline_cases b') = map case_id (baseline_cases b)"
    "map case_code (baseline_cases b') = map case_code (baseline_cases b)"
    "map case_enabled (baseline_cases b') = map case_enabled (baseline_cases b)"
    "baseline_id b' = baseline_id b" "baseline_version b' = baseline_version b"
    "distinct (map case_id (baseline_cases b))" "distinct (map case_code (baseline_cases b))"
proof -
  obtain cs where cs: "validate_all validate_case (baseline_cases b) = Inr cs"
    and b': "b' = b\<lparr>baseline_cases := cs\<rparr>" "distinct (map case_id cs)" "distinct (map case_code cs)"
    using assms by (auto simp: parse_baseline_def outcome_simps validate_cases_Inr)
  note same = validate_all_map [OF cs, of case_id case_id] validate_all_map [OF cs, of case_code case_code]
    validate_all_map [OF cs, of case_enabled case_enabled]
  show "map case_id (baseline_cases b') = map case_id (baseline_cases b)"
    "map case_code (baseline_cases b') = map case_code (baseline_cases b)"
    "map case_enabled (baseline_cases b') = map case_enabled (baseline_cases b)"
    "baseline_id b' = baseline_id b" "baseline_version b' = baseline_version b"
    "distinct (map case_id (baseline_cases b))" "distinct (map case_code (baseline_cases b))"
    using b' same by (simp_all add: validate_case_fields)
qed

lemma parse_baseline_idem: "parse_baseline b = Inr b' \<Longrightarrow> parse_baseline b' = Inr b'"
  by (auto simp: parse_baseline_def outcome_simps validate_cases_Inr
      dest: validate_all_again [OF _ validate_case_idem])

definition snapshot_ok :: "run_snapshot \<Rightarrow> bool" where
  "snapshot_ok s \<longleftrightarrow>
     snap_cases s \<noteq> []
     \<and> (if snap_target_type s = WEB
        then snap_browser s \<notin> {None, Some []} \<and> snap_web_config s \<noteq> None
        else snap_web_config s = None)
     \<and> expected_runner (snap_target_type s) \<in> {None, Some (pref_runner_type (snap_package s))}
     \<and> distinct (map case_id (snap_cases s))
     \<and> int (length (snap_cases s)) \<le> ref_case_count (snap_baseline s)
     \<and> distinct (binding_names (snap_variables s) (snap_secrets s))"

lemma validate_snapshot_iff: "validate_snapshot s = Inr s' \<longleftrightarrow> s' = s \<and> snapshot_ok s"
  by (cases "snap_target_type s = WEB")
    (auto simp: validate_snapshot_def snapshot_ok_def outcome_simps simp del: if_split)

lemma parse_snapshot_Inr:
  assumes "parse_snapshot s = Inr s'"
  shows "snapshot_ok s'" "validate_all validate_case (snap_cases s') = Inr (snap_cases s')"
    "map case_id (snap_cases s') = map case_id (snap_cases s)"
proof -
  obtain cs vs where cs: "validate_all validate_case (snap_cases s) = Inr cs"
    and s': "s' = s\<lparr>snap_cases := cs, snap_variables := vs\<rparr>" and ok: "snapshot_ok s'"
    using assms by (auto simp: parse_snapshot_def outcome_simps validate_snapshot_iff)
  show "snapshot_ok s'" by (fact ok)
  show "validate_all validate_case (snap_cases s') = Inr (snap_cases s')"
    using validate_all_again [OF cs validate_case_idem] s' by simp
  show "map case_id (snap_cases s') = map case_id (snap_cases s)"
    using validate_all_map [OF cs, of case_id case_id] s' by (simp add: validate_case_fields)
qed

text \<open>
  Rebuilding a snapshot on part of its cases (\<open>model_copy\<close> runs no validator) keeps it valid,
  as long as a case is left.
\<close>

lemma snapshot_ok_fewer_cases:
  assumes "snapshot_ok s" "filter P (snap_cases s) \<noteq> []"
  shows "snapshot_ok (s\<lparr>snap_run_id := i, snap_cases := filter P (snap_cases s),
      snap_created_by := a, snap_created_at := t\<rparr>)"
proof -
  have "length (filter P (snap_cases s)) \<le> length (snap_cases s)" by simp
  moreover have "int (length (snap_cases s)) \<le> ref_case_count (snap_baseline s)"
    using assms by (simp add: snapshot_ok_def)
  ultimately have "int (length (filter P (snap_cases s))) \<le> ref_case_count (snap_baseline s)"
    by linarith
  with assms show ?thesis
    by (cases "snap_target_type s = WEB") (simp_all add: snapshot_ok_def distinct_map_filter)
qed

lemma parse_result_Inr:
  assumes "parse_result r = Inr r'"
  shows "res_status r' \<in> set terminal_statuses" "res_started_at r' \<le> res_finished_at r'"
    "list_all2 (\<lambda>c c'. validate_case_result c = Inr c') (res_case_results r) (res_case_results r')"
  using assms
  by (auto simp: parse_result_def outcome_simps validate_result_def validate_all_Inr)

lemma contains_iff: "contains w s \<longleftrightarrow> (\<exists>u v. s = u @ w @ v)"
proof
  assume "contains w s"
  then obtain i where "take (length w) (drop i s) = w" by (auto simp: contains_def)
  then have "s = take i s @ w @ drop (length w) (drop i s)"
    by (metis append_take_drop_id)
  then show "\<exists>u v. s = u @ w @ v" by blast
next
  assume "\<exists>u v. s = u @ w @ v"
  then obtain u v where "s = u @ w @ v" by blast
  then show "contains w s"
    unfolding contains_def by (intro bexI [of _ "length u"]) auto
qed

end
