(* ===== verification/Persistence.thy ===== *)
theory Persistence
  imports Contracts
begin

section \<open>Rows of the control-plane database\<close>

text \<open>
  \<open>apps/api/src/testops/api/persistence.py\<close>: one record per table class, the columns in
  order.  Status columns, which the database stores as strings restricted by the services,
  are datatypes with one constructor per stored value.  Surrogate keys nothing refers to
  (\<open>run_events.id\<close>, \<open>run_cases.id\<close>, \<open>change_items.id\<close>, \<open>approvals.id\<close>, \<open>audit_logs.id\<close>) and
  the \<open>updated_at\<close> columns, which no decision reads, are left out.  Documents that
  are read back are the contract records they were dumped from; event payloads and audit
  details, which are only written, are JSON objects.  Deduplication keys are datatypes with
  a constructor per format of the key.
\<close>

subsection \<open>JSON values\<close>

text \<open>
  The values of JSON columns (audit details, event payloads).  Identifiers and instants, which
  the services write as their canonical strings, keep constructors of their own: their
  renderings (\<open>str(uuid)\<close>, \<open>isoformat()\<close>) are injective.  \<open>JPercent\<close> is a float with two
  decimals, kept as its number of hundredths.
\<close>

datatype json =
    JNull | JBool bool | JInt int | JPercent int | JStr string | JId uuid | JTime instant
  | JList "json list" | JObj "(string \<times> json) list"

definition json_id :: "uuid option \<Rightarrow> json" where
  "json_id i = (case i of None \<Rightarrow> JNull | Some u \<Rightarrow> JId u)"

definition json_str :: "string option \<Rightarrow> json" where
  "json_str i = (case i of None \<Rightarrow> JNull | Some u \<Rightarrow> JStr u)"

definition json_time :: "instant option \<Rightarrow> json" where
  "json_time i = (case i of None \<Rightarrow> JNull | Some u \<Rightarrow> JTime u)"

fun run_status_value :: "run_status \<Rightarrow> string" where
  "run_status_value QUEUED = ''QUEUED''"
| "run_status_value PREPARING = ''PREPARING''"
| "run_status_value RUNNING = ''RUNNING''"
| "run_status_value PASSED = ''PASSED''"
| "run_status_value FAILED = ''FAILED''"
| "run_status_value CANCELED = ''CANCELED''"
| "run_status_value TIMED_OUT = ''TIMED_OUT''"
| "run_status_value INFRA_ERROR = ''INFRA_ERROR''"

definition json_status :: "run_status \<Rightarrow> json" where
  "json_status s = JStr (run_status_value s)"

subsection \<open>Status values\<close>

text \<open>
  The string values of \<open>RunStatus\<close> and \<open>CaseResultStatus\<close> together: the two enumerations
  share every value but \<open>SKIPPED\<close>, and \<open>run_cases.status\<close> holds both kinds.
\<close>

datatype status_value = Value_of run_status | Value_SKIPPED

fun case_status_value :: "case_result_status \<Rightarrow> status_value" where
  "case_status_value Case_PASSED = Value_of PASSED"
| "case_status_value Case_FAILED = Value_of FAILED"
| "case_status_value Case_SKIPPED = Value_SKIPPED"
| "case_status_value Case_INFRA_ERROR = Value_of INFRA_ERROR"

datatype record_status = Record_ACTIVE | Record_ARCHIVED

datatype system_role = USER | SYSTEM_ADMIN

datatype user_status = User_ACTIVE | User_DISABLED

datatype project_role = VIEWER | TESTER | REVIEWER | PROJECT_ADMIN

datatype baseline_status =
  Baseline_DRAFT | Baseline_CANDIDATE | Baseline_RELEASED | Baseline_SUPERSEDED

datatype change_request_status =
  Change_DRAFT | Change_IN_REVIEW | Change_CHANGES_REQUESTED | Change_CANDIDATE | Change_PUBLISHED

datatype validation_status = PENDING_EXECUTION | NOT_REQUIRED | Validation_run run_status

datatype change_type = ADD | MODIFY | DELETE

datatype review_decision = APPROVE | REQUEST_CHANGES

datatype package_status = Package_DRAFT | Package_ACTIVE | Package_DEPRECATED | Package_REVOKED

datatype supply_chain_status = Chain_LEGACY | Chain_PENDING | Chain_VERIFIED | Chain_REJECTED

datatype verification_outcome = Outcome_VERIFIED | Outcome_REJECTED

datatype resource_status = Resource_ACTIVE | Resource_DRAINING | Resource_DISABLED

datatype lease_status = Lease_ACTIVE | Lease_RELEASED | Lease_EXPIRED

datatype dispatch_state = Dispatch_PENDING | Dispatch_WAITING | Dispatch_DISPATCHED

datatype wait_reason =
    RUNNER_POOL_NOT_FOUND | RUNNER_POOL_DRAINING | RUNNER_POOL_DISABLED | NO_HEALTHY_RUNNER
  | RUNNER_CAPABILITY_MISMATCH | RUNNER_ISOLATION_UNAVAILABLE | AUTOMATION_PACKAGE_UNAVAILABLE
  | RUNNER_POOL_CAPACITY_EXHAUSTED | BROKER_PUBLISH_FAILED

datatype rerun_mode = FULL | FAILED_ONLY

datatype schedule_status = Schedule_ACTIVE | Schedule_PAUSED | Schedule_ARCHIVED

datatype misfire_policy = SKIP | FIRE_ONCE

datatype recovery_reason = Timed_out | Runner_lost | Dispatch_stalled

subsection \<open>People and projects\<close>

record user_row =
  u_id :: uuid
  u_username :: string
  u_display_name :: string
  u_password_hash :: string
  u_role :: system_role
  u_status :: user_status

record auth_session_row =
  as_id :: uuid
  as_user :: uuid
  as_token_hash :: string
  as_expires_at :: instant
  as_created_at :: instant
  as_revoked_at :: "instant option"

record email_preference_row =
  ep_user :: uuid
  ep_email :: "string option"
  ep_emails :: "string list"
  ep_selected :: "string list option"
  ep_enabled :: bool
  ep_statuses :: "run_status list"

record project_row =
  p_id :: uuid
  p_key :: string
  p_name :: string
  p_description :: "string option"
  p_status :: record_status
  p_max_in_flight :: int
  p_max_daily :: int
  p_run_timeout :: int
  p_slo_target :: int
  p_slo_window_days :: int
  p_warning_drop :: int
  p_critical_drop :: int

record member_row =
  m_id :: uuid
  m_project :: uuid
  m_user :: uuid
  m_role :: project_role
  m_created_by :: uuid

subsection \<open>Test assets\<close>

record target_row =
  t_id :: uuid
  t_project :: uuid
  t_pool :: "uuid option"
  t_key :: string
  t_name :: string
  t_type :: target_type
  t_browser :: "string option"
  t_status :: record_status

record config_document =
  doc_web_config :: "web_run_config option"
  doc_variables :: "runtime_variable list"
  doc_secrets :: "secret_binding list"

record environment_row =
  e_id :: uuid
  e_project :: uuid
  e_target :: uuid
  e_pool :: "uuid option"
  e_key :: string
  e_name :: string
  e_document :: config_document
  e_config_hash :: digest
  e_status :: record_status

record baseline_row =
  b_id :: uuid
  b_project :: uuid
  b_version :: string
  b_digest :: digest
  b_case_count :: int
  b_enabled_count :: int
  b_status :: baseline_status
  b_document :: case_baseline

record change_request_row =
  cr_id :: uuid
  cr_project :: uuid
  cr_base :: uuid
  cr_candidate :: uuid
  cr_version :: string
  cr_digest :: digest
  cr_document :: case_baseline
  cr_title :: string
  cr_reason :: string
  cr_status :: change_request_status
  cr_validation_status :: validation_status
  cr_created_by :: uuid
  cr_submitted_at :: "instant option"
  cr_reviewed_at :: "instant option"
  cr_published_at :: "instant option"
  cr_published_baseline :: "uuid option"
  cr_validation_run :: "uuid option"

record change_item_row =
  ci_request :: uuid
  ci_sequence :: nat
  ci_type :: change_type
  ci_case_id :: uuid
  ci_case_code :: string
  ci_before :: "case_definition option"
  ci_after :: "case_definition option"
  ci_changed :: "string list"

record approval_row =
  ap_request :: uuid
  ap_reviewer :: uuid
  ap_decision :: review_decision
  ap_comment :: "string option"
  ap_at :: instant

record package_row =
  k_id :: uuid
  k_project :: uuid
  k_target :: uuid
  k_name :: string
  k_version :: string
  k_digest :: digest
  k_runner_type :: runner_type
  k_image_repository :: string
  k_status :: package_status
  k_supersedes :: "uuid option"
  k_validated_run :: "uuid option"
  k_activated_by :: "uuid option"
  k_activated_at :: "instant option"
  k_reason :: "string option"
  k_chain_status :: supply_chain_status
  k_verification :: "uuid option"
  k_verified_at :: "instant option"

text \<open>The verifier's report; the row of a verification is the report and where it belongs.\<close>

record chain_report =
  rep_outcome :: verification_outcome
  rep_policy_version :: string
  rep_verifier :: string
  rep_image_digest :: digest
  rep_signature_bundle :: digest
  rep_provenance :: digest
  rep_sbom :: digest
  rep_signature_verified :: bool
  rep_log_verified :: bool
  rep_provenance_verified :: bool
  rep_sbom_verified :: bool
  rep_certificate_issuer :: string
  rep_certificate_identity :: string
  rep_builder_id :: string
  rep_source_repository :: string
  rep_source_revision :: string
  rep_reason :: "string option"

record verification_row =
  sv_id :: uuid
  sv_project :: uuid
  sv_target :: uuid
  sv_package :: uuid
  sv_report :: chain_report
  sv_report_digest :: digest
  sv_verified_at :: instant

datatype envelope_algorithm = HMAC_SHA256 | ED25519

record envelope_row =
  env_id :: uuid
  env_project :: uuid
  env_target :: uuid
  env_package :: uuid
  env_verification :: uuid
  env_verifier :: string
  env_credential :: string
  env_algorithm :: envelope_algorithm
  env_workload :: "string option"
  env_fingerprint :: "digest option"
  env_nonce :: string
  env_issued_at :: instant
  env_received_at :: instant
  env_request_digest :: digest
  env_signature_digest :: digest

subsection \<open>Runner resources\<close>

record runtime_ref =
  rt_runner_type :: runner_type
  rt_image_repository :: string
  rt_digest :: digest

record isolation_capabilities =
  ic_mode :: isolation_mode
  ic_dedicated_process :: bool
  ic_credential_scope :: credential_scope
  ic_read_only_root :: bool
  ic_network_policy :: network_policy
  ic_limits_enforced :: bool
  ic_memory_limit :: "int option"
  ic_cpu_limit :: "int option"
  ic_pids_limit :: "int option"
  ic_storage_limit :: "int option"
  ic_namespace :: "string option"
  ic_service_account :: "string option"
  ic_token_automounted :: "bool option"

record runner_capabilities =
  rc_target_types :: "target_type list"
  rc_browsers :: "string list"
  rc_packages :: "runtime_ref list"
  rc_isolation :: "isolation_capabilities option"

record pool_row =
  pl_id :: uuid
  pl_key :: string
  pl_name :: string
  pl_description :: "string option"
  pl_target_types :: "target_type list"
  pl_queue :: string
  pl_max_concurrency :: int
  pl_status :: resource_status

record worker_row =
  w_id :: uuid
  w_pool :: uuid
  w_key :: string
  w_display_name :: string
  w_version :: string
  w_capabilities :: runner_capabilities
  w_max_slots :: int
  w_status :: resource_status
  w_last_heartbeat :: instant

record lease_row =
  l_id :: uuid
  l_pool :: uuid
  l_run :: uuid
  l_worker :: "uuid option"
  l_status :: lease_status
  l_acquired_at :: instant
  l_released_at :: "instant option"

subsection \<open>Runs\<close>

datatype run_message =
    Runner_message string
  | Timeout_message int
  | Runner_lost_message string
  | Dispatch_stalled_message

record run_row =
  r_id :: uuid
  r_project :: uuid
  r_target :: uuid
  r_environment :: uuid
  r_baseline :: uuid
  r_package :: uuid
  r_pool :: "uuid option"
  r_schedule :: "uuid option"
  r_scheduled_for :: "instant option"
  r_source :: "uuid option"
  r_retry_mode :: "rerun_mode option"
  r_status :: run_status
  r_idempotency_key :: string
  r_request_hash :: digest
  r_snapshot_digest :: digest
  r_snapshot :: run_snapshot
  r_result_digest :: "digest option"
  r_result :: "run_result option"
  r_case_count :: int
  r_timeout_seconds :: int
  r_created_by :: uuid
  r_cancel_requested :: bool
  r_dispatch_state :: dispatch_state
  r_wait_reason :: "wait_reason option"
  r_dispatched_at :: "instant option"
  r_started_at :: "instant option"
  r_timeout_at :: "instant option"
  r_finished_at :: "instant option"
  r_error_message :: "run_message option"
  r_created_at :: instant

record run_case_row =
  c_run :: uuid
  c_case_id :: uuid
  c_case_code :: string
  c_sequence :: nat
  c_status :: status_value
  c_duration_ms :: "int option"
  c_failure_category :: "string option"
  c_error_message :: "run_message option"

record artifact_row =
  f_run :: uuid
  f_artifact :: artifact
  f_created_at :: instant

datatype runner_event_type =
    run_started | case_started | case_finished | progress_updated | run_finished
  | live_view_ready | live_view_ended

record run_progress =
  current_round :: "int option"
  total_rounds :: "int option"
  round_completed :: "int option"
  round_total :: "int option"
  progress_completed :: "int option"
  progress_total :: "int option"
  progress_passed :: "int option"
  progress_failed :: "int option"
  progress_skipped :: "int option"

record runner_event =
  ev_run_id :: uuid
  ev_event :: runner_event_type
  ev_at :: instant
  ev_case_code :: "string option"
  ev_status :: "status_value option"
  ev_progress :: run_progress
  ev_current_case_code :: "string option"

datatype event_source = SYSTEM | RUNNER

datatype event_type =
    Run_created_event | Status_changed_event | Result_recorded_event | Cancel_requested_event
  | Run_recovered_event | Runner_event_of runner_event_type

datatype event_key =
    Key_run_created | Key_status run_status | Key_result digest | Key_cancel_requested
  | Key_reliability recovery_reason | Key_runner digest

record event_row =
  v_run :: uuid
  v_sequence :: nat
  v_key :: event_key
  v_source :: event_source
  v_type :: event_type
  v_case_code :: "string option"
  v_status :: "status_value option"
  v_payload :: "(string \<times> json) list"
  v_occurred_at :: instant

datatype outbox_event_type = Run_queued | Run_cancel_requested | Other_event string

datatype outbox_payload =
    Queued_payload run_snapshot "uuid option"
  | Cancel_payload uuid "recovery_reason option"

datatype outbox_key =
    Key_run_queued uuid | Key_run_cancel uuid | Key_reliability_cancel recovery_reason uuid

datatype outbox_status = Outbox_PENDING | Outbox_PUBLISHED

datatype outbox_error = Waiting_for wait_reason | Publish_error string

record outbox_row =
  o_id :: uuid
  o_aggregate :: uuid
  o_event_type :: outbox_event_type
  o_key :: outbox_key
  o_payload :: outbox_payload
  o_status :: outbox_status
  o_attempts :: nat
  o_available_at :: instant
  o_created_at :: instant
  o_processed_at :: "instant option"
  o_last_error :: "outbox_error option"

subsection \<open>Result mails\<close>

datatype delivery_status = Delivery_PENDING | Delivery_DELIVERED | Delivery_FAILED | Delivery_CANCELED

datatype email_key = Key_email_test uuid | Key_email_result uuid uuid string

record result_mail =
  rm_project_id :: uuid
  rm_project_key :: string
  rm_project_name :: string
  rm_run :: uuid
  rm_status :: run_status
  rm_case_count :: int
  rm_status_counts :: "(case_result_status \<times> int) list"
  rm_duration_ms :: "int option"
  rm_finished_at :: "instant option"
  rm_baseline_version :: string
  rm_package_version :: string

datatype email_payload = Mail_test instant | Mail_result result_mail

datatype email_error = Preference_changed | Email_error string

record email_row =
  ed_id :: uuid
  ed_user :: uuid
  ed_project :: "uuid option"
  ed_run :: "uuid option"
  ed_key :: email_key
  ed_recipient :: string
  ed_display :: string
  ed_payload :: email_payload
  ed_status :: delivery_status
  ed_attempts :: nat
  ed_available_at :: instant
  ed_last_error :: "email_error option"
  ed_delivered_at :: "instant option"
  ed_created_at :: instant

subsection \<open>Schedules\<close>

datatype trigger_kind = Trigger_MANUAL | Trigger_SCHEDULED | Trigger_MISFIRE

datatype firing_status = Firing_TRIGGERED | Firing_SKIPPED | Firing_BLOCKED

datatype schedule_error = MISFIRE_SKIPPED | Blocked_by string

record schedule_row =
  s_id :: uuid
  s_project :: uuid
  s_target :: uuid
  s_environment :: uuid
  s_baseline :: uuid
  s_package :: uuid
  s_key :: string
  s_name :: string
  s_description :: "string option"
  s_case_codes :: "string list"
  s_cron :: string
  s_timezone :: string
  s_misfire_policy :: misfire_policy
  s_misfire_grace :: int
  s_status :: schedule_status
  s_next_fire_at :: "instant option"
  s_last_scheduled_for :: "instant option"
  s_last_triggered_at :: "instant option"
  s_last_run :: "uuid option"
  s_last_error :: "schedule_error option"
  s_created_by :: uuid

record firing_row =
  g_id :: uuid
  g_schedule :: uuid
  g_run :: "uuid option"
  g_scheduled_for :: instant
  g_triggered_at :: "instant option"
  g_kind :: trigger_kind
  g_status :: firing_status
  g_error :: "schedule_error option"

subsection \<open>Quality alerts and webhooks\<close>

datatype alert_metric = RUN_PASS_RATE | CASE_PASS_RATE | EXECUTION_RELIABILITY

datatype alert_status = Alert_NO_DATA | Alert_STABLE | Alert_WARNING | Alert_CRITICAL

datatype webhook_event = Alert_triggered | Alert_escalated | Alert_deescalated | Alert_recovered | Alert_test

datatype webhook_key =
    Key_alert uuid alert_metric nat digest
  | Key_webhook_test uuid
  | Key_webhook_replay uuid

text \<open>A percentage with two decimals, as its number of hundredths.\<close>

type_synonym percent = int

record webhook_config_row =
  wc_id :: uuid
  wc_project :: uuid
  wc_enabled :: bool
  wc_endpoint :: string
  wc_minimum :: alert_status
  wc_secret_name :: "string option"
  wc_secret_ref :: "string option"
  wc_cooldown :: int
  wc_last_evaluated_at :: "instant option"
  wc_next_evaluation_at :: "instant option"
  wc_silenced_until :: "instant option"
  wc_silenced_by :: "uuid option"
  wc_silence_reason :: "string option"
  wc_created_at :: instant

record webhook_delivery_row =
  wd_id :: uuid
  wd_project :: uuid
  wd_config :: uuid
  wd_event :: webhook_event
  wd_key :: webhook_key
  wd_destination :: string
  wd_payload :: "(string \<times> json) list"
  wd_status :: delivery_status
  wd_attempts :: nat
  wd_available_at :: instant
  wd_response_status :: "int option"
  wd_last_error :: "string option"
  wd_replay_of :: "uuid option"
  wd_replayed_by :: "uuid option"
  wd_replay_reason :: "string option"
  wd_created_at :: instant
  wd_delivered_at :: "instant option"

record alert_state_row =
  qs_id :: uuid
  qs_project :: uuid
  qs_metric :: alert_metric
  qs_status :: alert_status
  qs_active :: "alert_status option"
  qs_current :: "percent option"
  qs_previous :: "percent option"
  qs_delta :: "percent option"
  qs_fingerprint :: digest
  qs_sequence :: nat
  qs_last_evaluated_at :: instant
  qs_last_transition_at :: instant
  qs_last_notified_at :: "instant option"
  qs_cooldown_until :: "instant option"
  qs_last_delivery :: "uuid option"
  qs_acknowledged_at :: "instant option"
  qs_acknowledged_by :: "uuid option"
  qs_note :: "string option"

text \<open>The document whose digest identifies the state of one signal.\<close>

record signal_document =
  sd_project :: uuid
  sd_metric :: alert_metric
  sd_status :: alert_status
  sd_current :: "percent option"
  sd_previous :: "percent option"
  sd_delta :: "percent option"
  sd_latest :: "instant option"
  sd_counts :: "int list"

subsection \<open>System settings\<close>

record setting_row =
  st_key :: string
  st_value :: "(string \<times> json) list"

end
