(* ===== verification/Store.thy ===== *)
theory Store
  imports Persistence
begin

section \<open>The session: database, errors, audit log, event log\<close>

text \<open>
  The state every service works on and the helpers of \<open>services.py\<close> that all of them call.

  A service is a function of a transaction context (the clock reading, the digests, the
  identifiers drawn), its arguments and the database; it returns \<open>Inl\<close> of the exception it
  raises (the session is rolled back, the database of the caller stays) or \<open>Inr\<close> of the
  committed database and its result.  The services lock the rows they decide on
  (\<open>with_for_update\<close>), so one call is one atomic step.  The several \<open>utc_now()\<close> readings of
  one transaction are one reading here.
\<close>

subsection \<open>Errors\<close>

text \<open>
  The exception classes, with the message they are raised with.  Where the source fills values
  into a message (an f-string), the message here keeps \<open>{}\<close> in the place of each value.
\<close>

datatype service_error =
    ResourceNotFound string
  | ResourceConflict string
  | InvalidRequest string
  | Contract_violation contract_error
  | Integrity_error
  | Value_error string
  | AuthenticationRequired string
  | PermissionDenied string
  | BootstrapUnavailable string

text \<open>\<open>ServiceError\<close> is the base class of the first three and the last three.\<close>

fun service_error_message :: "service_error \<Rightarrow> string option" where
  "service_error_message (ResourceNotFound m) = Some m"
| "service_error_message (ResourceConflict m) = Some m"
| "service_error_message (InvalidRequest m) = Some m"
| "service_error_message (AuthenticationRequired m) = Some m"
| "service_error_message (PermissionDenied m) = Some m"
| "service_error_message (BootstrapUnavailable m) = Some m"
| "service_error_message (Contract_violation c) = None"
| "service_error_message Integrity_error = None"
| "service_error_message (Value_error m) = None"

subsection \<open>Audit log\<close>

record audit_row =
  a_project :: "uuid option"
  a_actor :: uuid
  a_action :: string
  a_resource_type :: string
  a_resource :: uuid
  a_details :: "(string \<times> json) list"
  a_created_at :: instant

definition RUNNER_ACTOR_ID :: uuid where
  "RUNNER_ACTOR_ID = 1"

definition SYSTEM_ACTOR_ID :: uuid where
  "SYSTEM_ACTOR_ID = 1"

subsection \<open>The database\<close>

record db =
  users :: "user_row list"
  auth_sessions :: "auth_session_row list"
  email_preferences :: "email_preference_row list"
  email_deliveries :: "email_row list"
  projects :: "project_row list"
  members :: "member_row list"
  targets :: "target_row list"
  environments :: "environment_row list"
  baselines :: "baseline_row list"
  change_requests :: "change_request_row list"
  change_items :: "change_item_row list"
  approvals :: "approval_row list"
  packages :: "package_row list"
  verifications :: "verification_row list"
  envelopes :: "envelope_row list"
  pools :: "pool_row list"
  workers :: "worker_row list"
  leases :: "lease_row list"
  schedules :: "schedule_row list"
  firings :: "firing_row list"
  runs :: "run_row list"
  run_cases :: "run_case_row list"
  artifacts :: "artifact_row list"
  events :: "event_row list"
  outbox :: "outbox_row list"
  webhook_configs :: "webhook_config_row list"
  webhook_deliveries :: "webhook_delivery_row list"
  alert_states :: "alert_state_row list"
  settings :: "setting_row list"
  audit_log :: "audit_row list"

definition empty_db :: db where
  "empty_db = \<lparr>users = [], auth_sessions = [], email_preferences = [], email_deliveries = [],
     projects = [], members = [], targets = [], environments = [], baselines = [],
     change_requests = [], change_items = [], approvals = [], packages = [], verifications = [],
     envelopes = [], pools = [], workers = [], leases = [], schedules = [], firings = [],
     runs = [], run_cases = [], artifacts = [], events = [], outbox = [],
     webhook_configs = [], webhook_deliveries = [], alert_states = [], settings = [], audit_log = []\<rparr>"

subsection \<open>The transaction context\<close>

record run_request =
  rq_project :: uuid
  rq_target :: uuid
  rq_environment :: uuid
  rq_baseline :: uuid
  rq_package :: uuid
  rq_case_codes :: "string list"
  rq_headless :: "bool option"

text \<open>
  The documents the services digest with \<open>canonical_sha256\<close>, and the identifiers they draw
  with \<open>uuid4()\<close>, named by what they are drawn for.  The digest function is an argument:
  where a property needs that different documents have different digests, it says so.
\<close>

datatype hashed_document =
    Hash_run_request run_request
  | Hash_rerun_request uuid rerun_mode
  | Hash_snapshot run_snapshot
  | Hash_result run_result
  | Hash_runner_event runner_event
  | Hash_environment config_document
  | Hash_baseline case_baseline
  | Hash_chain_report uuid chain_report
  | Hash_recipient string
  | Hash_text string
  | Hash_signal signal_document

datatype draw =
    Draw_run | Draw_outbox uuid | Draw_lease uuid | Draw_email uuid string | Draw_row
  | Draw_member | Draw_baseline | Draw_state alert_metric | Draw_delivery alert_metric

record txn =
  txn_now :: instant
  txn_digest :: "hashed_document \<Rightarrow> digest"
  txn_uuid :: "draw \<Rightarrow> uuid"

definition audit ::
  "txn \<Rightarrow> uuid \<Rightarrow> string \<Rightarrow> string \<Rightarrow> uuid \<Rightarrow> uuid option \<Rightarrow> (string \<times> json) list \<Rightarrow> db \<Rightarrow> db" where
  "audit x actor action kind resource project details d =
     d\<lparr>audit_log := audit_log d @
        [\<lparr>a_project = project, a_actor = actor, a_action = action, a_resource_type = kind,
          a_resource = resource, a_details = details, a_created_at = txn_now x\<rparr>]\<rparr>"

definition project_or_404 :: "db \<Rightarrow> uuid \<Rightarrow> service_error + project_row" where
  "project_or_404 d i = require_row (ResourceNotFound ''project not found'') (lookup_row p_id i (projects d))"

definition run_or_404 :: "db \<Rightarrow> uuid \<Rightarrow> service_error + run_row" where
  "run_or_404 d i = require_row (ResourceNotFound ''Run not found'') (lookup_row r_id i (runs d))"

definition store_run :: "run_row \<Rightarrow> db \<Rightarrow> db" where
  "store_run r d = d\<lparr>runs := update_row r_id (r_id r) (\<lambda>_. r) (runs d)\<rparr>"

subsection \<open>Unique constraints\<close>

text \<open>
  The \<open>UniqueConstraint\<close>s of \<open>persistence.py\<close> and the primary keys that rows are looked up by;
  the surrogate keys of rows nobody looks up (drawn with \<open>uuid4()\<close>) are left out.  A flush or a commit of a
  session whose rows break one raises \<open>IntegrityError\<close>; sessions autoflush, so a query after
  \<open>session.add\<close> raises it as well.  Foreign keys are not modelled: the services read the rows
  they refer to in the same transaction.
\<close>

definition unique_on :: "('r \<Rightarrow> 'k) \<Rightarrow> 'r list \<Rightarrow> bool" where
  "unique_on key rows = distinct (map key rows)"

definition unique_people :: "db \<Rightarrow> bool" where
  "unique_people d \<longleftrightarrow> unique_on u_id (users d) \<and> unique_on u_username (users d)
     \<and> unique_on as_id (auth_sessions d) \<and> unique_on as_token_hash (auth_sessions d)
     \<and> unique_on ep_user (email_preferences d) \<and> unique_on ed_key (email_deliveries d)
     \<and> unique_on m_id (members d) \<and> unique_on (\<lambda>m. (m_project m, m_user m)) (members d)"

definition unique_assets :: "db \<Rightarrow> bool" where
  "unique_assets d \<longleftrightarrow> unique_on p_id (projects d) \<and> unique_on p_key (projects d)
     \<and> unique_on t_id (targets d) \<and> unique_on (\<lambda>t. (t_project t, t_key t)) (targets d)
     \<and> unique_on e_id (environments d) \<and> unique_on (\<lambda>e. (e_target e, e_key e)) (environments d)
     \<and> unique_on b_id (baselines d) \<and> unique_on (\<lambda>b. (b_project b, b_version b)) (baselines d)
     \<and> unique_on (\<lambda>b. (b_project b, b_digest b)) (baselines d)
     \<and> unique_on cr_id (change_requests d)
     \<and> unique_on (\<lambda>c. (cr_project c, cr_version c)) (change_requests d)
     \<and> unique_on (\<lambda>c. (ci_request c, ci_sequence c)) (change_items d)"

definition unique_packages :: "db \<Rightarrow> bool" where
  "unique_packages d \<longleftrightarrow> unique_on k_id (packages d)
     \<and> unique_on (\<lambda>k. (k_target k, k_name k, k_version k)) (packages d)
     \<and> unique_on sv_id (verifications d)
     \<and> unique_on (\<lambda>v. (sv_package v, sv_report_digest v)) (verifications d)
     \<and> unique_on (\<lambda>e. (env_credential e, env_nonce e)) (envelopes d)"

definition unique_runners :: "db \<Rightarrow> bool" where
  "unique_runners d \<longleftrightarrow> unique_on pl_id (pools d) \<and> unique_on pl_key (pools d)
     \<and> unique_on pl_queue (pools d) \<and> unique_on w_id (workers d) \<and> unique_on w_key (workers d)
     \<and> unique_on l_id (leases d)"

definition unique_runs :: "db \<Rightarrow> bool" where
  "unique_runs d \<longleftrightarrow> unique_on r_id (runs d)
     \<and> unique_on (\<lambda>r. (r_project r, r_idempotency_key r)) (runs d)
     \<and> unique_on (\<lambda>c. (c_run c, c_case_id c)) (run_cases d)
     \<and> unique_on (\<lambda>c. (c_run c, c_sequence c)) (run_cases d)
     \<and> unique_on (\<lambda>f. art_id (f_artifact f)) (artifacts d)
     \<and> unique_on (\<lambda>e. (v_run e, v_key e)) (events d)
     \<and> unique_on (\<lambda>e. (v_run e, v_sequence e)) (events d)
     \<and> unique_on o_key (outbox d)"

definition unique_schedules :: "db \<Rightarrow> bool" where
  "unique_schedules d \<longleftrightarrow> unique_on s_id (schedules d)
     \<and> unique_on (\<lambda>s. (s_project s, s_key s)) (schedules d)
     \<and> unique_on (\<lambda>g. (g_schedule g, g_scheduled_for g)) (firings d)"

text \<open>A unique column that may be NULL: the rows where it is set differ on it.\<close>

definition unique_some :: "('r \<Rightarrow> 'k option) \<Rightarrow> 'r list \<Rightarrow> bool" where
  "unique_some key rows = distinct (filter (\<lambda>k. k \<noteq> None) (map key rows))"

definition unique_quality :: "db \<Rightarrow> bool" where
  "unique_quality d \<longleftrightarrow> unique_on wc_id (webhook_configs d) \<and> unique_on wc_project (webhook_configs d)
     \<and> unique_on wd_key (webhook_deliveries d) \<and> unique_some wd_replay_of (webhook_deliveries d)
     \<and> unique_on (\<lambda>q. (qs_project q, qs_metric q)) (alert_states d)
     \<and> unique_on st_key (settings d)"

definition unique_ok :: "db \<Rightarrow> bool" where
  "unique_ok d \<longleftrightarrow> unique_people d \<and> unique_assets d \<and> unique_packages d
     \<and> unique_runners d \<and> unique_runs d \<and> unique_schedules d \<and> unique_quality d"

definition commit :: "db \<Rightarrow> service_error + db" where
  "commit d = (if unique_ok d then Inr d else Inl Integrity_error)"

text \<open>\<open>_commit_unique\<close>: the same commit, with the violation answered as a conflict.\<close>

definition commit_unique :: "string \<Rightarrow> db \<Rightarrow> service_error + db" where
  "commit_unique message d = (if unique_ok d then Inr d else Inl (ResourceConflict message))"

lemma commit_Inr_iff [outcome_simps]: "commit d = Inr d' \<longleftrightarrow> unique_ok d \<and> d' = d"
  by (auto simp: commit_def)

lemma commit_unique_Inr_iff [outcome_simps]: "commit_unique m d = Inr d' \<longleftrightarrow> unique_ok d \<and> d' = d"
  by (auto simp: commit_unique_def)

lemma commit_bind_InrE:
  assumes "bind_outcome (commit d) k = Inr b"
  obtains "unique_ok d" "k d = Inr b"
  using assms by (cases "unique_ok d") (simp_all add: commit_def)

lemma commit_unique_bind_InrE:
  assumes "bind_outcome (commit_unique m d) k = Inr b"
  obtains "unique_ok d" "k d = Inr b"
  using assms by (cases "unique_ok d") (simp_all add: commit_unique_def)

lemma unique_on_Nil [simp]: "unique_on key []"
  by (simp add: unique_on_def)

lemma unique_on_append [row_simps]:
  "unique_on key (xs @ ys) \<longleftrightarrow>
     unique_on key xs \<and> unique_on key ys \<and> key ` set xs \<inter> key ` set ys = {}"
  by (simp add: unique_on_def)

lemma unique_on_single [simp]: "unique_on key [x]"
  by (simp add: unique_on_def)

lemma unique_on_update_where:
  "(\<And>r. P r \<Longrightarrow> key (f r) = key r) \<Longrightarrow> unique_on key (update_where P f rows) = unique_on key rows"
  by (simp add: unique_on_def map_update_where)

lemma unique_on_update_row:
  "(\<And>r. k r = i \<Longrightarrow> key (f r) = key r) \<Longrightarrow> unique_on key (update_row k i f rows) = unique_on key rows"
  by (simp add: update_row_def unique_on_update_where)

lemma unique_on_eq: "unique_on key rows \<Longrightarrow> r \<in> set rows \<Longrightarrow> s \<in> set rows \<Longrightarrow> key r = key s \<Longrightarrow> r = s"
  by (auto simp: unique_on_def distinct_map dest: inj_onD)

lemma unique_runs_cong:
  assumes "runs d' = runs d" "run_cases d' = run_cases d" "artifacts d' = artifacts d"
    "events d' = events d" "outbox d' = outbox d"
  shows "unique_runs d' = unique_runs d"
  by (simp add: unique_runs_def assms)

lemma unique_ok_empty: "unique_ok empty_db"
  by (simp add: unique_ok_def unique_people_def unique_assets_def unique_packages_def
      unique_runners_def unique_runs_def unique_schedules_def unique_quality_def unique_some_def empty_db_def)

lemma audit_frame [frame_simps, simp]:
  "users (audit x a b c e f g d) = users d"
  "auth_sessions (audit x a b c e f g d) = auth_sessions d"
  "email_preferences (audit x a b c e f g d) = email_preferences d"
  "email_deliveries (audit x a b c e f g d) = email_deliveries d"
  "projects (audit x a b c e f g d) = projects d"
  "members (audit x a b c e f g d) = members d"
  "targets (audit x a b c e f g d) = targets d"
  "environments (audit x a b c e f g d) = environments d"
  "baselines (audit x a b c e f g d) = baselines d"
  "change_requests (audit x a b c e f g d) = change_requests d"
  "change_items (audit x a b c e f g d) = change_items d"
  "approvals (audit x a b c e f g d) = approvals d"
  "packages (audit x a b c e f g d) = packages d"
  "verifications (audit x a b c e f g d) = verifications d"
  "envelopes (audit x a b c e f g d) = envelopes d"
  "pools (audit x a b c e f g d) = pools d"
  "workers (audit x a b c e f g d) = workers d"
  "leases (audit x a b c e f g d) = leases d"
  "schedules (audit x a b c e f g d) = schedules d"
  "firings (audit x a b c e f g d) = firings d"
  "runs (audit x a b c e f g d) = runs d"
  "run_cases (audit x a b c e f g d) = run_cases d"
  "artifacts (audit x a b c e f g d) = artifacts d"
  "events (audit x a b c e f g d) = events d"
  "outbox (audit x a b c e f g d) = outbox d"
  "webhook_configs (audit x a b c e f g d) = webhook_configs d"
  "webhook_deliveries (audit x a b c e f g d) = webhook_deliveries d"
  "alert_states (audit x a b c e f g d) = alert_states d"
  "settings (audit x a b c e f g d) = settings d"
  by (simp_all add: audit_def)

lemma unique_ok_audit [simp]: "unique_ok (audit x a b c e f g d) = unique_ok d"
  by (simp add: unique_ok_def unique_people_def unique_assets_def unique_packages_def
      unique_runners_def unique_runs_def unique_schedules_def unique_quality_def)

lemma store_run_frame [frame_simps, simp]:
  "users (store_run r d) = users d"
  "auth_sessions (store_run r d) = auth_sessions d"
  "email_preferences (store_run r d) = email_preferences d"
  "email_deliveries (store_run r d) = email_deliveries d"
  "projects (store_run r d) = projects d"
  "members (store_run r d) = members d"
  "targets (store_run r d) = targets d"
  "environments (store_run r d) = environments d"
  "baselines (store_run r d) = baselines d"
  "change_requests (store_run r d) = change_requests d"
  "change_items (store_run r d) = change_items d"
  "approvals (store_run r d) = approvals d"
  "packages (store_run r d) = packages d"
  "verifications (store_run r d) = verifications d"
  "envelopes (store_run r d) = envelopes d"
  "pools (store_run r d) = pools d"
  "workers (store_run r d) = workers d"
  "leases (store_run r d) = leases d"
  "schedules (store_run r d) = schedules d"
  "firings (store_run r d) = firings d"
  "run_cases (store_run r d) = run_cases d"
  "artifacts (store_run r d) = artifacts d"
  "events (store_run r d) = events d"
  "outbox (store_run r d) = outbox d"
  "webhook_configs (store_run r d) = webhook_configs d"
  "webhook_deliveries (store_run r d) = webhook_deliveries d"
  "alert_states (store_run r d) = alert_states d"
  "settings (store_run r d) = settings d"
  "audit_log (store_run r d) = audit_log d"
  by (simp_all add: store_run_def)

lemma run_store_run:
  "lookup_row r_id i (runs (store_run r d)) =
     (if i = r_id r then map_option (\<lambda>_. r) (lookup_row r_id i (runs d)) else lookup_row r_id i (runs d))"
proof -
  have "lookup_row r_id i (update_row r_id (r_id r) (\<lambda>_. r) rows) =
      (if i = r_id r then map_option (\<lambda>_. r) (lookup_row r_id i rows) else lookup_row r_id i rows)" for rows
    by (induction rows) (auto simp: row_simps update_row_def)
  then show ?thesis by (simp add: store_run_def)
qed

lemma runs_store_run: "unique_on r_id (runs d) \<Longrightarrow> r \<in> set (runs (store_run s d)) \<Longrightarrow>
    r = s \<and> (\<exists>q\<in>set (runs d). r_id q = r_id s) \<or> r \<in> set (runs d) \<and> r_id r \<noteq> r_id s"
  by (auto simp: store_run_def update_row_def in_set_update_where split: if_split_asm)

lemma map_runs_store_run:
  assumes "lookup_row r_id (r_id s) (runs d) = Some r" "unique_on r_id (runs d)" "g s = g r"
  shows "map g (runs (store_run s d)) = map g (runs d)"
proof -
  have "g s = g q" if "q \<in> set (runs d)" "r_id q = r_id s" for q
  proof -
    from lookup_row_SomeD [OF assms(1)] that have "q = r"
      by (metis assms(2) unique_on_eq)
    with assms(3) show ?thesis by simp
  qed
  then show ?thesis
    by (simp add: store_run_def update_row_def update_where_def)
qed

end
