(* ===== verification/Event_Log.thy ===== *)
theory Event_Log
  imports Store
begin

section \<open>The ordered event log of a Run\<close>

text \<open>
  \<open>_append_run_event\<close> (\<open>services.py\<close>) and \<open>_append_reliability_event\<close>
  (\<open>reliability_services.py\<close>): the two writers of \<open>run_events\<close>.  The first answers a repeated
  deduplication key with the stored event, the second relies on the table's unique
  constraint.  The locale states what a writer of the log promises, and proves once what
  readers of the log rely on: sequence numbers without gaps and no deduplication key twice.
\<close>

definition events_of :: "uuid \<Rightarrow> event_row list \<Rightarrow> event_row list" where
  "events_of i es = filter (\<lambda>e. v_run e = i) es"

definition next_event_sequence :: "uuid \<Rightarrow> event_row list \<Rightarrow> nat" where
  "next_event_sequence i es = next_sequence (map v_sequence (events_of i es))"

definition find_event :: "uuid \<Rightarrow> event_key \<Rightarrow> event_row list \<Rightarrow> event_row option" where
  "find_event i key es = lookup_row (\<lambda>e. (v_run e, v_key e)) (i, key) es"

definition append_run_event ::
  "uuid \<Rightarrow> event_key \<Rightarrow> event_source \<Rightarrow> event_type \<Rightarrow> instant \<Rightarrow> string option \<Rightarrow> status_value option
   \<Rightarrow> (string \<times> json) list \<Rightarrow> event_row list \<Rightarrow> event_row list \<times> event_row \<times> bool" where
  "append_run_event i key source kind moment cc status payload es =
     (case find_event i key es of
        Some existing \<Rightarrow> (es, existing, False)
      | None \<Rightarrow>
          (let e = \<lparr>v_run = i, v_sequence = next_event_sequence i es, v_key = key,
                 v_source = source, v_type = kind, v_case_code = cc, v_status = status,
                 v_payload = payload, v_occurred_at = moment\<rparr>
           in (es @ [e], e, True)))"

fun recovery_reason_code :: "recovery_reason \<Rightarrow> string" where
  "recovery_reason_code Timed_out = ''timed_out''"
| "recovery_reason_code Runner_lost = ''runner_lost''"
| "recovery_reason_code Dispatch_stalled = ''dispatch_stalled''"

definition append_reliability_event ::
  "uuid \<Rightarrow> recovery_reason \<Rightarrow> run_status \<Rightarrow> instant \<Rightarrow> (string \<times> json) list
   \<Rightarrow> event_row list \<Rightarrow> event_row list" where
  "append_reliability_event i reason target moment details es =
     es @ [\<lparr>v_run = i, v_sequence = next_event_sequence i es, v_key = Key_reliability reason,
        v_source = SYSTEM, v_type = Run_recovered_event, v_case_code = None,
        v_status = Some (Value_of target),
        v_payload = (''reason'', JStr (recovery_reason_code reason)) # details,
        v_occurred_at = moment\<rparr>]"

subsection \<open>Well-formed logs\<close>

definition log_ok :: "event_row list \<Rightarrow> bool" where
  "log_ok es \<longleftrightarrow>
     (\<forall>i. map v_sequence (events_of i es) = [1..<Suc (length (events_of i es))]
        \<and> distinct (map v_key (events_of i es)))"

lemma log_ok_Nil: "log_ok []"
  by (simp add: log_ok_def events_of_def)

lemma events_of_append: "events_of i (es @ [e]) = events_of i es @ (if v_run e = i then [e] else [])"
  by (simp add: events_of_def)

lemma next_event_sequence_ok:
  assumes "log_ok es"
  shows "next_event_sequence i es = Suc (length (events_of i es))"
proof -
  have "map v_sequence (events_of i es) = [1..<Suc (length (events_of i es))]"
    using assms by (simp add: log_ok_def)
  then show ?thesis
    by (simp only: next_event_sequence_def next_sequence_upto)
qed

lemma log_ok_snoc:
  assumes "log_ok es" "v_sequence e = next_event_sequence (v_run e) es"
    and "v_key e \<notin> v_key ` set (events_of (v_run e) es)"
  shows "log_ok (es @ [e])"
  unfolding log_ok_def
proof (intro allI conjI)
  fix i
  have s: "map v_sequence (events_of i es) = [1..<Suc (length (events_of i es))]"
    and k: "distinct (map v_key (events_of i es))"
    using assms(1) by (simp_all add: log_ok_def)
  show "map v_sequence (events_of i (es @ [e])) = [1..<Suc (length (events_of i (es @ [e])))]"
    using s assms(2) next_event_sequence_ok [OF assms(1), of i]
    by (cases "v_run e = i") (simp_all add: events_of_append)
  show "distinct (map v_key (events_of i (es @ [e])))"
    using k assms(3) by (cases "v_run e = i") (simp_all add: events_of_append)
qed

lemma find_event_None: "find_event i key es = None \<longleftrightarrow> key \<notin> v_key ` set (events_of i es)"
  by (auto simp: find_event_def lookup_row_None_iff events_of_def)

lemma find_event_Some:
  "find_event i key es = Some e \<Longrightarrow> e \<in> set es \<and> v_run e = i \<and> v_key e = key"
  by (auto simp: find_event_def dest: lookup_row_SomeD)

lemma log_ok_butlast:
  assumes "log_ok (es @ [e])"
  shows "log_ok es" "v_key e \<notin> v_key ` set (events_of (v_run e) es)"
    "v_sequence e \<notin> v_sequence ` set (events_of (v_run e) es)"
proof -
  have seq: "map v_sequence (events_of i (es @ [e])) = [1..<Suc (length (events_of i (es @ [e])))]"
    and keys: "distinct (map v_key (events_of i (es @ [e])))" for i
    using assms by (simp_all add: log_ok_def)
  show "log_ok es"
    unfolding log_ok_def
  proof (intro allI)
    fix i
    show "map v_sequence (events_of i es) = [1..<Suc (length (events_of i es))]
        \<and> distinct (map v_key (events_of i es))"
      using seq [of i] keys [of i] by (cases "v_run e = i") (auto simp: events_of_append)
  qed
  show "v_key e \<notin> v_key ` set (events_of (v_run e) es)"
    using keys [of "v_run e"] by (simp add: events_of_append)
  have "distinct (map v_sequence (events_of (v_run e) (es @ [e])))"
    unfolding seq by (rule distinct_upt)
  then show "v_sequence e \<notin> v_sequence ` set (events_of (v_run e) es)"
    by (simp add: events_of_append)
qed

lemma log_ok_unique:
  "log_ok es \<Longrightarrow> unique_on (\<lambda>e. (v_run e, v_key e)) es \<and> unique_on (\<lambda>e. (v_run e, v_sequence e)) es"
proof (induction es rule: rev_induct)
  case (snoc e es)
  note last = log_ok_butlast [OF snoc.prems]
  from snoc.IH [OF last(1)] last(2,3) show ?case
    by (auto simp: row_simps events_of_def)
qed simp

subsection \<open>What a writer of the log promises\<close>

locale event_writer =
  fixes enabled :: "event_row list \<Rightarrow> bool"
    and append_event :: "event_row list \<Rightarrow> event_row list"
  assumes appends_next: "enabled es \<Longrightarrow>
      append_event es = es \<or>
      (\<exists>e. append_event es = es @ [e] \<and> v_sequence e = next_event_sequence (v_run e) es
         \<and> v_key e \<notin> v_key ` set (events_of (v_run e) es))"
begin

lemma keeps_log_ok: "enabled es \<Longrightarrow> log_ok es \<Longrightarrow> log_ok (append_event es)"
  using appends_next [of es] log_ok_snoc by fastforce

lemma keeps_prefix: "enabled es \<Longrightarrow> take (length es) (append_event es) = es"
  using appends_next [of es] by auto

lemma keeps_events: "enabled es \<Longrightarrow> e \<in> set es \<Longrightarrow> e \<in> set (append_event es)"
  using appends_next [of es] by auto

lemma at_most_one: "enabled es \<Longrightarrow> length (append_event es) \<le> Suc (length es)"
  using appends_next [of es] by auto

end

interpretation run_event: event_writer "\<lambda>_. True"
  "\<lambda>es. fst (append_run_event i key source kind moment cc status payload es)"
  for i key source kind moment cc status payload
proof (unfold_locales, goal_cases)
  case (1 es)
  show ?case
    by (cases "find_event i key es")
      (simp_all add: append_run_event_def find_event_None [symmetric] Let_def)
qed

interpretation reliability_event: event_writer
  "\<lambda>es. find_event i (Key_reliability reason) es = None"
  "append_reliability_event i reason target moment details"
  for i reason target moment details
  by unfold_locales (simp add: append_reliability_event_def find_event_None)

subsection \<open>Deduplication\<close>

lemma append_run_event_again:
  assumes "append_run_event i key source kind moment cc st pl es = (es', e, created)"
  shows "append_run_event i key source' kind' at' cc' st' pl' es' = (es', e, False)"
proof (cases "find_event i key es")
  case None
  then have "es' = es @ [e]" "v_run e = i" "v_key e = key"
    using assms by (simp_all add: append_run_event_def Let_def split: prod.splits)
      (auto simp: Let_def)
  moreover from None have "find_event i key (es @ [e]) = Some e"
    using calculation by (simp add: find_event_def row_simps)
  ultimately show ?thesis by (simp add: append_run_event_def)
next
  case (Some a)
  then show ?thesis using assms by (simp add: append_run_event_def)
qed

lemma append_run_event_created:
  assumes "append_run_event i key source kind moment cc st pl es = (es', e, created)"
  shows "created \<longleftrightarrow> find_event i key es = None"
    and "es' = (if created then es @ [e] else es)"
    and "v_run e = i" and "v_key e = key" and "e \<in> set es'"
  using assms
  by (auto simp: append_run_event_def Let_def find_event_def split: option.splits
      dest: lookup_row_SomeD)

lemma append_run_event_found:
  assumes "append_run_event i key source kind moment cc st pl es = (es', e, created)"
  shows "find_event i key es' = Some e"
  using assms
  by (cases "find_event i key es") (auto simp: append_run_event_def Let_def find_event_def row_simps)

end
