(* ===== verification/Run_State_Machine.thy ===== *)
theory Run_State_Machine
  imports Store
begin

section \<open>The Run state machine\<close>

text \<open>
  \<open>apps/api/src/testops/api/state_machine.py\<close> and the status sets of \<open>services.py\<close>.  The
  table of allowed transitions is the dictionary of the source; \<open>require_run_transition\<close> is
  the guard the services call.  The locale is the contract of a state machine with final
  states and a measure of progress; it gives once that no run goes in a circle.
\<close>

fun allowed_run_transitions :: "run_status \<Rightarrow> run_status list" where
  "allowed_run_transitions QUEUED = [PREPARING, CANCELED, INFRA_ERROR]"
| "allowed_run_transitions PREPARING = [RUNNING, CANCELED, INFRA_ERROR]"
| "allowed_run_transitions RUNNING = [PASSED, FAILED, CANCELED, TIMED_OUT, INFRA_ERROR]"
| "allowed_run_transitions PASSED = []"
| "allowed_run_transitions FAILED = []"
| "allowed_run_transitions CANCELED = []"
| "allowed_run_transitions TIMED_OUT = []"
| "allowed_run_transitions INFRA_ERROR = []"

definition require_run_transition :: "run_status \<Rightarrow> run_status \<Rightarrow> service_error + unit" where
  "require_run_transition current target =
     (if target \<notin> set (allowed_run_transitions current)
      then Inl (Value_error ''invalid Run transition: {} -> {}'')
      else Inr ())"

definition TERMINAL_RUN_STATUSES :: "run_status list" where
  "TERMINAL_RUN_STATUSES = [PASSED, FAILED, CANCELED, TIMED_OUT, INFRA_ERROR]"

definition IN_FLIGHT_RUN_STATUSES :: "run_status list" where
  "IN_FLIGHT_RUN_STATUSES = [QUEUED, PREPARING, RUNNING]"

abbreviation terminal_status :: "run_status \<Rightarrow> bool" where
  "terminal_status s \<equiv> s \<in> set TERMINAL_RUN_STATUSES"

lemma terminal_iff_final: "terminal_status s \<longleftrightarrow> allowed_run_transitions s = []"
  by (cases s) (simp_all add: TERMINAL_RUN_STATUSES_def)

lemma in_flight_iff: "s \<in> set IN_FLIGHT_RUN_STATUSES \<longleftrightarrow> \<not> terminal_status s"
  by (cases s) (simp_all add: TERMINAL_RUN_STATUSES_def IN_FLIGHT_RUN_STATUSES_def)

lemma terminal_status_simps [simp]:
  "\<not> terminal_status QUEUED" "\<not> terminal_status PREPARING" "\<not> terminal_status RUNNING"
  "terminal_status PASSED" "terminal_status FAILED" "terminal_status CANCELED"
  "terminal_status TIMED_OUT" "terminal_status INFRA_ERROR"
  by (simp_all add: TERMINAL_RUN_STATUSES_def)

lemma require_run_transition_Inr [outcome_simps]:
  "require_run_transition s t = Inr u \<longleftrightarrow> t \<in> set (allowed_run_transitions s)"
  by (simp add: require_run_transition_def)

subsection \<open>State machines with progress\<close>

locale progress_machine =
  fixes step :: "'s \<Rightarrow> 's \<Rightarrow> bool"
    and final :: "'s \<Rightarrow> bool"
    and stage :: "'s \<Rightarrow> nat"
    and last_stage :: nat
  assumes final_stuck: "final s \<Longrightarrow> \<not> step s t"
    and not_final_moves: "\<not> final s \<Longrightarrow> \<exists>t. step s t"
    and advances: "step s t \<Longrightarrow> stage s < stage t"
    and stages_bounded: "stage s \<le> last_stage"
begin

lemma steps_advance: "step\<^sup>+\<^sup>+ s t \<Longrightarrow> stage s < stage t"
  by (induction rule: tranclp_induct) (auto dest: advances)

lemma no_circle: "\<not> step\<^sup>+\<^sup>+ s s"
  using steps_advance by blast

lemma final_absorbing: "step\<^sup>*\<^sup>* s t \<Longrightarrow> final s \<Longrightarrow> t = s"
  by (induction rule: converse_rtranclp_induct) (auto dest: final_stuck)

lemma steps_bounded: "(step ^^ n) s t \<Longrightarrow> n + stage s \<le> stage t"
proof (induction n arbitrary: t)
  case (Suc n)
  then obtain u where "(step ^^ n) s u" "step u t" by auto
  with Suc.IH [of u] advances [of u t] show ?case by linarith
qed simp

lemma at_most_last: "(step ^^ n) s t \<Longrightarrow> n \<le> last_stage"
  using steps_bounded [of n s t] stages_bounded [of t] by linarith

lemma can_finish: "\<exists>t. step\<^sup>*\<^sup>* s t \<and> final t"
proof (induction "last_stage - stage s" arbitrary: s rule: less_induct)
  case less
  show ?case
  proof (cases "final s")
    case False
    then obtain u where u: "step s u" using not_final_moves by blast
    have "last_stage - stage u < last_stage - stage s"
      using advances [OF u] stages_bounded [of u] by linarith
    from less [OF this] u show ?thesis by (meson converse_rtranclp_into_rtranclp)
  qed blast
qed

end

fun run_stage :: "run_status \<Rightarrow> nat" where
  "run_stage QUEUED = 0"
| "run_stage PREPARING = 1"
| "run_stage RUNNING = 2"
| "run_stage _ = 3"

definition run_transition :: "run_status \<Rightarrow> run_status \<Rightarrow> bool" where
  "run_transition s t \<longleftrightarrow> t \<in> set (allowed_run_transitions s)"

interpretation run_machine: progress_machine run_transition terminal_status run_stage 3
proof
  fix s t
  show "terminal_status s \<Longrightarrow> \<not> run_transition s t"
    by (simp add: terminal_iff_final run_transition_def)
  show "\<not> terminal_status s \<Longrightarrow> \<exists>t. run_transition s t"
    by (cases s) (auto simp: run_transition_def)
  show "run_transition s t \<Longrightarrow> run_stage s < run_stage t"
    by (cases s) (auto simp: run_transition_def)
  show "run_stage s \<le> 3" by (cases s) simp_all
qed

text \<open>Where a run can be after any number of steps.\<close>

definition run_moves :: "run_status \<Rightarrow> run_status \<Rightarrow> bool" where
  "run_moves s t \<longleftrightarrow> run_transition\<^sup>*\<^sup>* s t"

lemma run_moves_refl [simp]: "run_moves s s"
  by (simp add: run_moves_def)

lemma run_moves_step: "t \<in> set (allowed_run_transitions s) \<Longrightarrow> run_moves s t"
  by (simp add: run_moves_def run_transition_def r_into_rtranclp)

lemma run_moves_trans: "run_moves s t \<Longrightarrow> run_moves t u \<Longrightarrow> run_moves s u"
  by (simp add: run_moves_def)

lemma run_moves_terminal: "run_moves s t \<Longrightarrow> terminal_status s \<Longrightarrow> t = s"
  unfolding run_moves_def by (rule run_machine.final_absorbing)

end
