(* ===== verification/Run_Invariant.thy ===== *)
theory Run_Invariant
  imports Event_Log Run_State_Machine
begin

section \<open>The invariant of the Run tables\<close>

text \<open>
  What every service on runs keeps: the columns of a run agree with its status, its log is
  gapless, its cases are those of its snapshot, its dispatch record exists, and a slot of a
  runner pool is held by at most one lease, of a run that has not ended.  The services'
  theories prove that each operation keeps it; the locale collects what follows for any
  service that does, and each service's theory interprets it.
\<close>

definition run_row_ok :: "run_row \<Rightarrow> bool" where
  "run_row_ok r \<longleftrightarrow>
     (r_result_digest r = None \<longleftrightarrow> r_result r = None)
     \<and> (\<forall>doc. r_result r = Some doc \<longrightarrow>
           r_status r = res_status doc \<and> terminal_status (r_status r) \<and> res_run_id doc = r_id r)
     \<and> (r_status r = QUEUED \<longrightarrow> r_timeout_at r = None \<and> r_started_at r = None)
     \<and> (r_status r \<in> {PREPARING, RUNNING} \<longrightarrow> r_timeout_at r \<noteq> None)
     \<and> (r_status r = RUNNING \<longrightarrow> r_started_at r \<noteq> None)
     \<and> (terminal_status (r_status r) \<longleftrightarrow> r_finished_at r \<noteq> None)
     \<and> (terminal_status (r_status r) \<longrightarrow> r_timeout_at r = None)"

definition cases_of :: "uuid \<Rightarrow> run_case_row list \<Rightarrow> run_case_row list" where
  "cases_of i rows = filter (\<lambda>c. c_run c = i) rows"

definition active_lease :: "lease_row \<Rightarrow> bool" where
  "active_lease l \<longleftrightarrow> l_status l = Lease_ACTIVE"

definition has_dispatch_record :: "outbox_row list \<Rightarrow> run_row \<Rightarrow> bool" where
  "has_dispatch_record rows r \<longleftrightarrow>
     (\<exists>o'\<in>set rows. o_key o' = Key_run_queued (r_id r) \<and> o_aggregate o' = r_id r
        \<and> o_event_type o' = Run_queued \<and> o_payload o' = Queued_payload (r_snapshot r) (r_pool r))"

definition has_its_cases :: "run_case_row list \<Rightarrow> run_row \<Rightarrow> bool" where
  "has_its_cases rows r \<longleftrightarrow>
     map (\<lambda>c. (c_case_id c, c_case_code c)) (cases_of (r_id r) rows)
       = map (\<lambda>c. (case_id c, case_code c)) (snap_cases (r_snapshot r))"

definition lease_ok :: "run_row list \<Rightarrow> lease_row \<Rightarrow> bool" where
  "lease_ok rows l \<longleftrightarrow> (active_lease l \<longrightarrow>
     (\<exists>r\<in>set rows. r_id r = l_run l \<and> \<not> terminal_status (r_status r) \<and> r_pool r = Some (l_pool l)))"

text \<open>
  A record that asks to stop a run is only written together with the run's flag or its end.
\<close>

definition outbox_key_ok :: "run_row list \<Rightarrow> outbox_key \<Rightarrow> bool" where
  "outbox_key_ok rows key =
     (case key of
        Key_run_queued i \<Rightarrow> (\<exists>r\<in>set rows. r_id r = i)
      | Key_run_cancel i \<Rightarrow> (\<exists>r\<in>set rows. r_id r = i \<and> r_cancel_requested r)
      | Key_reliability_cancel reason i \<Rightarrow> (\<exists>r\<in>set rows. r_id r = i \<and> terminal_status (r_status r)))"

definition refs_ok :: "db \<Rightarrow> bool" where
  "refs_ok d \<longleftrightarrow> c_run ` set (run_cases d) \<subseteq> r_id ` set (runs d)
     \<and> v_run ` set (events d) \<subseteq> r_id ` set (runs d)"

definition control_ok :: "db \<Rightarrow> bool" where
  "control_ok d \<longleftrightarrow>
     unique_ok d \<and> refs_ok d \<and> log_ok (events d)
     \<and> (\<forall>r\<in>set (runs d). run_row_ok r \<and> has_dispatch_record (outbox d) r
          \<and> has_its_cases (run_cases d) r)
     \<and> unique_on l_run (filter active_lease (leases d))
     \<and> (\<forall>l\<in>set (leases d). lease_ok (runs d) l)
     \<and> (\<forall>o'\<in>set (outbox d). outbox_key_ok (runs d) (o_key o'))"

lemma control_okI:
  assumes "unique_ok d" "refs_ok d" "log_ok (events d)"
    and "\<And>r. r \<in> set (runs d) \<Longrightarrow> run_row_ok r"
    and "\<And>r. r \<in> set (runs d) \<Longrightarrow> has_dispatch_record (outbox d) r"
    and "\<And>r. r \<in> set (runs d) \<Longrightarrow> has_its_cases (run_cases d) r"
    and "unique_on l_run (filter active_lease (leases d))"
    and "\<And>l. l \<in> set (leases d) \<Longrightarrow> lease_ok (runs d) l"
    and "\<And>o'. o' \<in> set (outbox d) \<Longrightarrow> outbox_key_ok (runs d) (o_key o')"
  shows "control_ok d"
  using assms by (simp add: control_ok_def)

lemma control_okD:
  assumes "control_ok d"
  shows "unique_ok d" "refs_ok d" "log_ok (events d)"
    "\<And>r. r \<in> set (runs d) \<Longrightarrow> run_row_ok r"
    "\<And>r. r \<in> set (runs d) \<Longrightarrow> has_dispatch_record (outbox d) r"
    "\<And>r. r \<in> set (runs d) \<Longrightarrow> has_its_cases (run_cases d) r"
    "unique_on l_run (filter active_lease (leases d))"
    "\<And>l. l \<in> set (leases d) \<Longrightarrow> lease_ok (runs d) l"
    "unique_on r_id (runs d)"
    "\<And>o'. o' \<in> set (outbox d) \<Longrightarrow> outbox_key_ok (runs d) (o_key o')"
  using assms by (simp_all add: control_ok_def unique_ok_def unique_runs_def)

lemma control_ok_empty: "control_ok empty_db"
  by (intro control_okI unique_ok_empty)
    (simp_all add: empty_db_def refs_ok_def log_ok_Nil)

text \<open>Operations that leave the tables of runs alone keep the invariant.\<close>

lemma control_ok_same_tables:
  assumes "control_ok d" "unique_ok d'" "runs d' = runs d" "run_cases d' = run_cases d"
    "events d' = events d" "outbox d' = outbox d" "leases d' = leases d"
  shows "control_ok d'"
  using assms by (simp add: control_ok_def refs_ok_def)

subsection \<open>Changing one run\<close>

text \<open>
  The services change one run at a time, with its log, its cases, its lease and its dispatch
  records.  The columns of the other tables that the invariant reads:
\<close>

definition case_columns :: "run_case_row \<Rightarrow> uuid \<times> uuid \<times> string" where
  "case_columns c = (c_run c, c_case_id c, c_case_code c)"

definition dispatch_columns :: "outbox_row \<Rightarrow> outbox_key \<times> uuid \<times> outbox_event_type \<times> outbox_payload" where
  "dispatch_columns o' = (o_key o', o_aggregate o', o_event_type o', o_payload o')"

lemma has_its_cases_columns:
  "map case_columns rows' = map case_columns rows \<Longrightarrow> has_its_cases rows' r = has_its_cases rows r"
proof -
  have "map (\<lambda>c. (c_case_id c, c_case_code c)) (cases_of i rows) =
      map snd (filter (\<lambda>c. fst c = i) (map case_columns rows))" for i rows
    by (induction rows) (simp_all add: cases_of_def case_columns_def)
  then show "map case_columns rows' = map case_columns rows \<Longrightarrow> has_its_cases rows' r = has_its_cases rows r"
    by (simp add: has_its_cases_def)
qed

lemma has_dispatch_record_columns:
  assumes "has_dispatch_record rows r" "set (map dispatch_columns rows) \<subseteq> set (map dispatch_columns rows')"
  shows "has_dispatch_record rows' r"
proof -
  obtain rec where "rec \<in> set rows" and
    rec: "dispatch_columns rec = (Key_run_queued (r_id r), r_id r, Run_queued, Queued_payload (r_snapshot r) (r_pool r))"
    using assms(1) by (auto simp: has_dispatch_record_def dispatch_columns_def)
  from imageI [OF \<open>rec \<in> set rows\<close>, of dispatch_columns] assms(2)
  have "dispatch_columns rec \<in> set (map dispatch_columns rows')" by auto
  then show ?thesis using rec by (auto simp: has_dispatch_record_def dispatch_columns_def)
qed

definition close_slot :: "lease_status \<Rightarrow> instant \<Rightarrow> uuid \<Rightarrow> lease_row list \<Rightarrow> lease_row list \<times> bool" where
  "close_slot status moment i rows =
     (case find (\<lambda>l. l_run l = i \<and> active_lease l) rows of
        None \<Rightarrow> (rows, False)
      | Some l \<Rightarrow> (update_row l_id (l_id l)
           (\<lambda>l. l\<lparr>l_status := status, l_released_at := Some moment\<rparr>) rows, True))"

lemma filter_update_where:
  "(\<And>x. x \<in> set xs \<Longrightarrow> P x \<Longrightarrow> \<not> Q (f x)) \<Longrightarrow> filter Q (update_where P f xs) = filter (\<lambda>x. Q x \<and> \<not> P x) xs"
  by (induction xs) (auto simp: row_simps)

lemma close_slot_active:
  assumes "unique_on l_id rows" "unique_on l_run (filter active_lease rows)" "status \<noteq> Lease_ACTIVE"
  shows "filter active_lease (fst (close_slot status moment i rows)) =
    filter (\<lambda>l. active_lease l \<and> l_run l \<noteq> i) rows"
proof (cases "find (\<lambda>l. l_run l = i \<and> active_lease l) rows")
  case None
  then have "filter active_lease rows = filter (\<lambda>l. active_lease l \<and> l_run l \<noteq> i) rows"
    by (intro filter_cong) (auto simp: find_None_iff)
  with None show ?thesis by (simp add: close_slot_def)
next
  case (Some l)
  then have l: "l \<in> set rows" "l_run l = i" "active_lease l" by (auto dest: find_SomeD)
  have "filter active_lease (fst (close_slot status moment i rows)) =
      filter (\<lambda>x. active_lease x \<and> l_id x \<noteq> l_id l) rows"
    using assms(3) unfolding close_slot_def Some
    by (simp add: update_row_def filter_update_where active_lease_def)
  also have "\<dots> = filter (\<lambda>l. active_lease l \<and> l_run l \<noteq> i) rows"
  proof (rule filter_cong)
    fix x assume x: "x \<in> set rows"
    show "(active_lease x \<and> l_id x \<noteq> l_id l) = (active_lease x \<and> l_run x \<noteq> i)"
      using unique_on_eq [OF assms(1) x l(1)] unique_on_eq [OF assms(2), of x l] x l by auto
  qed simp
  finally show ?thesis .
qed

lemma close_slot_ids [simp]: "map l_id (fst (close_slot status moment i rows)) = map l_id rows"
  by (simp add: close_slot_def map_update_row split: option.split)

lemma unique_on_close_slot [simp]: "unique_on l_id (fst (close_slot status moment i rows)) = unique_on l_id rows"
  by (simp add: unique_on_def)

lemma unique_on_filter: "unique_on key rows \<Longrightarrow> unique_on key (filter P rows)"
  by (simp add: unique_on_def distinct_map_filter)

definition slots_ok :: "run_row list \<Rightarrow> lease_row list \<Rightarrow> bool" where
  "slots_ok rows ls \<longleftrightarrow> unique_on l_run (filter active_lease ls) \<and> (\<forall>l\<in>set ls. lease_ok rows l)"

lemma slots_ok_active:
  assumes "filter active_lease ls' = filter active_lease ls" "slots_ok rows ls"
  shows "slots_ok rows ls'"
proof -
  have "lease_ok rows l" if "l \<in> set ls'" for l
  proof (cases "active_lease l")
    case True
    with that have "l \<in> set (filter active_lease ls')" by simp
    then have "l \<in> set (filter active_lease ls)" by (simp only: assms(1))
    with assms(2) show ?thesis by (auto simp: slots_ok_def)
  qed (simp add: lease_ok_def)
  with assms show ?thesis by (simp add: slots_ok_def)
qed

subsection \<open>What a service on runs promises\<close>

text \<open>How one call may change the rows of the runs it finds.\<close>

definition run_changes :: "run_row \<Rightarrow> run_row \<Rightarrow> bool" where
  "run_changes r r' \<longleftrightarrow>
     r_id r' = r_id r \<and> r_project r' = r_project r \<and> r_snapshot r' = r_snapshot r
     \<and> r_snapshot_digest r' = r_snapshot_digest r \<and> r_pool r' = r_pool r
     \<and> r_idempotency_key r' = r_idempotency_key r \<and> r_request_hash r' = r_request_hash r
     \<and> r_case_count r' = r_case_count r \<and> r_timeout_seconds r' = r_timeout_seconds r
     \<and> r_created_by r' = r_created_by r \<and> r_created_at r' = r_created_at r
     \<and> run_moves (r_status r) (r_status r')
     \<and> (r_result_digest r \<noteq> None \<longrightarrow> r_result_digest r' = r_result_digest r \<and> r_result r' = r_result r)
     \<and> (r_cancel_requested r \<longrightarrow> r_cancel_requested r')"

lemma run_changes_refl [simp]: "run_changes r r"
  by (simp add: run_changes_def)

definition runs_evolve :: "run_row list \<Rightarrow> run_row list \<Rightarrow> bool" where
  "runs_evolve rows rows' \<longleftrightarrow>
     (\<exists>old new. rows' = old @ new \<and> list_all2 run_changes rows old)"

lemma runs_evolve_refl [simp]: "runs_evolve rows rows"
  unfolding runs_evolve_def
  by (intro exI [of _ rows] exI [of _ "[]"]) (simp add: list_all2_refl)

lemma runs_evolve_snoc: "runs_evolve rows (rows @ [r])"
  unfolding runs_evolve_def
  by (intro exI [of _ rows] exI [of _ "[r]"]) (simp add: list_all2_refl)

lemma runs_evolve_map:
  assumes "\<And>r. r \<in> set rows \<Longrightarrow> run_changes r (f r)"
  shows "runs_evolve rows (map f rows)"
proof -
  have "list_all2 run_changes rows (map f rows)"
    using assms by (induction rows) auto
  then show ?thesis
    unfolding runs_evolve_def by (intro exI [of _ "map f rows"] exI [of _ "[]"]) simp
qed

lemma runs_evolve_store_run:
  assumes "control_ok d" "lookup_row r_id (r_id s) (runs d) = Some r" "run_changes r s"
  shows "runs_evolve (runs d) (runs (store_run s d))"
proof -
  have "run_changes q (if r_id q = r_id s then s else q)" if "q \<in> set (runs d)" for q
  proof -
    have "q = r" if "r_id q = r_id s"
      using unique_on_eq [OF control_okD(9) [OF assms(1)] \<open>q \<in> set (runs d)\<close>]
        lookup_row_SomeD [OF assms(2)] that by auto
    with assms(3) show ?thesis by auto
  qed
  then show ?thesis
    unfolding store_run_def update_row_def update_where_def
    by (simp add: runs_evolve_map)
qed

lemma run_changes_trans: "run_changes q r \<Longrightarrow> run_changes r s \<Longrightarrow> run_changes q s"
  unfolding run_changes_def using run_moves_trans by metis

lemma runs_evolve_trans:
  assumes "runs_evolve a b" "runs_evolve b c"
  shows "runs_evolve a c"
proof -
  obtain old new where b: "b = old @ new" and o1: "list_all2 run_changes a old"
    using assms(1) by (auto simp: runs_evolve_def)
  obtain old2 new2 where c: "c = old2 @ new2" and o2: "list_all2 run_changes b old2"
    using assms(2) by (auto simp: runs_evolve_def)
  obtain us vs where "old2 = us @ vs" "list_all2 run_changes old us"
    using o2 unfolding b by (auto simp: list_all2_append1)
  moreover from o1 this(2) have "list_all2 run_changes a us"
    by (rule list_all2_trans [rotated]) (rule run_changes_trans)
  ultimately show ?thesis
    unfolding runs_evolve_def c by (intro exI [of _ us] exI [of _ "vs @ new2"]) simp
qed

lemma runs_evolve_status:
  assumes "runs_evolve rows rows'" "r \<in> set rows"
  shows "\<exists>r'\<in>set rows'. run_changes r r'"
proof -
  obtain old new where "rows' = old @ new" and all: "list_all2 run_changes rows old"
    using assms(1) by (auto simp: runs_evolve_def)
  moreover from all assms(2) have "\<exists>r'\<in>set old. run_changes r r'"
    by (induction rule: list_all2_induct) auto
  ultimately show ?thesis by auto
qed

lemma runs_evolve_lookup:
  assumes "runs_evolve (runs d) (runs d')" "control_ok d'" "lookup_row r_id i (runs d) = Some r"
  obtains r' where "lookup_row r_id i (runs d') = Some r'" "run_changes r r'"
proof -
  from runs_evolve_status [OF assms(1)] lookup_row_SomeD [OF assms(3)]
  obtain r' where "r' \<in> set (runs d')" "run_changes r r'" by blast
  moreover have "lookup_row r_id (r_id r') (runs d') = Some r'"
    using control_okD(9) [OF assms(2)] \<open>r' \<in> set (runs d')\<close>
    by (simp add: lookup_row_unique unique_on_def)
  ultimately show thesis
    using that [of r'] lookup_row_SomeD [OF assms(3)] by (simp add: run_changes_def)
qed

lemma outbox_key_ok_evolve:
  assumes "runs_evolve rows rows'" "outbox_key_ok rows key"
  shows "outbox_key_ok rows' key"
proof -
  have "\<exists>q\<in>set rows'. r_id q = r_id r \<and> (r_cancel_requested r \<longrightarrow> r_cancel_requested q)
      \<and> (terminal_status (r_status r) \<longrightarrow> terminal_status (r_status q))" if r: "r \<in> set rows" for r
  proof -
    obtain q where "q \<in> set rows'" "run_changes r q"
      using runs_evolve_status [OF assms(1) r] by blast
    then show ?thesis
      using run_moves_terminal [of "r_status r" "r_status q"] by (auto simp: run_changes_def)
  qed
  with assms(2) show ?thesis by (fastforce simp: outbox_key_ok_def split: outbox_key.splits)
qed

text \<open>
  The frame of every single-run operation: the run found under its key is replaced, the log
  grows by its own events, cases and dispatch records keep the columns above, and the leases
  fit the new status.
\<close>

lemma slots_ok_store:
  assumes "control_ok d" "lookup_row r_id (r_id s) (runs d) = Some r" "run_changes r s"
    and "\<not> terminal_status (r_status s)"
  shows "slots_ok (runs (store_run s d)) (leases d)"
proof -
  have "lease_ok (runs (store_run s d)) l" if "l \<in> set (leases d)" for l
  proof (cases "active_lease l")
    case True
    then have "\<exists>q\<in>set (runs d). r_id q = l_run l \<and> \<not> terminal_status (r_status q)
        \<and> r_pool q = Some (l_pool l)"
      using control_okD(8) [OF assms(1) \<open>l \<in> set (leases d)\<close>] by (simp add: lease_ok_def)
    then obtain q where q: "q \<in> set (runs d)" "r_id q = l_run l" "\<not> terminal_status (r_status q)"
      "r_pool q = Some (l_pool l)" by blast
    show ?thesis
    proof (cases "r_id q = r_id s")
      case True
      then have "q = r"
        using unique_on_eq [OF control_okD(9) [OF assms(1)] q(1)] lookup_row_SomeD [OF assms(2)] by auto
      moreover have "s \<in> set (runs (store_run s d))"
        using q(1) True by (auto simp: store_run_def update_row_def in_set_update_where)
      ultimately show ?thesis
        using assms(3,4) q by (auto simp: lease_ok_def run_changes_def)
    next
      case False
      then have "q \<in> set (runs (store_run s d))"
        using q(1) by (force simp: store_run_def update_row_def in_set_update_where)
      with q show ?thesis by (auto simp: lease_ok_def)
    qed
  qed (simp add: lease_ok_def)
  then show ?thesis using control_okD(7) [OF assms(1)] by (simp add: slots_ok_def)
qed

lemma slots_ok_close:
  assumes "control_ok d" "status \<noteq> Lease_ACTIVE"
  shows "slots_ok (runs (store_run s d)) (fst (close_slot status moment (r_id s) (leases d)))"
proof -
  have u: "unique_on l_id (leases d)"
    using control_okD(1) [OF assms(1)] by (simp add: unique_ok_def unique_runners_def)
  note act = close_slot_active [OF u control_okD(7) [OF assms(1)] assms(2)]
  let ?ls = "filter (\<lambda>l. active_lease l \<and> l_run l \<noteq> r_id s) (leases d)"
  have "lease_ok (runs (store_run s d)) l" if "l \<in> set ?ls" for l
  proof -
    from that obtain q where q: "q \<in> set (runs d)" "r_id q = l_run l" "\<not> terminal_status (r_status q)"
      "r_pool q = Some (l_pool l)" "r_id q \<noteq> r_id s"
      using control_okD(8) [OF assms(1), of l] by (auto simp: lease_ok_def)
    then have "q \<in> set (runs (store_run s d))"
      by (force simp: store_run_def update_row_def in_set_update_where)
    with q show ?thesis by (auto simp: lease_ok_def)
  qed
  moreover have "unique_on l_run ?ls"
    using unique_on_filter [OF control_okD(7) [OF assms(1)], of "\<lambda>l. l_run l \<noteq> r_id s"]
    by (simp add: conj_commute)
  moreover have twice: "filter active_lease (filter (\<lambda>l. active_lease l \<and> l_run l \<noteq> r_id s) xs)
      = filter (\<lambda>l. active_lease l \<and> l_run l \<noteq> r_id s) xs" for xs
    by (induction xs) simp_all
  ultimately have "slots_ok (runs (store_run s d)) ?ls"
    by (simp only: slots_ok_def) blast
  then show ?thesis
    by (rule slots_ok_active [rotated]) (simp only: act twice)
qed

lemma control_ok_step:
  assumes ok: "control_ok d" and "unique_ok d'" and found: "lookup_row r_id (r_id s) (runs d) = Some r"
    and ch: "run_changes r s" and row: "run_row_ok s" and rs: "runs d' = runs (store_run s d)"
    and log: "log_ok (events d')" "v_run ` set (events d') \<subseteq> r_id ` set (runs d)"
    and cs: "map case_columns (run_cases d') = map case_columns (run_cases d)"
    and os: "set (map dispatch_columns (outbox d)) \<subseteq> set (map dispatch_columns (outbox d'))"
    and ls: "slots_ok (runs d') (leases d')"
    and keys: "\<And>o'. o' \<in> set (outbox d') \<Longrightarrow> o_key o' \<in> o_key ` set (outbox d)
       \<or> (o_key o' = Key_run_cancel (r_id s) \<and> r_cancel_requested s)
       \<or> (\<exists>reason. o_key o' = Key_reliability_cancel reason (r_id s) \<and> terminal_status (r_status s))"
  shows "control_ok d' \<and> runs_evolve (runs d) (runs d')"
proof
  show ev: "runs_evolve (runs d) (runs d')"
    using runs_evolve_store_run [OF ok found ch] rs by simp
  have ids: "r_id ` set (runs d') = r_id ` set (runs d)"
  proof -
    have "map r_id (runs d') = map r_id (runs d)"
      unfolding rs using found control_okD(9) [OF ok] lookup_row_SomeD [OF found]
      by (intro map_runs_store_run [of s d r]) auto
    then show ?thesis by (metis set_map)
  qed
  have row_of: "run_row_ok q \<and> has_dispatch_record (outbox d) q \<and> has_its_cases (run_cases d) q"
    if q: "q \<in> set (runs d')" for q
  proof (cases "q = s")
    case True
    have "r \<in> set (runs d)" "r_id s = r_id r" "r_snapshot s = r_snapshot r" "r_pool s = r_pool r"
      using lookup_row_SomeD [OF found] ch by (simp_all add: run_changes_def)
    then show ?thesis
      using control_okD(5,6) [OF ok, of r] row True by (simp add: has_dispatch_record_def has_its_cases_def)
  next
    case False
    then have "q \<in> set (runs d)"
      using q runs_store_run [OF control_okD(9) [OF ok], of q s] by (auto simp: rs)
    then show ?thesis using control_okD(4,5,6) [OF ok] by simp
  qed
  have "c_run ` set (run_cases d') = fst ` set (map case_columns (run_cases d'))"
    by (force simp: case_columns_def)
  also have "\<dots> = c_run ` set (run_cases d)"
    unfolding cs by (force simp: case_columns_def)
  finally have "refs_ok d'"
    using control_okD(2) [OF ok] log(2) by (simp add: refs_ok_def ids)
  moreover have "outbox_key_ok (runs d') (o_key o')" if o': "o' \<in> set (outbox d')" for o'
  proof -
    have "\<exists>q\<in>set (runs d). r_id q = r_id s" using lookup_row_SomeD [OF found] by auto
    then have s: "s \<in> set (runs d')"
      by (auto simp: rs store_run_def update_row_def in_set_update_where)
    from keys [OF o'] show ?thesis
    proof (elim disjE)
      assume "o_key o' \<in> o_key ` set (outbox d)"
      then have "outbox_key_ok (runs d) (o_key o')" using control_okD(10) [OF ok] by auto
      then show ?thesis
        using outbox_key_ok_evolve [OF ev] by blast
    next
      assume "o_key o' = Key_run_cancel (r_id s) \<and> r_cancel_requested s"
      with s show ?thesis by (auto simp: outbox_key_ok_def)
    next
      assume "\<exists>reason. o_key o' = Key_reliability_cancel reason (r_id s) \<and> terminal_status (r_status s)"
      with s show ?thesis by (auto simp: outbox_key_ok_def)
    qed
  qed
  ultimately show "control_ok d'"
    using assms(2) log(1) ls row_of
    by (intro control_okI)
      (auto simp: slots_ok_def has_its_cases_columns [OF cs] intro: has_dispatch_record_columns [OF _ os])
qed

locale run_service =
  fixes call :: "db \<Rightarrow> db \<Rightarrow> bool"
  assumes keeps_ok: "call d d' \<Longrightarrow> control_ok d \<Longrightarrow> control_ok d'"
    and evolves: "call d d' \<Longrightarrow> control_ok d \<Longrightarrow> runs_evolve (runs d) (runs d')"
begin

lemma keeps_terminal:
  assumes "call d d'" "control_ok d" "lookup_row r_id i (runs d) = Some r" "terminal_status (r_status r)"
  shows "\<exists>r'. lookup_row r_id i (runs d') = Some r' \<and> r_status r' = r_status r"
proof -
  obtain r' where "lookup_row r_id i (runs d') = Some r'" "run_changes r r'"
    using runs_evolve_lookup [OF evolves [OF assms(1,2)] keeps_ok [OF assms(1,2)] assms(3)] by blast
  with assms(4) show ?thesis
    by (auto simp: run_changes_def dest: run_moves_terminal)
qed

lemma keeps_result:
  assumes "call d d'" "control_ok d" "lookup_row r_id i (runs d) = Some r" "r_result_digest r = Some h"
  shows "\<exists>r'. lookup_row r_id i (runs d') = Some r' \<and> r_result_digest r' = Some h \<and> r_result r' = r_result r"
proof -
  obtain r' where "lookup_row r_id i (runs d') = Some r'" "run_changes r r'"
    using runs_evolve_lookup [OF evolves [OF assms(1,2)] keeps_ok [OF assms(1,2)] assms(3)] by blast
  with assms(4) show ?thesis by (auto simp: run_changes_def)
qed

lemma keeps_slots_free:
  assumes "call d d'" "control_ok d" "l \<in> set (leases d')" "active_lease l"
  shows "\<exists>r\<in>set (runs d'). r_id r = l_run l \<and> \<not> terminal_status (r_status r)"
  using control_okD(8) [OF keeps_ok [OF assms(1,2)] assms(3)] assms(4) by (auto simp: lease_ok_def)

end

subsection \<open>Services on the other tables\<close>

text \<open>
  Most services (projects, runner pools, packages, change requests, people, alerts) leave the
  tables of runs as they are and commit only rows that keep the unique keys: each is a service
  on runs that changes none of them.
\<close>

definition same_run_tables :: "db \<Rightarrow> db \<Rightarrow> bool" where
  "same_run_tables d d' \<longleftrightarrow> runs d' = runs d \<and> run_cases d' = run_cases d \<and> events d' = events d
     \<and> outbox d' = outbox d \<and> leases d' = leases d"

lemma same_run_tables_refl [simp]: "same_run_tables d d"
  by (simp add: same_run_tables_def)

lemma audit_same_tables [simp]: "same_run_tables d (audit x a b c e f g d') = same_run_tables d d'"
  by (simp add: same_run_tables_def)

lemma same_run_tables_trans: "same_run_tables a b \<Longrightarrow> same_run_tables b c \<Longrightarrow> same_run_tables a c"
  by (simp add: same_run_tables_def)

locale side_service =
  fixes call :: "db \<Rightarrow> db \<Rightarrow> bool"
  assumes leaves_runs: "call d d' \<Longrightarrow> same_run_tables d d'"
    and keeps_unique: "call d d' \<Longrightarrow> unique_ok d \<Longrightarrow> unique_ok d'"

sublocale side_service \<subseteq> on_runs: run_service call
proof
  fix d d' assume call: "call d d'" and ok: "control_ok d"
  note same = leaves_runs [OF call, unfolded same_run_tables_def]
  show "control_ok d'"
    by (rule control_ok_same_tables [OF ok keeps_unique [OF call control_okD(1) [OF ok]]]) (simp_all add: same)
  show "runs_evolve (runs d) (runs d')"
    by (simp add: same)
qed

end
