(* ===== verification/Scenario.thy ===== *)
theory Scenario
  imports Run_Invariant
begin

section \<open>A small installation\<close>

text \<open>
  One project with a WEB target, an environment, a released baseline of three cases (one of
  them disabled), an active package, a runner pool with one worker and a user who wants
  result mails.  The theorems' witnesses run the services on it; nothing here models code.
\<close>

definition demo_step :: step_definition where
  "demo_step = \<lparr>step_operation = ''nav'', step_locator = None, step_input = Some (Str_input ''/''),
     step_timeout = None\<rparr>"

definition demo_assertion :: assertion_definition where
  "demo_assertion = \<lparr>assertion_type = ''url_contains'', assertion_expected = Some (Str_input ''/''),
     assertion_locator = None, assertion_timeout = None\<rparr>"

definition demo_case :: "nat \<Rightarrow> string \<Rightarrow> bool \<Rightarrow> case_definition" where
  "demo_case i code enabled = \<lparr>case_id = i, case_code = code, case_module_key = ''m'',
     case_module_name = ''m'', case_title = ''t'', case_test_point = ''p'', case_priority = P1,
     case_preconditions = [], case_steps = [demo_step], case_assertion = demo_assertion,
     case_tags = [], case_enabled = enabled, case_source_instructions = None,
     case_data_type = None, case_expected_result = None, case_timeout = None,
     case_source_trace = None, case_notes = None, case_execution_group = None\<rparr>"

definition demo_baseline :: case_baseline where
  "demo_baseline = \<lparr>baseline_id = 40, baseline_project_key = ''demo'', baseline_version = ''1'',
     baseline_source = Legacy_excel ''a.xlsx'' ''d'' ''Sheet1'',
     baseline_cases = [demo_case 101 ''TC-A'' True, demo_case 102 ''TC-B'' True, demo_case 103 ''TC-C'' False]\<rparr>"

definition demo_project :: project_row where
  "demo_project = \<lparr>p_id = 10, p_key = ''demo'', p_name = ''Demo'', p_description = None,
     p_status = Record_ACTIVE, p_max_in_flight = 2, p_max_daily = 5, p_run_timeout = 600,
     p_slo_target = 95, p_slo_window_days = 30, p_warning_drop = 5, p_critical_drop = 10\<rparr>"

definition demo_web_config :: web_run_config where
  "demo_web_config = \<lparr>web_base_url = ''http://x'', web_headless = True, web_viewport_width = 1280,
     web_viewport_height = 720, web_action_timeout = 5, web_navigation_timeout = 30,
     web_ignore_https_errors = False, web_capture_trace = False\<rparr>"

definition demo_db :: db where
  "demo_db = empty_db\<lparr>
     users := [\<lparr>u_id = 2, u_username = ''ann'', u_display_name = ''Ann'', u_password_hash = ''h'',
       u_role = SYSTEM_ADMIN, u_status = User_ACTIVE\<rparr>],
     email_preferences := [\<lparr>ep_user = 2, ep_email = Some ''a@x.y'', ep_emails = [''a@x.y''],
       ep_selected = None, ep_enabled = True, ep_statuses = [PASSED, FAILED, CANCELED, TIMED_OUT, INFRA_ERROR]\<rparr>],
     projects := [demo_project],
     targets := [\<lparr>t_id = 20, t_project = 10, t_pool = Some 60, t_key = ''web'', t_name = ''Web'',
       t_type = WEB, t_browser = Some ''chromium'', t_status = Record_ACTIVE\<rparr>],
     environments := [\<lparr>e_id = 30, e_project = 10, e_target = 20, e_pool = None, e_key = ''stage'',
       e_name = ''Stage'', e_document = \<lparr>doc_web_config = Some demo_web_config,
         doc_variables = [\<lparr>var_name = ''LANG'', var_value = ''en''\<rparr>], doc_secrets = []\<rparr>,
       e_config_hash = ''c'', e_status = Record_ACTIVE\<rparr>],
     baselines := [\<lparr>b_id = 40, b_project = 10, b_version = ''1'', b_digest = ''bd'', b_case_count = 3,
       b_enabled_count = 2, b_status = Baseline_RELEASED, b_document = demo_baseline\<rparr>],
     packages := [\<lparr>k_id = 50, k_project = 10, k_target = 20, k_name = ''pkg'', k_version = ''1'',
       k_digest = ''kd'', k_runner_type = WEB_PLAYWRIGHT, k_image_repository = ''img'',
       k_status = Package_ACTIVE, k_supersedes = None, k_validated_run = None, k_activated_by = None,
       k_activated_at = None, k_reason = None, k_chain_status = Chain_LEGACY, k_verification = None,
       k_verified_at = None\<rparr>],
     pools := [\<lparr>pl_id = 60, pl_key = ''pool'', pl_name = ''Pool'', pl_description = None,
       pl_target_types = [WEB], pl_queue = ''testops.pool.pool'', pl_max_concurrency = 1,
       pl_status = Resource_ACTIVE\<rparr>],
     workers := [\<lparr>w_id = 70, w_pool = 60, w_key = ''w-1'', w_display_name = ''W'', w_version = ''1'',
       w_capabilities = \<lparr>rc_target_types = [WEB], rc_browsers = [''chromium''],
         rc_packages = [\<lparr>rt_runner_type = WEB_PLAYWRIGHT, rt_image_repository = ''img'', rt_digest = ''kd''\<rparr>],
         rc_isolation = Some \<lparr>ic_mode = SUBPROCESS, ic_dedicated_process = True,
           ic_credential_scope = RUN_SECRETS_ONLY, ic_read_only_root = False,
           ic_network_policy = WORKER_DEFAULT, ic_limits_enforced = False, ic_memory_limit = None,
           ic_cpu_limit = None, ic_pids_limit = None, ic_storage_limit = None, ic_namespace = None,
           ic_service_account = None, ic_token_automounted = None\<rparr>\<rparr>,
       w_max_slots = 1, w_status = Resource_ACTIVE, w_last_heartbeat = 1000000000\<rparr>]\<rparr>"

definition demo_request :: run_request where
  "demo_request = \<lparr>rq_project = 10, rq_target = 20, rq_environment = 30, rq_baseline = 40,
     rq_package = 50, rq_case_codes = [], rq_headless = None\<rparr>"

text \<open>A transaction at second \<open>s\<close> that draws identifiers from \<open>base\<close> on.\<close>

fun demo_digest :: "hashed_document \<Rightarrow> digest" where
  "demo_digest (Hash_run_request q) = ''q'' @ concat (rq_case_codes q)"
| "demo_digest (Hash_rerun_request i m) = ''r''"
| "demo_digest (Hash_snapshot s) = ''s''"
| "demo_digest (Hash_result r) = ''t'' @ (if res_status r = PASSED then ''p'' else ''f'')"
| "demo_digest (Hash_runner_event e) = ''e''"
| "demo_digest (Hash_environment e) = ''n''"
| "demo_digest (Hash_baseline b) = ''b''"
| "demo_digest (Hash_chain_report i r) = ''c''"
| "demo_digest (Hash_recipient r) = r"
| "demo_digest (Hash_text t) = ''x'' @ t"
| "demo_digest (Hash_signal s) = ''g''"

fun demo_uuid :: "nat \<Rightarrow> draw \<Rightarrow> uuid" where
  "demo_uuid base Draw_run = base"
| "demo_uuid base (Draw_outbox i) = base + 1"
| "demo_uuid base (Draw_lease i) = base + 2"
| "demo_uuid base (Draw_email i r) = base + 3"
| "demo_uuid base Draw_row = base + 4"
| "demo_uuid base Draw_member = base + 5"
| "demo_uuid base Draw_baseline = base + 6"
| "demo_uuid base (Draw_state m) = base + 7 + (case m of RUN_PASS_RATE \<Rightarrow> 0 | CASE_PASS_RATE \<Rightarrow> 1 | EXECUTION_RELIABILITY \<Rightarrow> 2)"
| "demo_uuid base (Draw_delivery m) = base + 10 + (case m of RUN_PASS_RATE \<Rightarrow> 0 | CASE_PASS_RATE \<Rightarrow> 1 | EXECUTION_RELIABILITY \<Rightarrow> 2)"

definition demo_txn :: "int \<Rightarrow> nat \<Rightarrow> txn" where
  "demo_txn s base = \<lparr>txn_now = microseconds s, txn_digest = demo_digest, txn_uuid = demo_uuid base\<rparr>"

definition outcome_db :: "service_error + db \<times> 'a \<Rightarrow> db" where
  "outcome_db m = (case m of Inl _ \<Rightarrow> empty_db | Inr (d, _) \<Rightarrow> d)"

definition succeeds :: "'e + 'a \<Rightarrow> bool" where
  "succeeds m = (case m of Inl _ \<Rightarrow> False | Inr _ \<Rightarrow> True)"

lemma succeedsE: "succeeds m \<Longrightarrow> (\<And>a. m = Inr a \<Longrightarrow> P) \<Longrightarrow> P"
  by (cases m) (simp_all add: succeeds_def)

lemma succeeds_iff: "succeeds m \<longleftrightarrow> (\<exists>a. m = Inr a)"
  by (cases m) (simp_all add: succeeds_def)

lemma demo_digest_txn [simp]: "txn_digest (demo_txn s base) = demo_digest"
  by (simp add: demo_txn_def)

lemma demo_ok: "control_ok demo_db"
proof (rule control_okI)
  show "unique_ok demo_db" by code_simp
qed (simp_all add: demo_db_def empty_db_def refs_ok_def log_ok_Nil)

subsection \<open>The same installation with one run\<close>

text \<open>
  A run of the cases TC-A and TC-B with status QUEUED, PREPARING or RUNNING, its cases, its
  creation event and its dispatch record, and a lease of its pool's only slot.
\<close>

definition demo_snapshot :: run_snapshot where
  "demo_snapshot = \<lparr>snap_run_id = 200, snap_project = 10, snap_target = 20, snap_target_type = WEB,
     snap_environment = 30,
     snap_baseline = \<lparr>ref_baseline_id = 40, ref_version = ''1'', ref_digest = ''bd'', ref_case_count = 3\<rparr>,
     snap_package = \<lparr>pref_name = ''pkg'', pref_version = ''1'', pref_digest = ''kd'',
       pref_runner_type = WEB_PLAYWRIGHT, pref_image_repository = ''img'', pref_supply_chain = None\<rparr>,
     snap_cases = [demo_case 101 ''TC-A'' True, demo_case 102 ''TC-B'' True],
     snap_browser = Some ''chromium'', snap_web_config = Some demo_web_config, snap_config_hash = ''c'',
     snap_variables = [], snap_secrets = [], snap_created_by = 2, snap_created_at = microseconds 1000\<rparr>"

definition demo_run :: "run_status \<Rightarrow> run_row" where
  "demo_run status = \<lparr>r_id = 200, r_project = 10, r_target = 20, r_environment = 30, r_baseline = 40,
     r_package = 50, r_pool = Some 60, r_schedule = None, r_scheduled_for = None, r_source = None,
     r_retry_mode = None, r_status = status, r_idempotency_key = ''key'', r_request_hash = ''q'',
     r_snapshot_digest = ''s'', r_snapshot = demo_snapshot, r_result_digest = None, r_result = None,
     r_case_count = 2, r_timeout_seconds = 600, r_created_by = 2, r_cancel_requested = False,
     r_dispatch_state = Dispatch_PENDING, r_wait_reason = None, r_dispatched_at = None,
     r_started_at = (if status = RUNNING then Some (microseconds 1002) else None),
     r_timeout_at = (if status = QUEUED then None else Some (microseconds 1600)),
     r_finished_at = None, r_error_message = None, r_created_at = microseconds 1000\<rparr>"

definition demo_run_case :: "uuid \<Rightarrow> string \<Rightarrow> nat \<Rightarrow> run_case_row" where
  "demo_run_case i code n = \<lparr>c_run = 200, c_case_id = i, c_case_code = code, c_sequence = n,
     c_status = Value_of QUEUED, c_duration_ms = None, c_failure_category = None, c_error_message = None\<rparr>"

definition demo_lease :: "uuid option \<Rightarrow> lease_row" where
  "demo_lease w = \<lparr>l_id = 90, l_pool = 60, l_run = 200, l_worker = w, l_status = Lease_ACTIVE,
     l_acquired_at = microseconds 1001, l_released_at = None\<rparr>"

definition demo_event :: event_row where
  "demo_event = \<lparr>v_run = 200, v_sequence = 1, v_key = Key_run_created, v_source = SYSTEM,
     v_type = Run_created_event, v_case_code = None, v_status = Some (Value_of QUEUED),
     v_payload = [], v_occurred_at = microseconds 1000\<rparr>"

definition demo_dispatch :: outbox_row where
  "demo_dispatch = \<lparr>o_id = 201, o_aggregate = 200, o_event_type = Run_queued, o_key = Key_run_queued 200,
     o_payload = Queued_payload demo_snapshot (Some 60), o_status = Outbox_PENDING, o_attempts = 0,
     o_available_at = microseconds 1000, o_created_at = microseconds 1000, o_processed_at = None,
     o_last_error = None\<rparr>"

definition demo_run_db :: "run_status \<Rightarrow> lease_row list \<Rightarrow> db" where
  "demo_run_db status ls = demo_db\<lparr>runs := [demo_run status],
     run_cases := [demo_run_case 101 ''TC-A'' 1, demo_run_case 102 ''TC-B'' 2],
     events := [demo_event], outbox := [demo_dispatch], leases := ls\<rparr>"

lemma demo_run_ok:
  assumes "\<not> terminal_status status" and "ls = [] \<or> ls = [demo_lease w]"
  shows "control_ok (demo_run_db status ls)"
proof (rule control_okI)
  have "unique_ok demo_db" by (rule control_okD(1) [OF demo_ok])
  with assms(2) show "unique_ok (demo_run_db status ls)"
    by (auto simp: demo_run_db_def unique_ok_def unique_people_def unique_assets_def unique_packages_def
        unique_runners_def unique_runs_def unique_schedules_def unique_quality_def unique_on_def demo_run_case_def)
  show "log_ok (events (demo_run_db status ls))"
    by (simp add: demo_run_db_def demo_event_def log_ok_def events_of_def)
  show "refs_ok (demo_run_db status ls)"
    by (simp add: demo_run_db_def refs_ok_def demo_run_def demo_run_case_def demo_event_def)
  show "run_row_ok r" if "r \<in> set (runs (demo_run_db status ls))" for r
    using that assms(1) by (cases status) (auto simp: demo_run_db_def demo_run_def run_row_ok_def)
  show "has_dispatch_record (outbox (demo_run_db status ls)) r" if "r \<in> set (runs (demo_run_db status ls))" for r
    using that by (simp add: demo_run_db_def demo_run_def has_dispatch_record_def demo_dispatch_def)
  show "has_its_cases (run_cases (demo_run_db status ls)) r" if "r \<in> set (runs (demo_run_db status ls))" for r
    using that
    by (simp add: demo_run_db_def demo_run_def has_its_cases_def demo_run_case_def demo_snapshot_def
        demo_case_def cases_of_def)
  show "unique_on l_run (filter active_lease (leases (demo_run_db status ls)))"
    using assms(2) by (auto simp: demo_run_db_def)
  show "lease_ok (runs (demo_run_db status ls)) l" if "l \<in> set (leases (demo_run_db status ls))" for l
    using that assms by (auto simp: demo_run_db_def lease_ok_def demo_run_def demo_lease_def)
  show "outbox_key_ok (runs (demo_run_db status ls)) (o_key o')" if "o' \<in> set (outbox (demo_run_db status ls))" for o'
    using that by (simp add: demo_run_db_def outbox_key_ok_def demo_run_def demo_dispatch_def)
qed

end
