(* ===== verification/Execution_Quota.thy ===== *)
theory Execution_Quota
  imports Run_State_Machine
begin

section \<open>Execution quotas of a project\<close>

text \<open>
  \<open>services.py\<close>: \<open>_execution_usage\<close>, \<open>_execution_policy_payload\<close>, \<open>_enforce_execution_policy\<close>,
  \<open>get_execution_policy\<close> and \<open>update_execution_policy\<close>.  The counts are taken over the
  project's runs; the daily window starts at midnight UTC of the clock reading.
\<close>

record usage =
  use_queued :: int
  use_preparing :: int
  use_running :: int
  use_in_flight :: int
  use_today :: int

definition runs_with_status :: "uuid \<Rightarrow> run_status \<Rightarrow> run_row list \<Rightarrow> int" where
  "runs_with_status p s rows = count_rows (\<lambda>r. r_project r = p \<and> r_status r = s) rows"

definition execution_usage :: "instant \<Rightarrow> uuid \<Rightarrow> db \<Rightarrow> usage \<times> instant" where
  "execution_usage now p d =
     (let window = utc_midnight now;
          queued = runs_with_status p QUEUED (runs d);
          preparing = runs_with_status p PREPARING (runs d);
          running = runs_with_status p RUNNING (runs d)
      in (\<lparr>use_queued = queued, use_preparing = preparing, use_running = running,
            use_in_flight = queued + preparing + running,
            use_today = count_rows (\<lambda>r. r_project r = p \<and> window \<le> r_created_at r) (runs d)\<rparr>,
          window))"

definition enforce_execution_policy :: "instant \<Rightarrow> project_row \<Rightarrow> db \<Rightarrow> service_error + unit" where
  "enforce_execution_policy now p d =
     (let u = fst (execution_usage now (p_id p) d) in
      if use_in_flight u \<ge> p_max_in_flight p
      then Inl (ResourceConflict ''project in-flight Run quota reached ({}/{})'')
      else if use_today u \<ge> p_max_daily p
      then Inl (ResourceConflict ''project daily Run quota reached ({}/{})'')
      else Inr ())"

datatype quota_status = AVAILABLE | NEAR_LIMIT | BLOCKED

record policy_view =
  pv_project :: uuid
  pv_max_in_flight :: int
  pv_max_daily :: int
  pv_run_timeout :: int
  pv_usage :: usage
  pv_remaining_in_flight :: int
  pv_remaining_daily :: int
  pv_status :: quota_status
  pv_window :: instant

definition execution_policy_payload :: "instant \<Rightarrow> project_row \<Rightarrow> db \<Rightarrow> policy_view" where
  "execution_policy_payload now p d =
     (let (u, window) = execution_usage now (p_id p) d;
          left_in_flight = max 0 (p_max_in_flight p - use_in_flight u);
          left_daily = max 0 (p_max_daily p - use_today u);
          blocked = left_in_flight = 0 \<or> left_daily = 0;
          near = use_in_flight u * 100 \<ge> p_max_in_flight p * 80
            \<or> use_today u * 100 \<ge> p_max_daily p * 80
      in \<lparr>pv_project = p_id p, pv_max_in_flight = p_max_in_flight p, pv_max_daily = p_max_daily p,
          pv_run_timeout = p_run_timeout p, pv_usage = u,
          pv_remaining_in_flight = left_in_flight, pv_remaining_daily = left_daily,
          pv_status = (if blocked then BLOCKED else if near then NEAR_LIMIT else AVAILABLE),
          pv_window = window\<rparr>)"

definition get_execution_policy :: "instant \<Rightarrow> uuid \<Rightarrow> db \<Rightarrow> service_error + policy_view" where
  "get_execution_policy now p d =
     bind_outcome (project_or_404 d p) (\<lambda>project. Inr (execution_policy_payload now project d))"

record policy_update =
  pu_max_in_flight :: "int option"
  pu_max_daily :: "int option"
  pu_run_timeout :: "int option"

definition policy_details :: "project_row \<Rightarrow> json" where
  "policy_details p = JObj [(''max_in_flight_runs'', JInt (p_max_in_flight p)),
     (''max_daily_runs'', JInt (p_max_daily p)), (''run_timeout_seconds'', JInt (p_run_timeout p))]"

definition apply_policy_update :: "policy_update \<Rightarrow> project_row \<Rightarrow> project_row" where
  "apply_policy_update u p =
     p\<lparr>p_max_in_flight := given_or (pu_max_in_flight u) (p_max_in_flight p),
       p_max_daily := given_or (pu_max_daily u) (p_max_daily p),
       p_run_timeout := given_or (pu_run_timeout u) (p_run_timeout p)\<rparr>"

definition update_execution_policy ::
  "txn \<Rightarrow> uuid \<Rightarrow> policy_update \<Rightarrow> uuid \<Rightarrow> db \<Rightarrow> service_error + db \<times> policy_view" where
  "update_execution_policy x p u actor d =
     bind_outcome (project_or_404 d p) (\<lambda>project.
       let project' = apply_policy_update u project;
           d1 = d\<lparr>projects := update_row p_id p (\<lambda>_. project') (projects d)\<rparr>;
           d2 = audit x actor ''project.execution_policy_updated'' ''project_execution_policy'' p
                  (Some p) [(''before'', policy_details project), (''after'', policy_details project')] d1
       in bind_outcome (commit d2) (\<lambda>d3. Inr (d3, execution_policy_payload (txn_now x) project' d3)))"

subsection \<open>What the counts count\<close>

definition in_flight_runs :: "uuid \<Rightarrow> db \<Rightarrow> int" where
  "in_flight_runs p d = count_rows (\<lambda>r. r_project r = p \<and> \<not> terminal_status (r_status r)) (runs d)"

lemma use_in_flight_eq: "use_in_flight (fst (execution_usage now p d)) = in_flight_runs p d"
proof -
  have "count_rows (\<lambda>r. r_project r = p \<and> r_status r = QUEUED) rows
      + count_rows (\<lambda>r. r_project r = p \<and> r_status r = PREPARING) rows
      + count_rows (\<lambda>r. r_project r = p \<and> r_status r = RUNNING) rows
      = count_rows (\<lambda>r. r_project r = p \<and> \<not> terminal_status (r_status r)) rows" for rows
  proof (induction rows)
    case (Cons r rows)
    then show ?case by (cases "r_status r") (simp_all add: row_simps)
  qed simp
  then show ?thesis
    by (simp add: execution_usage_def Let_def in_flight_runs_def runs_with_status_def)
qed

lemma use_today_eq:
  "use_today (fst (execution_usage now p d)) =
     count_rows (\<lambda>r. r_project r = p \<and> utc_midnight now \<le> r_created_at r) (runs d)"
  by (simp add: execution_usage_def Let_def)

lemma enforce_Inr_iff:
  "enforce_execution_policy now p d = Inr u \<longleftrightarrow>
     in_flight_runs (p_id p) d < p_max_in_flight p
     \<and> count_rows (\<lambda>r. r_project r = p_id p \<and> utc_midnight now \<le> r_created_at r) (runs d)
        < p_max_daily p"
  by (auto simp: enforce_execution_policy_def Let_def use_in_flight_eq use_today_eq)

lemma policy_status_blocked:
  "pv_status (execution_policy_payload now p d) = BLOCKED
     \<longleftrightarrow> enforce_execution_policy now p d \<noteq> Inr ()"
proof -
  define u where "u = fst (execution_usage now (p_id p) d)"
  have "pv_status (execution_policy_payload now p d) = BLOCKED
      \<longleftrightarrow> p_max_in_flight p - use_in_flight u \<le> 0 \<or> p_max_daily p - use_today u \<le> 0"
    by (auto simp: execution_policy_payload_def Let_def u_def split_beta)
  moreover have "enforce_execution_policy now p d \<noteq> Inr ()
      \<longleftrightarrow> p_max_in_flight p \<le> use_in_flight u \<or> p_max_daily p \<le> use_today u"
    by (simp add: enforce_execution_policy_def u_def Let_def)
  ultimately show ?thesis by simp
qed

end
