(* ===== verification/Run_Creation.thy ===== *)
theory Run_Creation
  imports Scenario Execution_Quota
begin

section \<open>Creating runs\<close>

text \<open>
  \<open>services.py\<close>: \<open>_environment_contract\<close>, \<open>_select_cases\<close>, \<open>_existing_idempotent_run\<close>,
  \<open>_queue_snapshot_run\<close>, \<open>create_run\<close>, \<open>create_rerun\<close> and
  \<open>create_automation_package_validation_run\<close> with the package lookups they use.  A created run
  comes with its cases, its first event, its dispatch record and its audit entry in one
  transaction.  \<open>commit=False\<close> flushes where \<open>commit=True\<close> commits: the same constraints are
  checked, and the caller goes on with the returned database in the same transaction.
\<close>

definition contract :: "contract_error + 'a \<Rightarrow> service_error + 'a" where
  "contract m = (case m of Inl e \<Rightarrow> Inl (Contract_violation e) | Inr a \<Rightarrow> Inr a)"

lemma contract_Inr_iff [outcome_simps]: "contract m = Inr a \<longleftrightarrow> m = Inr a"
  by (cases m) (simp_all add: contract_def)

subsection \<open>What a run is made of\<close>

definition environment_contract ::
  "environment_row \<Rightarrow> service_error + web_run_config option \<times> runtime_variable list \<times> secret_binding list" where
  "environment_contract e =
     (let doc = e_document e in
      bind_outcome (contract (validate_all reject_secret_like_names (doc_variables doc)))
        (\<lambda>variables. Inr (doc_web_config doc, variables, doc_secrets doc)))"

definition case_by_code :: "case_definition list \<Rightarrow> string \<Rightarrow> case_definition option" where
  "case_by_code cases code = lookup_row case_code code (rev cases)"

definition case_is_disabled :: "case_definition list \<Rightarrow> string \<Rightarrow> bool" where
  "case_is_disabled cases code =
     (case case_by_code cases code of None \<Rightarrow> False | Some c \<Rightarrow> \<not> case_enabled c)"

definition select_cases :: "case_baseline \<Rightarrow> string list \<Rightarrow> service_error + case_definition list" where
  "select_cases baseline requested =
     (let cases = baseline_cases baseline in
      if \<not> distinct requested then Inl (InvalidRequest ''case_codes contains duplicates'')
      else if requested \<noteq> [] then
        (if (\<exists>code\<in>set requested. case_by_code cases code = None)
         then Inl (InvalidRequest ''unknown case_codes: {}'')
         else if (\<exists>code\<in>set requested. case_is_disabled cases code)
         then Inl (InvalidRequest ''disabled cases cannot be scheduled: {}'')
         else Inr (filter (\<lambda>c. case_code c \<in> set requested) cases))
      else Inr (filter case_enabled cases))"

definition existing_idempotent_run ::
  "uuid \<Rightarrow> string \<Rightarrow> digest \<Rightarrow> db \<Rightarrow> service_error + run_row option" where
  "existing_idempotent_run project key request_hash d =
     (case lookup_row (\<lambda>r. (r_project r, r_idempotency_key r)) (project, key) (runs d) of
        None \<Rightarrow> Inr None
      | Some existing \<Rightarrow>
          if r_request_hash existing \<noteq> request_hash
          then Inl (ResourceConflict ''idempotency key was already used with a different request'')
          else Inr (Some existing))"

definition get_automation_package ::
  "uuid \<Rightarrow> uuid \<Rightarrow> uuid \<Rightarrow> db \<Rightarrow> service_error + package_row" where
  "get_automation_package project target package d =
     require_row (ResourceNotFound ''automation package not found for target'')
       (find (\<lambda>k. k_id k = package \<and> k_project k = project \<and> k_target k = target) (packages d))"

definition SUPPLY_CHAIN_EXECUTABLE_STATUSES :: "supply_chain_status list" where
  "SUPPLY_CHAIN_EXECUTABLE_STATUSES = [Chain_LEGACY, Chain_VERIFIED]"

definition automation_package_supply_chain_ref ::
  "package_row \<Rightarrow> db \<Rightarrow> service_error + supply_chain_ref option" where
  "automation_package_supply_chain_ref k d =
     (if k_chain_status k = Chain_LEGACY then Inr None
      else if k_chain_status k \<noteq> Chain_VERIFIED
      then Inl (InvalidRequest ''automation package supply-chain status {} cannot be scheduled'')
      else (case k_verification k of
         None \<Rightarrow> Inl (ResourceConflict ''verified automation package has no supply-chain evidence'')
       | Some vid \<Rightarrow>
           (case lookup_row sv_id vid (verifications d) of
              None \<Rightarrow> Inl (ResourceConflict ''automation package supply-chain evidence is inconsistent'')
            | Some v \<Rightarrow>
                (let rep = sv_report v in
                 if sv_package v \<noteq> k_id k \<or> rep_outcome rep \<noteq> Outcome_VERIFIED
                   \<or> rep_image_digest rep \<noteq> k_digest k
                 then Inl (ResourceConflict ''automation package supply-chain evidence is inconsistent'')
                 else Inr (Some
                   \<lparr>sc_verification_id = sv_id v, sc_report_digest = sv_report_digest v,
                    sc_policy_version = rep_policy_version rep, sc_verifier = rep_verifier rep,
                    sc_signature_bundle_digest = rep_signature_bundle rep,
                    sc_provenance_digest = rep_provenance rep, sc_sbom_digest = rep_sbom rep,
                    sc_certificate_issuer = rep_certificate_issuer rep,
                    sc_certificate_identity = rep_certificate_identity rep,
                    sc_builder_id = rep_builder_id rep,
                    sc_source_repository = rep_source_repository rep,
                    sc_source_revision = rep_source_revision rep\<rparr>)))))"

subsection \<open>Queueing a snapshot\<close>

record queue_request =
  q_snapshot :: run_snapshot
  q_project :: uuid
  q_target :: uuid
  q_environment :: uuid
  q_baseline :: uuid
  q_package :: uuid
  q_idempotency_key :: string
  q_request_hash :: digest
  q_actor :: uuid
  q_pool :: "uuid option"
  q_timeout_seconds :: int
  q_source :: "uuid option"
  q_retry_mode :: "rerun_mode option"
  q_schedule :: "uuid option"
  q_scheduled_for :: "instant option"

definition new_run :: "txn \<Rightarrow> queue_request \<Rightarrow> run_row" where
  "new_run x q =
     \<lparr>r_id = snap_run_id (q_snapshot q), r_project = q_project q, r_target = q_target q,
      r_environment = q_environment q, r_baseline = q_baseline q, r_package = q_package q,
      r_pool = q_pool q, r_schedule = q_schedule q, r_scheduled_for = q_scheduled_for q,
      r_source = q_source q, r_retry_mode = q_retry_mode q, r_status = QUEUED,
      r_idempotency_key = q_idempotency_key q, r_request_hash = q_request_hash q,
      r_snapshot_digest = txn_digest x (Hash_snapshot (q_snapshot q)),
      r_snapshot = q_snapshot q, r_result_digest = None, r_result = None,
      r_case_count = int (length (snap_cases (q_snapshot q))),
      r_timeout_seconds = q_timeout_seconds q, r_created_by = q_actor q,
      r_cancel_requested = False, r_dispatch_state = Dispatch_PENDING, r_wait_reason = None,
      r_dispatched_at = None, r_started_at = None, r_timeout_at = None, r_finished_at = None,
      r_error_message = None, r_created_at = snap_created_at (q_snapshot q)\<rparr>"

fun rerun_mode_value :: "rerun_mode \<Rightarrow> string" where
  "rerun_mode_value FULL = ''FULL''"
| "rerun_mode_value FAILED_ONLY = ''FAILED_ONLY''"

definition creation_payload :: "txn \<Rightarrow> queue_request \<Rightarrow> (string \<times> json) list" where
  "creation_payload x q =
     [(''case_count'', JInt (int (length (snap_cases (q_snapshot q))))),
      (''snapshot_digest'', JStr (txn_digest x (Hash_snapshot (q_snapshot q)))),
      (''runner_pool_id'', json_id (q_pool q)),
      (''timeout_seconds'', JInt (q_timeout_seconds q))]
     @ (case q_source q of None \<Rightarrow> []
        | Some s \<Rightarrow> [(''source_run_id'', JId s),
            (''retry_mode'', JStr (case q_retry_mode q of None \<Rightarrow> ''FULL'' | Some m \<Rightarrow> rerun_mode_value m))])
     @ (case q_schedule q of None \<Rightarrow> []
        | Some s \<Rightarrow> [(''regression_schedule_id'', JId s),
            (''scheduled_for'', json_time (q_scheduled_for q))])"

fun run_cases_from :: "uuid \<Rightarrow> nat \<Rightarrow> case_definition list \<Rightarrow> run_case_row list" where
  "run_cases_from i n [] = []"
| "run_cases_from i n (c # cs) =
     \<lparr>c_run = i, c_case_id = case_id c, c_case_code = case_code c, c_sequence = n,
      c_status = Value_of QUEUED, c_duration_ms = None, c_failure_category = None,
      c_error_message = None\<rparr> # run_cases_from i (Suc n) cs"

definition run_queued_record :: "txn \<Rightarrow> queue_request \<Rightarrow> outbox_row" where
  "run_queued_record x q =
     (let i = snap_run_id (q_snapshot q) in
      \<lparr>o_id = txn_uuid x (Draw_outbox i), o_aggregate = i, o_event_type = Run_queued,
       o_key = Key_run_queued i, o_payload = Queued_payload (q_snapshot q) (q_pool q),
       o_status = Outbox_PENDING, o_attempts = 0, o_available_at = txn_now x,
       o_created_at = txn_now x, o_processed_at = None, o_last_error = None\<rparr>)"

definition queue_action :: "queue_request \<Rightarrow> string" where
  "queue_action q =
     (if q_schedule q \<noteq> None then ''run.scheduled''
      else if q_source q \<noteq> None then ''run.rerun_created''
      else ''run.created'')"

definition add_run :: "txn \<Rightarrow> queue_request \<Rightarrow> db \<Rightarrow> db" where
  "add_run x q d =
     (let i = snap_run_id (q_snapshot q);
          es = fst (append_run_event i Key_run_created SYSTEM Run_created_event
                 (snap_created_at (q_snapshot q)) None (Some (Value_of QUEUED))
                 (creation_payload x q) (events d))
      in audit x (q_actor q) (queue_action q) ''test_run'' i (Some (q_project q))
           (creation_payload x q)
           (d\<lparr>runs := runs d @ [new_run x q], events := es,
              run_cases := run_cases d @ run_cases_from i 1 (snap_cases (q_snapshot q)),
              outbox := outbox d @ [run_queued_record x q]\<rparr>))"

definition queue_snapshot_run ::
  "txn \<Rightarrow> queue_request \<Rightarrow> db \<Rightarrow> service_error + db \<times> run_row \<times> bool" where
  "queue_snapshot_run x q d =
     (if \<not> unique_ok (d\<lparr>runs := runs d @ [new_run x q]\<rparr>) then Inl Integrity_error
      else if unique_ok (add_run x q d) then Inr (add_run x q d, new_run x q, True)
      else bind_outcome
        (existing_idempotent_run (q_project q) (q_idempotency_key q) (q_request_hash q) d)
        (\<lambda>raced. case raced of
            Some r \<Rightarrow> Inr (d, r, False)
          | None \<Rightarrow> Inl (ResourceConflict ''Run could not be created due to a uniqueness conflict'')))"

subsection \<open>create_run\<close>

text \<open>
  The checks of \<open>create_run\<close> on the resources a request names, in the order of the source;
  \<open>plan_run\<close> is the part between the project lock and the snapshot.
\<close>

record run_plan =
  plan_target :: target_row
  plan_environment :: environment_row
  plan_baseline :: baseline_row
  plan_document :: case_baseline
  plan_package :: package_row
  plan_cases :: "case_definition list"
  plan_web_config :: "web_run_config option"
  plan_variables :: "runtime_variable list"
  plan_secrets :: "secret_binding list"

definition web_config_for ::
  "target_row \<Rightarrow> web_run_config option \<Rightarrow> bool option \<Rightarrow> service_error + web_run_config option" where
  "web_config_for target config headless =
     (if t_type target = WEB then
        (case config of
           None \<Rightarrow> Inl (InvalidRequest ''WEB environment has no web_config'')
         | Some c \<Rightarrow> Inr (Some (case headless of None \<Rightarrow> c | Some h \<Rightarrow> c\<lparr>web_headless := h\<rparr>)))
      else if headless \<noteq> None then Inl (InvalidRequest ''headless is only valid for WEB runs'')
      else Inr config)"

definition resolve_target :: "run_request \<Rightarrow> uuid \<Rightarrow> db \<Rightarrow> service_error + target_row" where
  "resolve_target q project d =
     (case lookup_row t_id (rq_target q) (targets d) of
        Some t \<Rightarrow> if t_project t \<noteq> project then Inl (ResourceNotFound ''target not found in project'') else Inr t
      | None \<Rightarrow> Inl (ResourceNotFound ''target not found in project''))"

definition resolve_environment ::
  "run_request \<Rightarrow> uuid \<Rightarrow> target_row \<Rightarrow> db \<Rightarrow> service_error + environment_row" where
  "resolve_environment q project t d =
     (case lookup_row e_id (rq_environment q) (environments d) of
        Some e \<Rightarrow> if e_project e \<noteq> project \<or> e_target e \<noteq> t_id t
          then Inl (ResourceNotFound ''environment not found for target'') else Inr e
      | None \<Rightarrow> Inl (ResourceNotFound ''environment not found for target''))"

definition resolve_baseline ::
  "run_request \<Rightarrow> uuid \<Rightarrow> baseline_status list \<Rightarrow> db \<Rightarrow> service_error + baseline_row" where
  "resolve_baseline q project allowed d =
     (case lookup_row b_id (rq_baseline q) (baselines d) of
        Some b \<Rightarrow> if b_project b \<noteq> project then Inl (ResourceNotFound ''baseline not found in project'')
          else if b_status b \<notin> set allowed
          then Inl (InvalidRequest ''baseline status {} cannot be scheduled through this endpoint'')
          else Inr b
      | None \<Rightarrow> Inl (ResourceNotFound ''baseline not found in project''))"

definition resolve_package ::
  "run_request \<Rightarrow> uuid \<Rightarrow> target_row \<Rightarrow> package_status list \<Rightarrow> db \<Rightarrow> service_error + package_row" where
  "resolve_package q project t allowed d =
     (case lookup_row k_id (rq_package q) (packages d) of
        Some k \<Rightarrow> if k_project k \<noteq> project \<or> k_target k \<noteq> t_id t
          then Inl (ResourceNotFound ''automation package not found for target'')
          else if k_status k \<notin> set allowed
          then Inl (InvalidRequest ''automation package status {} cannot be scheduled through this endpoint'')
          else if k_chain_status k \<notin> set SUPPLY_CHAIN_EXECUTABLE_STATUSES
          then Inl (InvalidRequest ''automation package supply-chain status {} cannot be scheduled through this endpoint'')
          else Inr k
      | None \<Rightarrow> Inl (ResourceNotFound ''automation package not found for target''))"

definition plan_run ::
  "run_request \<Rightarrow> uuid \<Rightarrow> baseline_status list \<Rightarrow> package_status list \<Rightarrow> db \<Rightarrow> service_error + run_plan" where
  "plan_run q project allowed_baseline allowed_package d =
     bind_outcome (resolve_target q project d) (\<lambda>t.
     bind_outcome (resolve_environment q project t d) (\<lambda>e.
     bind_outcome (resolve_baseline q project allowed_baseline d) (\<lambda>b.
     bind_outcome (resolve_package q project t allowed_package d) (\<lambda>k.
     if t_type t \<notin> {WEB, APP}
     then Inl (InvalidRequest ''Runner dispatch supports WEB and APP targets only'')
     else
     bind_outcome (contract (parse_baseline (b_document b))) (\<lambda>baseline.
     bind_outcome (select_cases baseline (rq_case_codes q)) (\<lambda>cases.
     if cases = [] then Inl (InvalidRequest ''Run must contain at least one enabled case'')
     else
     bind_outcome (environment_contract e) (\<lambda>(config, variables, secrets).
     bind_outcome (web_config_for t config (rq_headless q)) (\<lambda>web.
     Inr \<lparr>plan_target = t, plan_environment = e, plan_baseline = b, plan_document = baseline, plan_package = k,
          plan_cases = cases,
          plan_web_config = web, plan_variables = variables, plan_secrets = secrets\<rparr>))))))))"

definition snapshot_of ::
  "txn \<Rightarrow> uuid \<Rightarrow> uuid \<Rightarrow> run_plan \<Rightarrow> supply_chain_ref option \<Rightarrow> run_snapshot" where
  "snapshot_of x project actor pl chain =
     (let k = plan_package pl; doc = plan_document pl in
      \<lparr>snap_run_id = txn_uuid x Draw_run, snap_project = project, snap_target = t_id (plan_target pl),
       snap_target_type = t_type (plan_target pl), snap_environment = e_id (plan_environment pl),
       snap_baseline = \<lparr>ref_baseline_id = baseline_id doc, ref_version = baseline_version doc,
         ref_digest = b_digest (plan_baseline pl), ref_case_count = int (length (baseline_cases doc))\<rparr>,
       snap_package = \<lparr>pref_name = k_name k, pref_version = k_version k, pref_digest = k_digest k,
         pref_runner_type = k_runner_type k, pref_image_repository = k_image_repository k,
         pref_supply_chain = chain\<rparr>,
       snap_cases = plan_cases pl, snap_browser = t_browser (plan_target pl),
       snap_web_config = plan_web_config pl, snap_config_hash = e_config_hash (plan_environment pl),
       snap_variables = plan_variables pl, snap_secrets = plan_secrets pl,
       snap_created_by = actor, snap_created_at = txn_now x\<rparr>)"

definition effective_pool :: "environment_row \<Rightarrow> target_row \<Rightarrow> uuid option" where
  "effective_pool e t = (case e_pool e of Some p \<Rightarrow> Some p | None \<Rightarrow> t_pool t)"

definition queue_arguments ::
  "run_request \<Rightarrow> string \<Rightarrow> uuid \<Rightarrow> uuid option \<Rightarrow> instant option \<Rightarrow> digest \<Rightarrow> project_row \<Rightarrow> run_plan
   \<Rightarrow> run_snapshot \<Rightarrow> queue_request" where
  "queue_arguments q key actor schedule scheduled_for request_hash project pl snapshot =
     \<lparr>q_snapshot = snapshot, q_project = p_id project, q_target = t_id (plan_target pl),
      q_environment = e_id (plan_environment pl),
      q_baseline = baseline_id (plan_document pl),
      q_package = k_id (plan_package pl), q_idempotency_key = key, q_request_hash = request_hash,
      q_actor = actor, q_pool = effective_pool (plan_environment pl) (plan_target pl),
      q_timeout_seconds = p_run_timeout project, q_source = None, q_retry_mode = None,
      q_schedule = schedule, q_scheduled_for = scheduled_for\<rparr>"

definition create_run ::
  "txn \<Rightarrow> run_request \<Rightarrow> string \<Rightarrow> uuid \<Rightarrow> baseline_status list \<Rightarrow> package_status list
   \<Rightarrow> uuid option \<Rightarrow> instant option \<Rightarrow> db \<Rightarrow> service_error + db \<times> run_row \<times> bool" where
  "create_run x q key actor allowed_baseline allowed_package schedule scheduled_for d =
     (let request_hash = txn_digest x (Hash_run_request q) in
      bind_outcome (existing_idempotent_run (rq_project q) key request_hash d) (\<lambda>existing.
      case existing of
        Some r \<Rightarrow> Inr (d, r, False)
      | None \<Rightarrow>
      bind_outcome (project_or_404 d (rq_project q)) (\<lambda>project.
      bind_outcome (existing_idempotent_run (rq_project q) key request_hash d) (\<lambda>existing.
      case existing of
        Some r \<Rightarrow> Inr (d, r, False)
      | None \<Rightarrow>
      bind_outcome (plan_run q (p_id project) allowed_baseline allowed_package d) (\<lambda>pl.
      bind_outcome (enforce_execution_policy (txn_now x) project d) (\<lambda>_.
      bind_outcome (automation_package_supply_chain_ref (plan_package pl) d) (\<lambda>chain.
      bind_outcome (contract (validate_snapshot (snapshot_of x (p_id project) actor pl chain)))
        (\<lambda>snapshot.
      queue_snapshot_run x (queue_arguments q key actor schedule scheduled_for request_hash project pl snapshot) d))))))))"

record validation_run_request =
  vr_environment :: uuid
  vr_baseline :: uuid

definition create_automation_package_validation_run ::
  "txn \<Rightarrow> uuid \<Rightarrow> uuid \<Rightarrow> uuid \<Rightarrow> validation_run_request \<Rightarrow> string \<Rightarrow> uuid \<Rightarrow> db
   \<Rightarrow> service_error + db \<times> run_row \<times> bool" where
  "create_automation_package_validation_run x project target package payload key actor d =
     bind_outcome (get_automation_package project target package d) (\<lambda>k.
     if k_status k \<noteq> Package_DRAFT
     then Inl (ResourceConflict ''only a DRAFT automation package can start validation'')
     else if k_chain_status k \<noteq> Chain_VERIFIED
     then Inl (ResourceConflict ''automation package must pass supply-chain verification before validation'')
     else
     bind_outcome (create_run x
        \<lparr>rq_project = project, rq_target = target, rq_environment = vr_environment payload,
         rq_baseline = vr_baseline payload, rq_package = package, rq_case_codes = [],
         rq_headless = None\<rparr>
        key actor [Baseline_RELEASED] [Package_DRAFT] None None d) (\<lambda>(d1, run, created).
     let d2 = (if created then
          audit x actor ''automation_package.validation_run_created'' ''automation_package''
            (k_id k) (Some project)
            [(''validation_run_id'', JId (r_id run)), (''baseline_id'', JId (vr_baseline payload)),
             (''environment_id'', JId (vr_environment payload))] d1
        else d1)
     in bind_outcome (commit d2) (\<lambda>d3. Inr (d3, run, created))))"

subsection \<open>create_rerun\<close>

definition case_failed :: "case_result \<Rightarrow> bool" where
  "case_failed c \<longleftrightarrow> cres_status c \<in> {Case_FAILED, Case_INFRA_ERROR}"

definition rerun_cases :: "run_row \<Rightarrow> run_snapshot \<Rightarrow> rerun_mode \<Rightarrow> service_error + case_definition list" where
  "rerun_cases source snapshot mode =
     (if mode = FAILED_ONLY then
        (case r_result source of
           None \<Rightarrow> Inl (ResourceConflict ''failed-only rerun requires an immutable Run Result'')
         | Some doc \<Rightarrow>
             bind_outcome (contract (parse_result doc)) (\<lambda>result.
             let failed = map cres_case_id (filter case_failed (res_case_results result));
                 cases = filter (\<lambda>c. case_id c \<in> set failed) (snap_cases snapshot)
             in if cases = [] then Inl (ResourceConflict ''source Run has no failed cases to rerun'')
                else Inr cases))
      else Inr (snap_cases snapshot))"

definition rerun_arguments ::
  "txn \<Rightarrow> run_row \<Rightarrow> run_snapshot \<Rightarrow> case_definition list \<Rightarrow> rerun_mode \<Rightarrow> string \<Rightarrow> digest \<Rightarrow> uuid
   \<Rightarrow> project_row \<Rightarrow> environment_row \<Rightarrow> target_row \<Rightarrow> queue_request" where
  "rerun_arguments x source snapshot cases mode key request_hash actor project e t =
     \<lparr>q_snapshot = snapshot\<lparr>snap_run_id := txn_uuid x Draw_run, snap_cases := cases,
        snap_created_by := actor, snap_created_at := txn_now x\<rparr>,
      q_project = r_project source, q_target = r_target source,
      q_environment = r_environment source, q_baseline = r_baseline source,
      q_package = r_package source, q_idempotency_key = key, q_request_hash = request_hash,
      q_actor = actor, q_pool = effective_pool e t,
      q_timeout_seconds = p_run_timeout project, q_source = Some (r_id source),
      q_retry_mode = Some mode, q_schedule = None, q_scheduled_for = None\<rparr>"

definition create_rerun ::
  "txn \<Rightarrow> uuid \<Rightarrow> rerun_mode \<Rightarrow> string \<Rightarrow> uuid \<Rightarrow> db \<Rightarrow> service_error + db \<times> run_row \<times> bool" where
  "create_rerun x source_id mode key actor d =
     bind_outcome (run_or_404 d source_id) (\<lambda>source.
     if \<not> terminal_status (r_status source)
     then Inl (ResourceConflict ''only a terminal Run can be rerun'')
     else
     let request_hash = txn_digest x (Hash_rerun_request source_id mode) in
     bind_outcome (existing_idempotent_run (r_project source) key request_hash d) (\<lambda>existing.
     case existing of
       Some r \<Rightarrow> Inr (d, r, False)
     | None \<Rightarrow>
     bind_outcome (project_or_404 d (r_project source)) (\<lambda>project.
     bind_outcome (existing_idempotent_run (r_project source) key request_hash d) (\<lambda>existing.
     case existing of
       Some r \<Rightarrow> Inr (d, r, False)
     | None \<Rightarrow>
     bind_outcome (contract (parse_snapshot (r_snapshot source))) (\<lambda>source_snapshot.
     case (lookup_row t_id (r_target source) (targets d),
           lookup_row e_id (r_environment source) (environments d),
           lookup_row k_id (r_package source) (packages d)) of
       (Some t, Some e, Some k) \<Rightarrow>
         if k_status k = Package_REVOKED
         then Inl (ResourceConflict ''a Run using a revoked automation package cannot be rerun'')
         else if k_chain_status k \<notin> set SUPPLY_CHAIN_EXECUTABLE_STATUSES
         then Inl (ResourceConflict ''a Run using a supply-chain rejected automation package cannot be rerun'')
         else
         bind_outcome (rerun_cases source source_snapshot mode) (\<lambda>cases.
         bind_outcome (enforce_execution_policy (txn_now x) project d) (\<lambda>_.
         queue_snapshot_run x (rerun_arguments x source source_snapshot cases mode key request_hash
            actor project e t) d))
     | _ \<Rightarrow> Inl (ResourceNotFound ''source Run scheduling resources no longer exist''))))))"

subsection \<open>What queueing a run writes\<close>

lemma add_run_frame [frame_simps, simp]:
  "users (add_run x q d) = users d"
  "email_preferences (add_run x q d) = email_preferences d"
  "email_deliveries (add_run x q d) = email_deliveries d"
  "projects (add_run x q d) = projects d"
  "targets (add_run x q d) = targets d"
  "environments (add_run x q d) = environments d"
  "baselines (add_run x q d) = baselines d"
  "change_requests (add_run x q d) = change_requests d"
  "packages (add_run x q d) = packages d"
  "verifications (add_run x q d) = verifications d"
  "pools (add_run x q d) = pools d"
  "workers (add_run x q d) = workers d"
  "leases (add_run x q d) = leases d"
  "schedules (add_run x q d) = schedules d"
  "firings (add_run x q d) = firings d"
  "artifacts (add_run x q d) = artifacts d"
  by (simp_all add: add_run_def Let_def)

lemma add_run_writes [frame_simps]:
  "runs (add_run x q d) = runs d @ [new_run x q]"
  "run_cases (add_run x q d) =
     run_cases d @ run_cases_from (snap_run_id (q_snapshot q)) 1 (snap_cases (q_snapshot q))"
  "outbox (add_run x q d) = outbox d @ [run_queued_record x q]"
  "events (add_run x q d) = fst (append_run_event (snap_run_id (q_snapshot q)) Key_run_created SYSTEM
     Run_created_event (snap_created_at (q_snapshot q)) None (Some (Value_of QUEUED))
     (creation_payload x q) (events d))"
  by (simp_all add: add_run_def Let_def)

lemma new_run_simps [simp]:
  "r_id (new_run x q) = snap_run_id (q_snapshot q)"
  "r_project (new_run x q) = q_project q"
  "r_status (new_run x q) = QUEUED"
  "r_idempotency_key (new_run x q) = q_idempotency_key q"
  "r_request_hash (new_run x q) = q_request_hash q"
  "r_snapshot (new_run x q) = q_snapshot q"
  "r_result (new_run x q) = None"
  "r_result_digest (new_run x q) = None"
  "r_timeout_at (new_run x q) = None"
  "r_source (new_run x q) = q_source q"
  "r_retry_mode (new_run x q) = q_retry_mode q"
  "r_created_at (new_run x q) = snap_created_at (q_snapshot q)"
  "r_case_count (new_run x q) = int (length (snap_cases (q_snapshot q)))"
  by (simp_all add: new_run_def)

text \<open>
  A raced key is never found after the flush: a row with the key already breaks the unique
  constraint of \<open>test_runs\<close>, so a call that returns has created the run.
\<close>

lemma existing_idempotent_run_Some:
  assumes "existing_idempotent_run p key h d = Inr (Some r)"
  shows "lookup_row (\<lambda>r. (r_project r, r_idempotency_key r)) (p, key) (runs d) = Some r"
    "r \<in> set (runs d)" "r_project r = p" "r_idempotency_key r = key" "r_request_hash r = h"
  using assms
  by (auto simp: existing_idempotent_run_def split: option.splits if_split_asm dest: lookup_row_SomeD)

lemma existing_idempotent_run_None:
  "existing_idempotent_run p key h d = Inr None \<longleftrightarrow>
     lookup_row (\<lambda>r. (r_project r, r_idempotency_key r)) (p, key) (runs d) = None"
  by (simp add: existing_idempotent_run_def split: option.split)

lemma existing_idempotent_run_hit:
  "lookup_row (\<lambda>r. (r_project r, r_idempotency_key r)) (p, key) (runs d) = Some r \<Longrightarrow>
   existing_idempotent_run p key h d =
     (if r_request_hash r \<noteq> h
      then Inl (ResourceConflict ''idempotency key was already used with a different request'')
      else Inr (Some r))"
  by (simp add: existing_idempotent_run_def)

lemma queue_snapshot_run_Inr:
  assumes "queue_snapshot_run x q d = Inr (d', r, created)"
  shows "created" "d' = add_run x q d" "r = new_run x q" "unique_ok d'"
proof -
  have flushed: "unique_ok (d\<lparr>runs := runs d @ [new_run x q]\<rparr>)"
    using assms by (simp add: queue_snapshot_run_def split: if_split_asm)
  have no_race: "existing_idempotent_run (q_project q) (q_idempotency_key q) (q_request_hash q) d
      \<noteq> Inr (Some s)" for s
  proof
    assume "existing_idempotent_run (q_project q) (q_idempotency_key q) (q_request_hash q) d = Inr (Some s)"
    note hit = existing_idempotent_run_Some [OF this]
    from flushed have "unique_on (\<lambda>r. (r_project r, r_idempotency_key r)) (runs d @ [new_run x q])"
      by (simp add: unique_ok_def unique_runs_def)
    with hit show False by (auto simp: row_simps image_iff)
  qed
  have "unique_ok (add_run x q d) \<and> created \<and> d' = add_run x q d \<and> r = new_run x q"
    using assms flushed no_race
    by (auto simp: queue_snapshot_run_def outcome_simps split: if_split_asm option.splits)
  then show "created" "d' = add_run x q d" "r = new_run x q" "unique_ok d'" by simp_all
qed

subsection \<open>What create_run and create_rerun guarantee\<close>

text \<open>
  Both services answer a known key with its run and change nothing, or queue one run whose
  snapshot is valid, inside the project's quota.
\<close>

definition queued_by :: "txn \<Rightarrow> queue_request \<Rightarrow> project_row \<Rightarrow> db \<Rightarrow> db \<Rightarrow> run_row \<Rightarrow> bool" where
  "queued_by x q project d d' r \<longleftrightarrow>
     d' = add_run x q d \<and> r = new_run x q \<and> unique_ok d'
     \<and> lookup_row p_id (q_project q) (projects d) = Some project
     \<and> lookup_row (\<lambda>r. (r_project r, r_idempotency_key r)) (q_project q, q_idempotency_key q) (runs d) = None
     \<and> enforce_execution_policy (txn_now x) project d = Inr ()
     \<and> snapshot_ok (q_snapshot q) \<and> snap_cases (q_snapshot q) \<noteq> []
     \<and> snap_run_id (q_snapshot q) = txn_uuid x Draw_run \<and> snap_created_at (q_snapshot q) = txn_now x"

lemma project_or_404_Inr [outcome_simps]:
  "project_or_404 d i = Inr p \<longleftrightarrow> lookup_row p_id i (projects d) = Some p"
  by (simp add: project_or_404_def outcome_simps)

lemma run_or_404_Inr [outcome_simps]:
  "run_or_404 d i = Inr r \<longleftrightarrow> lookup_row r_id i (runs d) = Some r"
  by (simp add: run_or_404_def outcome_simps)

lemma plan_run_Inr:
  assumes "plan_run q project ab ap d = Inr pl"
  shows "resolve_target q project d = Inr (plan_target pl)"
    "resolve_environment q project (plan_target pl) d = Inr (plan_environment pl)"
    "resolve_baseline q project ab d = Inr (plan_baseline pl)"
    "resolve_package q project (plan_target pl) ap d = Inr (plan_package pl)"
    "t_type (plan_target pl) \<in> {WEB, APP}"
    "parse_baseline (b_document (plan_baseline pl)) = Inr (plan_document pl)"
    "select_cases (plan_document pl) (rq_case_codes q) = Inr (plan_cases pl)"
    "plan_cases pl \<noteq> []"
  using assms
  by (auto simp: plan_run_def outcome_simps case_prod_beta simp del: if_split)

lemma create_run_Inr:
  assumes "create_run x q key actor ab ap sch due d = Inr (d', r, created)"
  obtains
    (replayed) "\<not> created" "d' = d"
      "existing_idempotent_run (rq_project q) key (txn_digest x (Hash_run_request q)) d = Inr (Some r)"
  | (queued) project pl chain qr where "created" "queued_by x qr project d d' r"
      "lookup_row p_id (rq_project q) (projects d) = Some project"
      "plan_run q (p_id project) ab ap d = Inr pl"
      "automation_package_supply_chain_ref (plan_package pl) d = Inr chain"
      "qr = queue_arguments q key actor sch due (txn_digest x (Hash_run_request q)) project pl
         (snapshot_of x (p_id project) actor pl chain)"
proof -
  let ?h = "txn_digest x (Hash_run_request q)"
  obtain found where found: "existing_idempotent_run (rq_project q) key ?h d = Inr found"
    using assms by (cases "existing_idempotent_run (rq_project q) key ?h d")
      (simp_all add: create_run_def Let_def)
  show thesis
  proof (cases found)
    case (Some s)
    then have "\<not> created" "d' = d" "existing_idempotent_run (rq_project q) key ?h d = Inr (Some r)"
      using assms found by (auto simp: create_run_def Let_def)
    then show thesis by (rule replayed)
  next
    case None
    obtain project pl chain where steps:
      "lookup_row p_id (rq_project q) (projects d) = Some project"
      "plan_run q (p_id project) ab ap d = Inr pl"
      "enforce_execution_policy (txn_now x) project d = Inr ()"
      "automation_package_supply_chain_ref (plan_package pl) d = Inr chain"
      "snapshot_ok (snapshot_of x (p_id project) actor pl chain)"
      "queue_snapshot_run x (queue_arguments q key actor sch due ?h project pl
         (snapshot_of x (p_id project) actor pl chain)) d = Inr (d', r, created)"
      using assms found None
      by (auto simp: create_run_def Let_def outcome_simps validate_snapshot_iff)
    let ?qr = "queue_arguments q key actor sch due ?h project pl (snapshot_of x (p_id project) actor pl chain)"
    have id: "p_id project = rq_project q"
      using steps(1) by (auto dest: lookup_row_SomeD)
    have key: "lookup_row (\<lambda>r. (r_project r, r_idempotency_key r)) (rq_project q, key) (runs d) = None"
      using found None existing_idempotent_run_None by simp
    note w = queue_snapshot_run_Inr [OF steps(6)]
    have "queued_by x ?qr project d d' r"
      using w steps(1,3,5) id key plan_run_Inr(8) [OF steps(2)]
      by (simp add: queued_by_def queue_arguments_def snapshot_of_def Let_def)
    with w(1) steps show thesis by (intro queued) simp_all
  qed
qed

lemma rerun_cases_sub:
  assumes "rerun_cases source snapshot mode = Inr cases"
  shows "\<exists>P. cases = filter P (snap_cases snapshot)" "snap_cases snapshot \<noteq> [] \<Longrightarrow> cases \<noteq> []"
proof -
  show "\<exists>P. cases = filter P (snap_cases snapshot)"
  proof (cases mode)
    case FULL
    with assms show ?thesis
      by (intro exI [of _ "\<lambda>_. True"]) (simp add: rerun_cases_def)
  next
    case FAILED_ONLY
    with assms show ?thesis
      by (auto simp: rerun_cases_def Let_def outcome_simps split: option.splits)
  qed
  show "snap_cases snapshot \<noteq> [] \<Longrightarrow> cases \<noteq> []"
    using assms by (auto simp: rerun_cases_def Let_def outcome_simps split: option.splits if_split_asm)
qed

lemma create_rerun_Inr:
  assumes "create_rerun x i mode key actor d = Inr (d', r, created)"
  obtains
    (replayed) source where "\<not> created" "d' = d" "lookup_row r_id i (runs d) = Some source"
      "existing_idempotent_run (r_project source) key (txn_digest x (Hash_rerun_request i mode)) d = Inr (Some r)"
  | (queued) source project qr snapshot cases where "created" "queued_by x qr project d d' r"
      "lookup_row r_id i (runs d) = Some source" "terminal_status (r_status source)"
      "q_project qr = r_project source"
      "parse_snapshot (r_snapshot source) = Inr snapshot"
      "rerun_cases source snapshot mode = Inr cases"
      "q_snapshot qr = snapshot\<lparr>snap_run_id := txn_uuid x Draw_run, snap_cases := cases,
         snap_created_by := actor, snap_created_at := txn_now x\<rparr>"
      "q_source qr = Some i" "q_retry_mode qr = Some mode" "q_package qr = r_package source"
      "\<exists>k. lookup_row k_id (r_package source) (packages d) = Some k \<and> k_status k \<noteq> Package_REVOKED"
proof -
  let ?h = "txn_digest x (Hash_rerun_request i mode)"
  obtain source where source: "lookup_row r_id i (runs d) = Some source"
    and final: "terminal_status (r_status source)"
    using assms by (auto simp: create_rerun_def Let_def outcome_simps simp del: terminal_status_simps)
  obtain found where found: "existing_idempotent_run (r_project source) key ?h d = Inr found"
    using assms source final by (cases "existing_idempotent_run (r_project source) key ?h d")
      (simp_all add: create_rerun_def Let_def run_or_404_def)
  show thesis
  proof (cases found)
    case (Some s)
    then have "\<not> created" "d' = d" "existing_idempotent_run (r_project source) key ?h d = Inr (Some r)"
      using assms found source final by (auto simp: create_rerun_def Let_def run_or_404_def)
    with source show thesis by (intro replayed)
  next
    case None
    obtain project t e k cases snapshot where steps:
      "lookup_row p_id (r_project source) (projects d) = Some project"
      "parse_snapshot (r_snapshot source) = Inr snapshot"
      "lookup_row k_id (r_package source) (packages d) = Some k" "k_status k \<noteq> Package_REVOKED"
      "rerun_cases source snapshot mode = Inr cases"
      "enforce_execution_policy (txn_now x) project d = Inr ()"
      "queue_snapshot_run x (rerun_arguments x source snapshot cases mode key ?h actor project e t) d
         = Inr (d', r, created)"
      using assms found None source final
      by (cases "lookup_row t_id (r_target source) (targets d)";
          cases "lookup_row e_id (r_environment source) (environments d)";
          cases "lookup_row k_id (r_package source) (packages d)")
        (auto simp: create_rerun_def Let_def run_or_404_def outcome_simps)
    let ?qr = "rerun_arguments x source snapshot cases mode key ?h actor project e t"
    have id: "r_id source = i" using source by (auto dest: lookup_row_SomeD)
    have key: "lookup_row (\<lambda>r. (r_project r, r_idempotency_key r)) (r_project source, key) (runs d) = None"
      using found None existing_idempotent_run_None by simp
    note ok = parse_snapshot_Inr(1) [OF steps(2)]
    obtain P where sub: "cases = filter P (snap_cases snapshot)" and ne: "cases \<noteq> []"
      using rerun_cases_sub [OF steps(5)] ok by (auto simp: snapshot_ok_def)
    note w = queue_snapshot_run_Inr [OF steps(7)]
    have "queued_by x ?qr project d d' r"
      using w steps(1,6) id key sub ne snapshot_ok_fewer_cases [OF ok]
      by (simp add: queued_by_def rerun_arguments_def)
    then show thesis
      using w(1) steps(2-5) source final id
      by (intro queued [of ?qr project source snapshot cases]) (auto simp: rerun_arguments_def)
  qed
qed

subsection \<open>The invariant is kept\<close>

lemma run_cases_from_run: "c \<in> set (run_cases_from i n cs) \<Longrightarrow> c_run c = i \<and> c_status c = Value_of QUEUED"
  by (induction i n cs rule: run_cases_from.induct) auto

lemma run_cases_from_ids:
  "map (\<lambda>c. (c_case_id c, c_case_code c)) (run_cases_from i n cs) = map (\<lambda>c. (case_id c, case_code c)) cs"
  "map c_sequence (run_cases_from i n cs) = [n..<n + length cs]"
  by (induction i n cs rule: run_cases_from.induct) (auto simp: upt_conv_Cons simp del: upt_Suc)

lemma cases_of_append [simp]: "cases_of i (xs @ ys) = cases_of i xs @ cases_of i ys"
  by (simp add: cases_of_def)

lemma cases_of_run_cases_from: "cases_of i (run_cases_from j n cs) = (if i = j then run_cases_from j n cs else [])"
  by (induction j n cs rule: run_cases_from.induct) (auto simp: cases_of_def)

lemma cases_of_new: "refs_ok d \<Longrightarrow> i \<notin> r_id ` set (runs d) \<Longrightarrow> cases_of i (run_cases d) = []"
  by (auto simp: refs_ok_def cases_of_def filter_empty_conv image_subset_iff)

lemma events_of_new: "refs_ok d \<Longrightarrow> i \<notin> r_id ` set (runs d) \<Longrightarrow> events_of i (events d) = []"
  by (auto simp: refs_ok_def events_of_def filter_empty_conv image_subset_iff)

lemma queued_byD:
  assumes "queued_by x q project d d' r"
  shows "d' = add_run x q d" "r = new_run x q" "unique_ok d'"
    "lookup_row p_id (q_project q) (projects d) = Some project"
    "lookup_row (\<lambda>r. (r_project r, r_idempotency_key r)) (q_project q, q_idempotency_key q) (runs d) = None"
    "enforce_execution_policy (txn_now x) project d = Inr ()"
    "snapshot_ok (q_snapshot q)" "snap_run_id (q_snapshot q) = txn_uuid x Draw_run"
    "snap_created_at (q_snapshot q) = txn_now x"
  using assms unfolding queued_by_def by blast+

lemma queued_by_fresh:
  assumes "queued_by x q project d d' r"
  shows "r_id r \<notin> r_id ` set (runs d)" "r_id r = snap_run_id (q_snapshot q)"
proof -
  have "unique_on r_id (runs d')"
    using queued_byD(3) [OF assms] by (simp add: unique_ok_def unique_runs_def)
  then show "r_id r \<notin> r_id ` set (runs d)"
    by (simp add: queued_byD(1,2) [OF assms] add_run_writes row_simps)
  show "r_id r = snap_run_id (q_snapshot q)" by (simp add: queued_byD(2) [OF assms])
qed

lemma queued_by_evolves: "queued_by x q project d d' r \<Longrightarrow> runs_evolve (runs d) (runs d')"
  using queued_byD(1) [of x q project d d' r] by (simp add: add_run_writes runs_evolve_snoc)

lemma queued_by_keeps_ok:
  assumes q: "queued_by x q project d d' r" and ok: "control_ok d"
  shows "control_ok d'"
proof -
  note fresh = queued_by_fresh [OF q]
  note d' = queued_byD(1) [OF q] and r = queued_byD(2) [OF q] and u = queued_byD(3) [OF q]
  have rs: "runs d' = runs d @ [r]"
    and cs: "run_cases d' = run_cases d @ run_cases_from (r_id r) 1 (snap_cases (r_snapshot r))"
    and es: "events d' = fst (append_run_event (r_id r) Key_run_created SYSTEM Run_created_event
     (snap_created_at (q_snapshot q)) None (Some (Value_of QUEUED)) (creation_payload x q) (events d))"
    and os: "outbox d' = outbox d @ [run_queued_record x q]" and ls: "leases d' = leases d"
    by (simp_all add: d' r add_run_writes)
  have old: "c_run ` set (run_cases d) \<subseteq> r_id ` set (runs d)" "v_run ` set (events d) \<subseteq> r_id ` set (runs d)"
    using control_okD(2) [OF ok] by (auto simp: refs_ok_def)
  show ?thesis
  proof (rule control_okI)
    show "unique_ok d'" by (fact u)
    show "log_ok (events d')"
      unfolding es by (rule run_event.keeps_log_ok) (simp_all add: control_okD(3) [OF ok])
    have "v_run ` set (events d') \<subseteq> r_id ` set (runs d')"
      using old(2) by (auto simp: es rs append_run_event_def Let_def split: option.splits)
    then show "refs_ok d'"
      using old(1) by (auto simp: refs_ok_def cs rs dest: run_cases_from_run)
    show "unique_on l_run (filter active_lease (leases d'))"
      using control_okD(7) [OF ok] by (simp add: ls)
    show "lease_ok (runs d') l" if "l \<in> set (leases d')" for l
      using control_okD(8) [OF ok, of l] that by (auto simp: ls rs lease_ok_def)
    show "outbox_key_ok (runs d') (o_key o')" if o': "o' \<in> set (outbox d')" for o'
    proof (cases "o' \<in> set (outbox d)")
      case True
      show ?thesis
        using outbox_key_ok_evolve [OF queued_by_evolves [OF q] control_okD(10) [OF ok True]] .
    next
      case False
      with o' have "o_key o' = Key_run_queued (r_id r)"
        by (simp add: os r run_queued_record_def Let_def)
      then show ?thesis by (simp add: outbox_key_ok_def rs)
    qed
    fix s assume s: "s \<in> set (runs d')"
    show "run_row_ok s"
      using s control_okD(4) [OF ok] by (auto simp: rs r run_row_ok_def new_run_def)
    show "has_dispatch_record (outbox d') s"
    proof (cases "s = r")
      case True
      then show ?thesis
        by (simp add: has_dispatch_record_def os r run_queued_record_def new_run_def Let_def)
    next
      case False
      with s control_okD(5) [OF ok] show ?thesis
        by (auto simp: rs os has_dispatch_record_def)
    qed
    show "has_its_cases (run_cases d') s"
    proof (cases "s = r")
      case True
      with cases_of_new [OF control_okD(2) [OF ok] fresh(1)] show ?thesis
        by (simp add: has_its_cases_def cs cases_of_run_cases_from run_cases_from_ids(1))
    next
      case False
      with s have "s \<in> set (runs d)" by (simp add: rs)
      moreover from this fresh(1) have "r_id s \<noteq> r_id r" by (metis imageI)
      ultimately show ?thesis
        using control_okD(6) [OF ok] by (simp add: has_its_cases_def cs cases_of_run_cases_from)
    qed
  qed
qed

definition run_creation :: "db \<Rightarrow> db \<Rightarrow> bool" where
  "run_creation d d' \<longleftrightarrow>
     (\<exists>x q key actor ab ap sch due r c. create_run x q key actor ab ap sch due d = Inr (d', r, c))
     \<or> (\<exists>x i mode key actor r c. create_rerun x i mode key actor d = Inr (d', r, c))
     \<or> (\<exists>x p t k payload key actor r c.
          create_automation_package_validation_run x p t k payload key actor d = Inr (d', r, c))"

lemma create_run_service:
  assumes "create_run x q key actor ab ap sch due d = Inr (d', r, c)" "control_ok d"
  shows "control_ok d' \<and> runs_evolve (runs d) (runs d')"
  using assms(1)
proof (cases rule: create_run_Inr)
  case replayed
  with assms(2) show ?thesis by simp
next
  case queued
  with assms(2) show ?thesis by (auto intro: queued_by_keeps_ok queued_by_evolves)
qed

interpretation creation: run_service run_creation
proof
  have both: "control_ok d' \<and> runs_evolve (runs d) (runs d')"
    if "run_creation d d'" and ok: "control_ok d" for d d'
    using that(1) unfolding run_creation_def
  proof (elim disjE exE)
    fix x q key actor ab ap sch due r c
    assume "create_run x q key actor ab ap sch due d = Inr (d', r, c)"
    then show ?thesis using ok by (rule create_run_service)
  next
    fix x i mode key actor r c
    assume "create_rerun x i mode key actor d = Inr (d', r, c)"
    then show ?thesis
      by (cases rule: create_rerun_Inr) (use ok in \<open>auto intro: queued_by_keeps_ok queued_by_evolves\<close>)
  next
    fix x p t k payload key actor r c
    assume "create_automation_package_validation_run x p t k payload key actor d = Inr (d', r, c)"
    then obtain d1 where call: "create_run x \<lparr>rq_project = p, rq_target = t, rq_environment = vr_environment payload,
         rq_baseline = vr_baseline payload, rq_package = k, rq_case_codes = [], rq_headless = None\<rparr>
        key actor [Baseline_RELEASED] [Package_DRAFT] None None d = Inr (d1, r, c)"
      and same: "unique_ok d'" "runs d' = runs d1" "run_cases d' = run_cases d1" "events d' = events d1"
        "outbox d' = outbox d1" "leases d' = leases d1"
      by (auto simp: create_automation_package_validation_run_def outcome_simps Let_def split: if_split_asm)
    from create_run_service [OF call ok] same show ?thesis
      by (auto intro: control_ok_same_tables [of d1])
  qed
  show "control_ok d'" if "run_creation d d'" "control_ok d" for d d' using both [OF that] by simp
  show "runs_evolve (runs d) (runs d')" if "run_creation d d'" "control_ok d" for d d'
    using both [OF that] by simp
qed

subsection \<open>Properties\<close>

lemma create_run_found:
  assumes "create_run x q key actor ab ap sch due d = Inr (d', r, c)"
  shows "lookup_row (\<lambda>r. (r_project r, r_idempotency_key r)) (rq_project q, key) (runs d') = Some r"
    "r_request_hash r = txn_digest x (Hash_run_request q)"
proof -
  have "lookup_row (\<lambda>r. (r_project r, r_idempotency_key r)) (rq_project q, key) (runs d') = Some r
      \<and> r_request_hash r = txn_digest x (Hash_run_request q)"
    using assms
  proof (cases rule: create_run_Inr)
    case replayed
    then show ?thesis using existing_idempotent_run_Some [OF replayed(3)] by simp
  next
    case (queued project pl chain qr)
    have "p_id project = rq_project q"
      using queued(3) by (auto dest: lookup_row_SomeD)
    with queued queued_byD(1,2,5) [OF queued(2)] show ?thesis
      by (simp add: add_run_writes row_simps queue_arguments_def)
  qed
  then show "lookup_row (\<lambda>r. (r_project r, r_idempotency_key r)) (rq_project q, key) (runs d') = Some r"
    "r_request_hash r = txn_digest x (Hash_run_request q)" by simp_all
qed

text \<open>
  Creating a run is idempotent.  After \<open>create_run\<close> returned a run for a key, a second call
  with the same project, key and request returns that run, says that nothing was created and
  leaves the database as it is, whatever actor, endpoint or later moment the second call has.
\<close>

theorem create_run_replay:
  assumes "create_run x q key actor ab ap sch due d = Inr (d', r, c)"
    and "txn_digest y = txn_digest x"
  shows "create_run y q key actor' ab' ap' sch' due' d' = Inr (d', r, False)"
  using create_run_found [OF assms(1)] assms(2)
  by (simp add: create_run_def Let_def existing_idempotent_run_hit)

definition created_run :: "service_error + db \<times> run_row \<times> bool \<Rightarrow> bool" where
  "created_run m = (case m of Inl _ \<Rightarrow> False | Inr (_, _, c) \<Rightarrow> c)"

lemma created_runE:
  assumes "created_run m"
  obtains d' r where "m = Inr (d', r, True)"
  using assms by (cases m) (auto simp: created_run_def)

lemma demo_creates: "created_run (create_run (demo_txn 1000 200) demo_request ''key'' 2
    [Baseline_RELEASED] [Package_ACTIVE] None None demo_db)"
  by code_simp

theorem create_run_replay_witness:
  "\<exists>d' r. create_run (demo_txn 1000 200) demo_request ''key'' 2 [Baseline_RELEASED] [Package_ACTIVE]
       None None demo_db = Inr (d', r, True)
     \<and> create_run (demo_txn 2000 300) demo_request ''key'' 3 [Baseline_RELEASED] [Package_ACTIVE]
       None None d' = Inr (d', r, False)"
proof -
  obtain d' r where call: "create_run (demo_txn 1000 200) demo_request ''key'' 2 [Baseline_RELEASED]
      [Package_ACTIVE] None None demo_db = Inr (d', r, True)"
    using demo_creates by (rule created_runE)
  show ?thesis
    using call create_run_replay [OF call, of "demo_txn 2000 300"] by simp
qed

text \<open>
  A key is bound to its request.  Once a run holds an idempotency key, a call with the key
  and a request of another digest in the same project is refused as a conflict.
\<close>

theorem create_run_key_reuse:
  assumes "create_run x q key actor ab ap sch due d = Inr (d', r, c)"
    and "rq_project q' = rq_project q"
    and "txn_digest y (Hash_run_request q') \<noteq> txn_digest x (Hash_run_request q)"
  shows "create_run y q' key actor' ab' ap' sch' due' d' =
    Inl (ResourceConflict ''idempotency key was already used with a different request'')"
  using create_run_found [OF assms(1)] assms(2,3)
  by (simp add: create_run_def Let_def existing_idempotent_run_hit)

text \<open>
  C3: quotas hold at creation.  A created run adds exactly one to the project's in-flight runs
  and to the runs of the UTC day, and both counts are then within the project's limits.
\<close>

definition runs_today :: "instant \<Rightarrow> uuid \<Rightarrow> db \<Rightarrow> int" where
  "runs_today now p d = use_today (fst (execution_usage now p d))"

theorem create_run_within_quota:
  assumes "create_run x q key actor ab ap sch due d = Inr (d', r, True)"
  shows "\<exists>p. lookup_row p_id (rq_project q) (projects d) = Some p
    \<and> in_flight_runs (rq_project q) d' = in_flight_runs (rq_project q) d + 1
    \<and> in_flight_runs (rq_project q) d' \<le> p_max_in_flight p
    \<and> runs_today (txn_now x) (rq_project q) d' = runs_today (txn_now x) (rq_project q) d + 1
    \<and> runs_today (txn_now x) (rq_project q) d' \<le> p_max_daily p"
  using assms
proof (cases rule: create_run_Inr)
  case (queued project pl chain qr)
  have id: "p_id project = rq_project q"
    using queued(3) by (auto dest: lookup_row_SomeD)
  have q': "q_project qr = rq_project q" using queued(6) id by (simp add: queue_arguments_def)
  note d' = queued_byD(1) [OF queued(2)]
  have "in_flight_runs (rq_project q) d' = in_flight_runs (rq_project q) d + 1"
    by (simp add: d' in_flight_runs_def add_run_writes row_simps q')
  moreover have "runs_today (txn_now x) (rq_project q) d' = runs_today (txn_now x) (rq_project q) d + 1"
    using queued_byD(9) [OF queued(2)] utc_midnight_le [of "txn_now x"]
    by (simp add: runs_today_def use_today_eq d' add_run_writes row_simps q')
  moreover have "in_flight_runs (rq_project q) d < p_max_in_flight project
      \<and> runs_today (txn_now x) (rq_project q) d < p_max_daily project"
    using queued_byD(6) [OF queued(2)] by (simp add: enforce_Inr_iff id runs_today_def use_today_eq)
  ultimately show ?thesis using queued(3) by auto
qed simp

theorem create_run_within_quota_witness:
  "\<exists>d' r. create_run (demo_txn 1000 200) demo_request ''key'' 2 [Baseline_RELEASED] [Package_ACTIVE]
       None None demo_db = Inr (d', r, True) \<and> in_flight_runs 10 d' \<le> 2"
proof -
  obtain d' r where call: "create_run (demo_txn 1000 200) demo_request ''key'' 2 [Baseline_RELEASED]
      [Package_ACTIVE] None None demo_db = Inr (d', r, True)"
    using demo_creates by (rule created_runE)
  have "lookup_row p_id 10 (projects demo_db) = Some demo_project"
    by (simp add: demo_db_def demo_project_def row_simps)
  with create_run_within_quota [OF call] have "in_flight_runs 10 d' \<le> 2"
    by (auto simp: demo_request_def demo_project_def)
  with call show ?thesis by blast
qed

text \<open>
  C2: a created run is complete.  From a well-formed database, \<open>create_run\<close> appends exactly one
  run, QUEUED and with a valid snapshot; its case rows are the snapshot's cases in order, all
  QUEUED; its log holds the single event \<open>run_created\<close> with number 1; the outbox gets exactly
  one record, pending, that carries the snapshot; and the database stays well formed.
\<close>

theorem create_run_complete:
  assumes "create_run x q key actor ab ap sch due d = Inr (d', r, True)" and "control_ok d"
  shows "control_ok d' \<and> runs d' = runs d @ [r] \<and> r_status r = QUEUED \<and> snapshot_ok (r_snapshot r)
    \<and> map c_case_id (cases_of (r_id r) (run_cases d')) = map case_id (snap_cases (r_snapshot r))
    \<and> (\<forall>c\<in>set (cases_of (r_id r) (run_cases d')). c_status c = Value_of QUEUED)
    \<and> map (\<lambda>e. (v_key e, v_sequence e)) (events_of (r_id r) (events d')) = [(Key_run_created, 1)]
    \<and> (\<exists>rec. outbox d' = outbox d @ [rec] \<and> o_event_type rec = Run_queued \<and> o_aggregate rec = r_id r
          \<and> o_status rec = Outbox_PENDING \<and> o_payload rec = Queued_payload (r_snapshot r) (r_pool r))"
  using assms(1)
proof (cases rule: create_run_Inr)
  case (queued project pl chain qr)
  note d' = queued_byD(1) [OF queued(2)] and r = queued_byD(2) [OF queued(2)]
  note fresh = queued_by_fresh [OF queued(2)]
  note none = cases_of_new [OF control_okD(2) [OF assms(2)] fresh(1)]
    events_of_new [OF control_okD(2) [OF assms(2)] fresh(1)]
  have cases: "cases_of (r_id r) (run_cases d') = run_cases_from (r_id r) 1 (snap_cases (r_snapshot r))"
    using none(1) by (simp add: d' r add_run_writes cases_of_run_cases_from)
  have ids: "map c_case_id (run_cases_from i n cs) = map case_id cs" for i n cs
    by (induction i n cs rule: run_cases_from.induct) auto
  have "find_event (r_id r) Key_run_created (events d) = None"
    using none(2) by (simp add: find_event_None)
  then have "map (\<lambda>e. (v_key e, v_sequence e)) (events_of (r_id r) (events d')) = [(Key_run_created, 1)]"
    using none(2)
    by (simp add: d' r add_run_writes append_run_event_def Let_def events_of_append
        next_event_sequence_def next_sequence_def)
  moreover have "\<exists>rec. outbox d' = outbox d @ [rec] \<and> o_event_type rec = Run_queued \<and> o_aggregate rec = r_id r
          \<and> o_status rec = Outbox_PENDING \<and> o_payload rec = Queued_payload (r_snapshot r) (r_pool r)"
    by (simp add: d' r add_run_writes run_queued_record_def Let_def new_run_def)
  moreover have "map c_case_id (cases_of (r_id r) (run_cases d')) = map case_id (snap_cases (r_snapshot r))"
    "\<forall>c\<in>set (cases_of (r_id r) (run_cases d')). c_status c = Value_of QUEUED"
    by (auto simp: cases ids dest: run_cases_from_run)
  moreover have "runs d' = runs d @ [r]" "r_status r = QUEUED" "snapshot_ok (r_snapshot r)"
    using queued_byD(7) [OF queued(2)] by (simp_all add: d' r add_run_writes)
  ultimately show ?thesis
    using queued_by_keeps_ok [OF queued(2) assms(2)] by blast
qed simp

theorem create_run_complete_witness:
  "\<exists>d' r. create_run (demo_txn 1000 200) demo_request ''key'' 2 [Baseline_RELEASED] [Package_ACTIVE]
       None None demo_db = Inr (d', r, True) \<and> control_ok d' \<and> runs d' = [r]"
proof -
  obtain d' r where call: "create_run (demo_txn 1000 200) demo_request ''key'' 2 [Baseline_RELEASED]
      [Package_ACTIVE] None None demo_db = Inr (d', r, True)"
    using demo_creates by (rule created_runE)
  with create_run_complete [OF call demo_ok] show ?thesis
    by (auto simp: demo_db_def empty_db_def)
qed

lemma select_cases_Inr:
  assumes "select_cases doc codes = Inr cases" "distinct (map case_code (baseline_cases doc))"
  shows "cases = filter (\<lambda>c. if codes = [] then case_enabled c else case_code c \<in> set codes) (baseline_cases doc)"
    "\<forall>c\<in>set cases. case_enabled c"
    "set codes \<subseteq> case_code ` set cases"
proof -
  have by_code: "case_by_code (baseline_cases doc) (case_code c) = Some c" if "c \<in> set (baseline_cases doc)" for c
    using lookup_row_unique [of case_code "rev (baseline_cases doc)" c] assms(2) that
    by (simp add: case_by_code_def rev_map [symmetric])
  show eq: "cases = filter (\<lambda>c. if codes = [] then case_enabled c else case_code c \<in> set codes) (baseline_cases doc)"
    using assms(1) by (auto simp: select_cases_def Let_def split: if_split_asm)
  show "\<forall>c\<in>set cases. case_enabled c"
  proof (cases "codes = []")
    case True
    then show ?thesis by (simp add: eq)
  next
    case False
    then have enabled: "\<forall>code\<in>set codes. \<not> case_is_disabled (baseline_cases doc) code"
      using assms(1) by (auto simp: select_cases_def Let_def split: if_split_asm)
    show ?thesis
    proof
      fix c assume "c \<in> set cases"
      then have "c \<in> set (baseline_cases doc)" "case_code c \<in> set codes" by (simp_all add: eq False)
      with enabled by_code show "case_enabled c" by (auto simp: case_is_disabled_def)
    qed
  qed
  show "set codes \<subseteq> case_code ` set cases"
  proof
    fix code assume code: "code \<in> set codes"
    then have "case_by_code (baseline_cases doc) code \<noteq> None"
      using assms(1) by (auto simp: select_cases_def Let_def split: if_split_asm)
    then obtain c where "c \<in> set (baseline_cases doc)" "case_code c = code"
      by (auto simp: case_by_code_def dest: lookup_row_SomeD)
    with code show "code \<in> case_code ` set cases" by (force simp: eq)
  qed
qed

text \<open>
  A run executes what was asked for.  The cases of a created run come, in the baseline's
  order, from a baseline whose status the endpoint allows: the requested codes exactly, or every
  enabled case when none is requested; no disabled case is ever scheduled.
\<close>

theorem create_run_selects:
  assumes "create_run x q key actor ab ap sch due d = Inr (d', r, True)"
  shows "\<exists>b doc. lookup_row b_id (rq_baseline q) (baselines d) = Some b \<and> b_status b \<in> set ab
    \<and> b_project b = rq_project q \<and> parse_baseline (b_document b) = Inr doc
    \<and> snap_cases (r_snapshot r) =
        filter (\<lambda>c. if rq_case_codes q = [] then case_enabled c else case_code c \<in> set (rq_case_codes q))
          (baseline_cases doc)
    \<and> (\<forall>c\<in>set (snap_cases (r_snapshot r)). case_enabled c)
    \<and> set (rq_case_codes q) \<subseteq> case_code ` set (snap_cases (r_snapshot r))"
  using assms
proof (cases rule: create_run_Inr)
  case (queued project pl chain qr)
  note plan = plan_run_Inr [OF queued(4)]
  have id: "p_id project = rq_project q"
    using queued(3) by (auto dest: lookup_row_SomeD)
  have b: "lookup_row b_id (rq_baseline q) (baselines d) = Some (plan_baseline pl)"
    "b_project (plan_baseline pl) = rq_project q" "b_status (plan_baseline pl) \<in> set ab"
    using plan(3) id by (auto simp: resolve_baseline_def split: option.splits if_split_asm)
  have "distinct (map case_code (baseline_cases (plan_document pl)))"
    using parse_baseline_fields(2,7) [OF plan(6)] by simp
  note sel = select_cases_Inr [OF plan(7) this]
  have "snap_cases (r_snapshot r) = plan_cases pl"
    using queued_byD(2) [OF queued(2)] queued(6)
    by (simp add: queue_arguments_def snapshot_of_def Let_def)
  with b plan(6) sel show ?thesis by auto
qed simp

theorem create_run_selects_witness:
  "\<exists>d' r. create_run (demo_txn 1000 200) demo_request ''key'' 2 [Baseline_RELEASED] [Package_ACTIVE]
       None None demo_db = Inr (d', r, True) \<and> (\<forall>c\<in>set (snap_cases (r_snapshot r)). case_enabled c)"
proof -
  obtain d' r where call: "create_run (demo_txn 1000 200) demo_request ''key'' 2 [Baseline_RELEASED]
      [Package_ACTIVE] None None demo_db = Inr (d', r, True)"
    using demo_creates by (rule created_runE)
  with create_run_selects [OF call] show ?thesis by blast
qed

text \<open>
  C6: only admitted packages run.  The package of a created run has a status the endpoint
  allows and is either a legacy package, with no supply-chain reference in the snapshot, or a
  verified one: then a stored report with outcome VERIFIED covers exactly the package's digest
  and the snapshot names that report.
\<close>

theorem create_run_admission:
  assumes "create_run x q key actor ab ap sch due d = Inr (d', r, True)"
  shows "\<exists>k. lookup_row k_id (rq_package q) (packages d) = Some k \<and> k_status k \<in> set ap
    \<and> k_project k = rq_project q \<and> k_target k = rq_target q
    \<and> pref_digest (snap_package (r_snapshot r)) = k_digest k
    \<and> (k_chain_status k = Chain_LEGACY \<and> pref_supply_chain (snap_package (r_snapshot r)) = None
       \<or> k_chain_status k = Chain_VERIFIED
         \<and> (\<exists>v ref. v \<in> set (verifications d) \<and> sv_package v = k_id k
              \<and> rep_outcome (sv_report v) = Outcome_VERIFIED \<and> rep_image_digest (sv_report v) = k_digest k
              \<and> pref_supply_chain (snap_package (r_snapshot r)) = Some ref
              \<and> sc_verification_id ref = sv_id v \<and> sc_report_digest ref = sv_report_digest v))"
  using assms
proof (cases rule: create_run_Inr)
  case (queued project pl chain qr)
  note plan = plan_run_Inr [OF queued(4)]
  let ?k = "plan_package pl"
  have id: "p_id project = rq_project q"
    using queued(3) by (auto dest: lookup_row_SomeD)
  have "t_id (plan_target pl) = rq_target q"
    using plan(1) by (auto simp: resolve_target_def split: option.splits if_split_asm dest: lookup_row_SomeD)
  then have k: "lookup_row k_id (rq_package q) (packages d) = Some ?k" "k_status ?k \<in> set ap"
    "k_project ?k = rq_project q" "k_target ?k = rq_target q"
    using plan(4) id by (auto simp: resolve_package_def split: option.splits if_split_asm)
  have snap: "pref_digest (snap_package (r_snapshot r)) = k_digest ?k"
    "pref_supply_chain (snap_package (r_snapshot r)) = chain"
    using queued_byD(2) [OF queued(2)] queued(6)
    by (simp_all add: queue_arguments_def snapshot_of_def Let_def)
  show ?thesis
  proof (cases "k_chain_status ?k = Chain_LEGACY")
    case True
    then have "chain = None"
      using queued(5) by (simp add: automation_package_supply_chain_ref_def)
    with True k snap show ?thesis by auto
  next
    case False
    then obtain v where "v \<in> set (verifications d)" "sv_package v = k_id ?k" "k_chain_status ?k = Chain_VERIFIED"
      "rep_outcome (sv_report v) = Outcome_VERIFIED" "rep_image_digest (sv_report v) = k_digest ?k"
      "\<exists>ref. chain = Some ref \<and> sc_verification_id ref = sv_id v \<and> sc_report_digest ref = sv_report_digest v"
      using queued(5)
      by (auto simp: automation_package_supply_chain_ref_def Let_def split: option.splits if_split_asm
          dest: lookup_row_SomeD)
    with k snap show ?thesis by metis
  qed
qed simp

theorem create_run_admission_witness:
  "\<exists>d' r. create_run (demo_txn 1000 200) demo_request ''key'' 2 [Baseline_RELEASED] [Package_ACTIVE]
       None None demo_db = Inr (d', r, True) \<and> pref_digest (snap_package (r_snapshot r)) = ''kd''"
proof -
  obtain d' r where call: "create_run (demo_txn 1000 200) demo_request ''key'' 2 [Baseline_RELEASED]
      [Package_ACTIVE] None None demo_db = Inr (d', r, True)"
    using demo_creates by (rule created_runE)
  with create_run_admission [OF call] show ?thesis
    by (auto simp: demo_request_def demo_db_def row_simps)
qed

text \<open>
  A failed-only rerun repeats exactly the failures.  The new run names its source, keeps the
  source's package and project, and of the source snapshot's cases it holds exactly those whose
  stored result is FAILED or INFRA_ERROR, and at least one.
\<close>

theorem rerun_failed_only:
  assumes "create_rerun x i FAILED_ONLY key actor d = Inr (d', r, True)"
  shows "\<exists>source doc. lookup_row r_id i (runs d) = Some source \<and> terminal_status (r_status source)
    \<and> r_result source = Some doc \<and> r_source r = Some i \<and> r_project r = r_project source
    \<and> r_package r = r_package source \<and> snap_cases (r_snapshot r) \<noteq> []
    \<and> map case_id (snap_cases (r_snapshot r)) =
        filter (\<lambda>j. \<exists>res\<in>set (res_case_results doc). cres_case_id res = j \<and> case_failed res)
          (map case_id (snap_cases (r_snapshot source)))"
  using assms
proof (cases rule: create_rerun_Inr)
  case (queued source project qr snapshot cases)
  note new = queued_byD(2) [OF queued(2)]
  obtain doc result where doc: "r_result source = Some doc" "parse_result doc = Inr result"
    and cases: "cases = filter (\<lambda>c. case_id c \<in> cres_case_id ` {res \<in> set (res_case_results result). case_failed res})
       (snap_cases snapshot)" "cases \<noteq> []"
    using queued(7)
    by (auto simp: rerun_cases_def Let_def outcome_simps image_def split: option.splits)
  have "list_all2 (=) (res_case_results doc) (res_case_results result)"
    using parse_result_Inr(3) [OF doc(2)]
    by (rule list_all2_mono) (auto simp: validate_case_result_def split: if_split_asm)
  then have "res_case_results result = res_case_results doc"
    by (simp add: list.rel_eq)
  with cases(1) have "map case_id cases =
      filter (\<lambda>j. \<exists>res\<in>set (res_case_results doc). cres_case_id res = j \<and> case_failed res)
        (map case_id (snap_cases snapshot))"
    by (simp add: filter_map comp_def) (auto intro!: arg_cong [where f = "map case_id"] filter_cong simp: image_iff)
  moreover have "map case_id (snap_cases snapshot) = map case_id (snap_cases (r_snapshot source))"
    by (rule parse_snapshot_Inr(3) [OF queued(6)])
  moreover have "snap_cases (r_snapshot r) = cases" "r_source r = Some i" "r_project r = r_project source"
    "r_package r = r_package source"
    using queued(5,8,9,11) by (simp_all add: new new_run_def)
  ultimately show ?thesis using queued(3,4) doc cases(2) by auto
qed simp

end
