(* ===== verification/Run_Emails.thy ===== *)
theory Run_Emails
  imports Run_State_Machine
begin

section \<open>Result mails\<close>

text \<open>
  \<open>apps/api/src/testops/api/run_email_services.py\<close>: the recipients' preferences and the
  enqueueing of one mail per selected recipient when a run ends.  \<open>casefold\<close> is taken on
  ASCII letters, the alphabet of stored addresses.
\<close>

definition to_lower :: "char \<Rightarrow> char" where
  "to_lower c = (if 65 \<le> (of_char c :: nat) \<and> (of_char c :: nat) \<le> 90
     then char_of ((of_char c :: nat) + 32) else c)"

definition casefold :: "string \<Rightarrow> string" where
  "casefold = map to_lower"

text \<open>\<open>email.rpartition("@")\<close>: the text before and after the last separator.\<close>

fun rpartition :: "char \<Rightarrow> string \<Rightarrow> string \<times> string" where
  "rpartition c [] = ([], [])"
| "rpartition c (a # s) =
     (if c \<in> set s then (a # fst (rpartition c s), snd (rpartition c s))
      else if a = c then ([], s) else ([], a # s))"

definition masked_email :: "string \<Rightarrow> string" where
  "masked_email email =
     (let (local, domain) = rpartition (CHR ''@'') email;
          visible = (if local = [] then ''*'' else take 1 local)
      in visible @ ''***@'' @ domain)"

definition preference_emails :: "email_preference_row option \<Rightarrow> string list" where
  "preference_emails preference =
     (case preference of None \<Rightarrow> []
      | Some p \<Rightarrow> if ep_emails p \<noteq> [] then ep_emails p
          else (case ep_email p of None \<Rightarrow> [] | Some e \<Rightarrow> [e]))"

definition selected_preference_emails :: "email_preference_row option \<Rightarrow> string list" where
  "selected_preference_emails preference =
     (case preference of None \<Rightarrow> []
      | Some p \<Rightarrow>
          (let configured = preference_emails preference in
           case ep_selected p of None \<Rightarrow> configured
           | Some selected \<Rightarrow>
               filter (\<lambda>item. casefold item \<in> set (map casefold configured)) selected))"

definition status_counts :: "run_row \<Rightarrow> (case_result_status \<times> int) list" where
  "status_counts r =
     (let results = (case r_result r of None \<Rightarrow> [] | Some doc \<Rightarrow> res_case_results doc) in
      filter (\<lambda>(_, n). n \<noteq> 0)
        (map (\<lambda>s. (s, count_rows (\<lambda>c. cres_status c = s) results))
          [Case_FAILED, Case_INFRA_ERROR, Case_PASSED, Case_SKIPPED]))"

definition duration_ms :: "run_row \<Rightarrow> int option" where
  "duration_ms r =
     (case (r_started_at r, r_finished_at r) of
        (Some s, Some f) \<Rightarrow> Some (max 0 ((f - s) div 1000))
      | _ \<Rightarrow> None)"

definition result_mail_of :: "project_row \<Rightarrow> run_row \<Rightarrow> result_mail" where
  "result_mail_of p r =
     \<lparr>rm_project_id = p_id p, rm_project_key = p_key p, rm_project_name = p_name p,
      rm_run = r_id r, rm_status = r_status r, rm_case_count = r_case_count r,
      rm_status_counts = status_counts r, rm_duration_ms = duration_ms r,
      rm_finished_at = r_finished_at r,
      rm_baseline_version = ref_version (snap_baseline (r_snapshot r)),
      rm_package_version = pref_version (snap_package (r_snapshot r))\<rparr>"

definition result_delivery :: "txn \<Rightarrow> project_row \<Rightarrow> run_row \<Rightarrow> string \<Rightarrow> email_row" where
  "result_delivery x p r recipient =
     \<lparr>ed_id = txn_uuid x (Draw_email (r_id r) recipient), ed_user = r_created_by r,
      ed_project = Some (r_project r), ed_run = Some (r_id r),
      ed_key = Key_email_result (r_id r) (r_created_by r)
        (take 16 (txn_digest x (Hash_recipient (casefold recipient)))),
      ed_recipient = recipient, ed_display = masked_email recipient,
      ed_payload = Mail_result (result_mail_of p r), ed_status = Delivery_PENDING,
      ed_attempts = 0, ed_available_at = txn_now x, ed_last_error = None,
      ed_delivered_at = None, ed_created_at = txn_now x\<rparr>"

definition enqueue_run_result_email :: "txn \<Rightarrow> run_row \<Rightarrow> db \<Rightarrow> db" where
  "enqueue_run_result_email x r d =
     (let preference = lookup_row ep_user (r_created_by r) (email_preferences d);
          recipients = selected_preference_emails preference
      in case preference of
           None \<Rightarrow> d
         | Some pref \<Rightarrow>
             if \<not> ep_enabled pref \<or> recipients = [] \<or> r_status r \<notin> set (ep_statuses pref) then d
             else (case lookup_row p_id (r_project r) (projects d) of
                     None \<Rightarrow> d
                   | Some p \<Rightarrow>
                       d\<lparr>email_deliveries :=
                           email_deliveries d @ map (result_delivery x p r) recipients\<rparr>))"

subsection \<open>Preferences\<close>

record preference_update =
  ppu_emails :: "string list"
  ppu_selected :: "string list"
  ppu_enabled :: bool
  ppu_statuses :: "run_status list"

definition preference_details :: "bool \<Rightarrow> string list \<Rightarrow> string list \<Rightarrow> (string \<times> json) list" where
  "preference_details enabled emails selected =
     [(''enabled'', JBool enabled), (''recipient_count'', JInt (int (length emails))),
      (''selected_recipient_count'', JInt (int (length selected)))]"

definition update_run_email_preference ::
  "txn \<Rightarrow> uuid \<Rightarrow> preference_update \<Rightarrow> bool \<Rightarrow> db \<Rightarrow> service_error + db \<times> email_preference_row" where
  "update_run_email_preference x user payload smtp_configured d =
     (if ppu_enabled payload \<and> \<not> smtp_configured
      then Inl (ResourceConflict ''SMTP email delivery is not configured'')
      else bind_outcome (require_row (ResourceNotFound ''user not found'')
        (lookup_row u_id user (users d))) (\<lambda>_.
        let preference = lookup_row ep_user user (email_preferences d);
            previous_emails = preference_emails preference;
            previous_selected = selected_preference_emails preference;
            previous_enabled = (case preference of None \<Rightarrow> False | Some p \<Rightarrow> ep_enabled p);
            recipients = ppu_emails payload;
            selected = ppu_selected payload;
            row = \<lparr>ep_user = user,
                   ep_email = (case recipients of [] \<Rightarrow> None | r # _ \<Rightarrow> Some r),
                   ep_emails = recipients, ep_selected = Some selected,
                   ep_enabled = ppu_enabled payload, ep_statuses = ppu_statuses payload\<rparr>;
            d1 = (case preference of
                    None \<Rightarrow> d\<lparr>email_preferences := email_preferences d @ [row]\<rparr>
                  | Some _ \<Rightarrow> d\<lparr>email_preferences :=
                      update_row ep_user user (\<lambda>_. row) (email_preferences d)\<rparr>);
            d2 = (if \<not> ppu_enabled payload \<or> previous_emails \<noteq> recipients
                    \<or> previous_selected \<noteq> selected
                  then d1\<lparr>email_deliveries :=
                    update_where (\<lambda>e. ed_user e = user \<and> ed_status e = Delivery_PENDING)
                      (\<lambda>e. e\<lparr>ed_status := Delivery_CANCELED, ed_last_error := Some Preference_changed\<rparr>)
                      (email_deliveries d1)\<rparr>
                  else d1);
            d3 = audit x user ''identity.run_email_preference_updated'' ''run_email_preference''
                   user None
                   [(''before'', JObj (preference_details previous_enabled previous_emails previous_selected)),
                    (''after'', JObj (preference_details (ppu_enabled payload) recipients selected
                       @ [(''statuses'', JList (map json_status (ppu_statuses payload)))]))] d2
        in bind_outcome (commit d3) (\<lambda>d4. Inr (d4, row))))"

definition test_delivery :: "txn \<Rightarrow> uuid \<Rightarrow> string \<Rightarrow> email_row" where
  "test_delivery x user recipient =
     (let i = txn_uuid x (Draw_email user recipient) in
     \<lparr>ed_id = i, ed_user = user, ed_project = None, ed_run = None,
      ed_key = Key_email_test i, ed_recipient = recipient, ed_display = masked_email recipient,
      ed_payload = Mail_test (txn_now x), ed_status = Delivery_PENDING, ed_attempts = 0,
      ed_available_at = txn_now x, ed_last_error = None, ed_delivered_at = None,
      ed_created_at = txn_now x\<rparr>)"

definition enqueue_run_email_test ::
  "txn \<Rightarrow> uuid \<Rightarrow> bool \<Rightarrow> db \<Rightarrow> service_error + db \<times> email_row" where
  "enqueue_run_email_test x user smtp_configured d =
     (if \<not> smtp_configured then Inl (ResourceConflict ''SMTP email delivery is not configured'')
      else
        let recipients = selected_preference_emails (lookup_row ep_user user (email_preferences d));
            deliveries = map (test_delivery x user) recipients
        in case deliveries of
             [] \<Rightarrow> Inl (ResourceConflict ''select at least one configured email before sending a test notification'')
           | first # _ \<Rightarrow>
               let d1 = d\<lparr>email_deliveries := email_deliveries d @ deliveries\<rparr>;
                   d2 = audit x user ''identity.run_email_test_queued'' ''run_email_delivery''
                          (ed_id first) None
                          [(''recipient_count'', JInt (int (length deliveries))),
                           (''destination_displays'', JList (map (\<lambda>e. JStr (ed_display e)) deliveries))] d1
               in bind_outcome (commit d2) (\<lambda>d3. Inr (d3, first)))"

subsection \<open>What enqueueing does\<close>

lemma enqueue_frame [frame_simps, simp]:
  "users (enqueue_run_result_email x r d) = users d"
  "email_preferences (enqueue_run_result_email x r d) = email_preferences d"
  "projects (enqueue_run_result_email x r d) = projects d"
  "targets (enqueue_run_result_email x r d) = targets d"
  "environments (enqueue_run_result_email x r d) = environments d"
  "baselines (enqueue_run_result_email x r d) = baselines d"
  "change_requests (enqueue_run_result_email x r d) = change_requests d"
  "change_items (enqueue_run_result_email x r d) = change_items d"
  "packages (enqueue_run_result_email x r d) = packages d"
  "verifications (enqueue_run_result_email x r d) = verifications d"
  "pools (enqueue_run_result_email x r d) = pools d"
  "workers (enqueue_run_result_email x r d) = workers d"
  "leases (enqueue_run_result_email x r d) = leases d"
  "schedules (enqueue_run_result_email x r d) = schedules d"
  "firings (enqueue_run_result_email x r d) = firings d"
  "runs (enqueue_run_result_email x r d) = runs d"
  "run_cases (enqueue_run_result_email x r d) = run_cases d"
  "artifacts (enqueue_run_result_email x r d) = artifacts d"
  "events (enqueue_run_result_email x r d) = events d"
  "outbox (enqueue_run_result_email x r d) = outbox d"
  "audit_log (enqueue_run_result_email x r d) = audit_log d"
  by (simp_all add: enqueue_run_result_email_def Let_def split: option.split)

lemma enqueue_adds:
  "\<exists>new. email_deliveries (enqueue_run_result_email x r d) = email_deliveries d @ new
     \<and> (\<forall>e\<in>set new. ed_run e = Some (r_id r) \<and> ed_user e = r_created_by r \<and> ed_status e = Delivery_PENDING)"
proof (cases "enqueue_run_result_email x r d = d")
  case True
  then show ?thesis by (intro exI [of _ "[]"]) simp
next
  case False
  then obtain p where "enqueue_run_result_email x r d =
      d\<lparr>email_deliveries := email_deliveries d @ map (result_delivery x p r)
        (selected_preference_emails (lookup_row ep_user (r_created_by r) (email_preferences d)))\<rparr>"
    by (auto simp: enqueue_run_result_email_def Let_def split: option.splits if_split_asm)
  then show ?thesis
    by (intro exI conjI) (simp, simp add: result_delivery_def)
qed

text \<open>A recipient that is not configured any more receives nothing.\<close>

lemma selected_are_configured:
  "e \<in> set (selected_preference_emails p) \<Longrightarrow> casefold e \<in> casefold ` set (preference_emails p)"
  by (auto simp: selected_preference_emails_def Let_def split: option.splits)

text \<open>The mask keeps the domain and at most one character of the local part.\<close>

lemma rpartition_spec:
  "c \<in> set s \<Longrightarrow> s = fst (rpartition c s) @ c # snd (rpartition c s) \<and> c \<notin> set (snd (rpartition c s))"
  by (induction c s rule: rpartition.induct) auto

lemma masked_email_form:
  assumes "local \<noteq> []" "CHR ''@'' \<notin> set domain"
  shows "masked_email (local @ CHR ''@'' # domain) = hd local # ''***@'' @ domain"
proof -
  let ?s = "local @ CHR ''@'' # domain"
  have spec: "?s = fst (rpartition (CHR ''@'') ?s) @ CHR ''@'' # snd (rpartition (CHR ''@'') ?s)"
    "CHR ''@'' \<notin> set (snd (rpartition (CHR ''@'') ?s))"
    using rpartition_spec [of "CHR ''@''" ?s] by simp_all
  have "us = vs \<and> xs = ys" if "us @ c # xs = vs @ c # ys" "c \<notin> set xs" "c \<notin> set ys"
    for us vs xs ys :: string and c
    using that by (induction us arbitrary: vs) (auto simp: append_eq_Cons_conv Cons_eq_append_conv)
  from this [OF spec(1) assms(2) spec(2)] have "rpartition (CHR ''@'') ?s = (local, domain)"
    by (simp add: prod_eq_iff)
  with assms(1) show ?thesis
    by (cases "local") (simp_all add: masked_email_def Let_def)
qed

end
