(* ===== verification/Run_Execution.thy ===== *)
theory Run_Execution
  imports Run_Creation Run_Emails
begin

section \<open>Executing runs: callbacks, events, results, cancellation\<close>

text \<open>
  \<open>services.py\<close>: \<open>_release_runner_slot\<close>, \<open>_bind_runner_slot\<close>, \<open>update_run_status\<close>,
  \<open>record_run_event\<close>, \<open>record_run_result\<close>, \<open>_request_cancel\<close>, \<open>cancel_run\<close>, \<open>cancel_runs\<close>,
  and the shape check of runner events in \<open>schemas.py\<close>.  Each service locks the run's row, so
  it is one step of the database; the branches follow the source's order.
\<close>

subsection \<open>Runner slots\<close>

definition release_runner_slot :: "txn \<Rightarrow> uuid \<Rightarrow> db \<Rightarrow> db \<times> bool" where
  "release_runner_slot x i d =
     (let (ls, released) = close_slot Lease_RELEASED (txn_now x) i (leases d)
      in (d\<lparr>leases := ls\<rparr>, released))"

definition bind_runner_slot :: "txn \<Rightarrow> run_row \<Rightarrow> string option \<Rightarrow> db \<Rightarrow> service_error + db \<times> bool" where
  "bind_runner_slot x run worker_key d =
     (case (worker_key, r_pool run) of
        (Some key, Some _) \<Rightarrow>
          (case find (\<lambda>l. l_run l = r_id run \<and> active_lease l) (leases d) of
             None \<Rightarrow> Inl (ResourceConflict ''pooled Run has no active Runner slot lease'')
           | Some lease \<Rightarrow>
               (case lookup_row w_key key (workers d) of
                  None \<Rightarrow> Inl (InvalidRequest ''Runner worker does not belong to the Run pool'')
                | Some worker \<Rightarrow>
                    if w_pool worker \<noteq> l_pool lease
                    then Inl (InvalidRequest ''Runner worker does not belong to the Run pool'')
                    else if w_status worker \<noteq> Resource_ACTIVE
                    then Inl (ResourceConflict ''Runner worker is not ACTIVE'')
                    else if l_worker lease \<noteq> None \<and> l_worker lease \<noteq> Some (w_id worker)
                    then Inl (ResourceConflict ''Runner slot lease is already bound to another worker'')
                    else Inr (d\<lparr>leases := update_row l_id (l_id lease)
                                 (\<lambda>l. l\<lparr>l_worker := Some (w_id worker)\<rparr>) (leases d),
                               workers := update_row w_id (w_id worker)
                                 (\<lambda>w. w\<lparr>w_last_heartbeat := txn_now x\<rparr>) (workers d)\<rparr>, True)))
      | _ \<Rightarrow> Inr (d, False))"

subsection \<open>Status callbacks\<close>

definition enter_status :: "instant \<Rightarrow> run_status \<Rightarrow> run_row \<Rightarrow> run_row" where
  "enter_status moment target r =
     r\<lparr>r_status := target,
       r_timeout_at := (case r_timeout_at r of
           None \<Rightarrow> Some (moment + microseconds (r_timeout_seconds r)) | Some t \<Rightarrow> Some t),
       r_started_at := (if target = RUNNING \<and> r_started_at r = None then Some moment
           else r_started_at r)\<rparr>"

definition status_payload :: "run_status \<Rightarrow> run_status \<Rightarrow> (string \<times> json) list" where
  "status_payload previous status =
     [(''previous_status'', json_status previous), (''status'', json_status status)]"

definition move_run :: "txn \<Rightarrow> run_row \<Rightarrow> run_status \<Rightarrow> db \<Rightarrow> db" where
  "move_run x r target d =
     (let moment = txn_now x;
          i = r_id r;
          details = status_payload (r_status r) target;
          es = fst (append_run_event i (Key_status target) SYSTEM Status_changed_event moment
                 None (Some (Value_of target)) details (events d))
      in audit x RUNNER_ACTOR_ID ''run.status_changed'' ''test_run'' i (Some (r_project r)) details
           ((store_run (enter_status moment target r) d)\<lparr>events := es\<rparr>))"

definition update_run_status ::
  "txn \<Rightarrow> uuid \<Rightarrow> run_status \<Rightarrow> string option \<Rightarrow> db \<Rightarrow> service_error + db \<times> run_row \<times> bool" where
  "update_run_status x i target worker_key d =
     (if target \<notin> {PREPARING, RUNNING}
      then Inl (InvalidRequest ''Runner status callback only accepts PREPARING or RUNNING'')
      else
      bind_outcome (run_or_404 d i) (\<lambda>r.
      bind_outcome (bind_runner_slot x r worker_key d) (\<lambda>(d1, lease_bound).
      if r_status r = target then
        (if lease_bound then bind_outcome (commit d1) (\<lambda>d2. Inr (d2, r, False)) else Inr (d, r, False))
      else case require_run_transition (r_status r) target of
        Inl _ \<Rightarrow> Inl (ResourceConflict ''invalid Run transition: {} -> {}'')
      | Inr _ \<Rightarrow>
        bind_outcome (commit (move_run x r target d1)) (\<lambda>d2.
          Inr (d2, enter_status (txn_now x) target r, True)))))"

subsection \<open>Runner events\<close>

fun runner_event_name :: "runner_event_type \<Rightarrow> string" where
  "runner_event_name run_started = ''run_started''"
| "runner_event_name case_started = ''case_started''"
| "runner_event_name case_finished = ''case_finished''"
| "runner_event_name progress_updated = ''progress_updated''"
| "runner_event_name run_finished = ''run_finished''"
| "runner_event_name live_view_ready = ''live_view_ready''"
| "runner_event_name live_view_ended = ''live_view_ended''"

fun status_text :: "status_value \<Rightarrow> string" where
  "status_text (Value_of s) = run_status_value s"
| "status_text Value_SKIPPED = ''SKIPPED''"

definition progress_values :: "run_progress \<Rightarrow> (string \<times> int option) list" where
  "progress_values p =
     [(''current_round'', current_round p), (''total_rounds'', total_rounds p),
      (''round_completed'', round_completed p), (''round_total'', round_total p),
      (''completed'', progress_completed p), (''total'', progress_total p),
      (''passed'', progress_passed p), (''failed'', progress_failed p),
      (''skipped'', progress_skipped p)]"

text \<open>\<open>InternalRunEventCreate.validate_event_shape\<close>.\<close>

definition validate_event_shape :: "runner_event \<Rightarrow> service_error + runner_event" where
  "validate_event_shape e =
     (let values = map snd (progress_values (ev_progress e)); p = ev_progress e;
          num = (\<lambda>v. case v of None \<Rightarrow> 0 | Some n \<Rightarrow> n) in
      if (ev_event e \<in> {case_started, case_finished}) \<noteq> (ev_case_code e \<noteq> None)
      then Inl (Value_error ''case events require case_code and Run events forbid it'')
      else if (ev_event e \<in> {case_finished, run_finished}) \<noteq> (ev_status e \<noteq> None)
      then Inl (Value_error ''finished events require status and started events forbid it'')
      else if ev_event e = case_finished
        \<and> ev_status e \<notin> Some ` {Value_of PASSED, Value_of FAILED, Value_SKIPPED, Value_of INFRA_ERROR}
      then Inl (Value_error ''case_finished requires a Case Result status'')
      else if ev_event e = run_finished
        \<and> ev_status e \<notin> (\<lambda>s. Some (Value_of s)) ` set TERMINAL_RUN_STATUSES
      then Inl (Value_error ''run_finished requires a terminal Run status'')
      else if ev_event e = progress_updated then
        (if None \<in> set values
         then Inl (Value_error ''progress_updated requires complete progress counters'')
         else if num (total_rounds p) < num (current_round p)
         then Inl (Value_error ''current_round cannot exceed total_rounds'')
         else if num (round_total p) < num (round_completed p)
         then Inl (Value_error ''round_completed cannot exceed round_total'')
         else if num (progress_total p) < num (progress_completed p)
         then Inl (Value_error ''completed cannot exceed total'')
         else if num (progress_passed p) + num (progress_failed p) + num (progress_skipped p)
           \<noteq> num (progress_completed p)
         then Inl (Value_error ''progress result counters must equal completed'')
         else Inr e)
      else if set values \<noteq> {None} \<or> ev_current_case_code e \<noteq> None
      then Inl (Value_error ''progress counters are only valid for progress_updated'')
      else Inr e)"

definition optional_field :: "string \<Rightarrow> json option \<Rightarrow> (string \<times> json) list" where
  "optional_field name v = (case v of None \<Rightarrow> [] | Some j \<Rightarrow> [(name, j)])"

definition runner_event_document :: "runner_event \<Rightarrow> (string \<times> json) list" where
  "runner_event_document e =
     [(''run_id'', JId (ev_run_id e)), (''event'', JStr (runner_event_name (ev_event e))),
      (''at'', JTime (ev_at e))]
     @ optional_field ''case_code'' (map_option JStr (ev_case_code e))
     @ optional_field ''status'' (map_option (\<lambda>s. JStr (status_text s)) (ev_status e))
     @ concat (map (\<lambda>(n, v). optional_field n (map_option JInt v)) (progress_values (ev_progress e)))
     @ optional_field ''current_case_code'' (map_option JStr (ev_current_case_code e))"

definition find_run_case :: "uuid \<Rightarrow> string \<Rightarrow> db \<Rightarrow> run_case_row option" where
  "find_run_case i code d = find (\<lambda>c. c_run c = i \<and> c_case_code c = code) (run_cases d)"

definition set_case_status :: "run_case_row \<Rightarrow> status_value \<Rightarrow> db \<Rightarrow> db" where
  "set_case_status rc s d =
     d\<lparr>run_cases := update_where (\<lambda>c. c_run c = c_run rc \<and> c_case_id c = c_case_id rc)
        (\<lambda>c. c\<lparr>c_status := s\<rparr>) (run_cases d)\<rparr>"

definition track_case :: "run_row \<Rightarrow> runner_event \<Rightarrow> run_case_row option \<Rightarrow> db \<Rightarrow> db" where
  "track_case r e run_case d =
     (case run_case of
        None \<Rightarrow> d
      | Some rc \<Rightarrow>
          if terminal_status (r_status r) then d
          else if ev_event e = case_started then set_case_status rc (Value_of RUNNING) d
          else if ev_event e = case_finished then
            (case ev_status e of None \<Rightarrow> d | Some s \<Rightarrow> set_case_status rc s d)
          else d)"

definition record_run_event ::
  "txn \<Rightarrow> uuid \<Rightarrow> runner_event \<Rightarrow> db \<Rightarrow> service_error + db \<times> event_row \<times> bool" where
  "record_run_event x i e d =
     (if ev_run_id e \<noteq> i then Inl (InvalidRequest ''Run event run_id does not match URL'')
      else
      bind_outcome (run_or_404 d i) (\<lambda>r.
      let key = Key_runner (txn_digest x (Hash_runner_event e)) in
      case find_event i key (events d) of
        Some existing \<Rightarrow> Inr (d, existing, False)
      | None \<Rightarrow>
      let run_case = (case ev_case_code e of None \<Rightarrow> None | Some code \<Rightarrow> find_run_case i code d) in
      if ev_case_code e \<noteq> None \<and> run_case = None
      then Inl (InvalidRequest ''Run event case_code is not in the immutable Run Snapshot'')
      else if (case ev_current_case_code e of None \<Rightarrow> False
               | Some code \<Rightarrow> find_run_case i code d = None)
      then Inl (InvalidRequest ''Run progress current_case_code is not in the immutable Run Snapshot'')
      else
      let (es, event, created) = append_run_event i key RUNNER (Runner_event_of (ev_event e))
            (ev_at e) (ev_case_code e) (ev_status e) (runner_event_document e) (events d);
          d1 = d\<lparr>events := es\<rparr>;
          d2 = (if created then track_case r e run_case d1 else d1)
      in bind_outcome (commit d2) (\<lambda>d3. Inr (d3, event, created))))"

subsection \<open>Results\<close>

definition check_result_status :: "run_result \<Rightarrow> service_error + unit" where
  "check_result_status result =
     (let statuses = set (map cres_status (res_case_results result)) in
      if res_status result = PASSED \<and> statuses - {Case_PASSED, Case_SKIPPED} \<noteq> {}
      then Inl (InvalidRequest ''PASSED Run Result cannot contain failed case results'')
      else if res_status result = FAILED \<and> Case_FAILED \<notin> statuses
      then Inl (InvalidRequest ''FAILED Run Result requires at least one FAILED case'')
      else if res_status result = INFRA_ERROR \<and> Case_INFRA_ERROR \<notin> statuses
      then Inl (InvalidRequest ''INFRA_ERROR Run Result requires at least one INFRA_ERROR case'')
      else Inr ())"

definition check_result_cases :: "run_case_row list \<Rightarrow> run_result \<Rightarrow> service_error + unit" where
  "check_result_cases stored result =
     (let ids = map cres_case_id (res_case_results result) in
      if \<not> distinct ids then Inl (InvalidRequest ''Run Result contains duplicate case_id'')
      else if set ids \<noteq> set (map c_case_id stored)
      then Inl (InvalidRequest ''Run Result cases do not match the immutable Run Snapshot'')
      else bind_outcome (check_result_status result) (\<lambda>_.
      if (\<exists>c\<in>set (res_case_results result).
            (case lookup_row c_case_id (cres_case_id c) stored of
               None \<Rightarrow> True | Some rc \<Rightarrow> c_case_code rc \<noteq> cres_case_code c))
      then Inl (InvalidRequest ''Run Result case_code does not match stored case_id'')
      else Inr ()))"

definition check_result_artifacts :: "run_result \<Rightarrow> service_error + unit" where
  "check_result_artifacts result =
     (let ids = map art_id (res_artifacts result) in
      if \<not> distinct ids then Inl (InvalidRequest ''Run Result contains duplicate artifact_id'')
      else if (\<exists>c\<in>set (res_case_results result). \<exists>a\<in>set (cres_artifact_ids c). a \<notin> set ids)
      then Inl (InvalidRequest ''Run Result case references unknown artifact_id'')
      else Inr ())"

definition store_case_result :: "case_result list \<Rightarrow> run_case_row \<Rightarrow> run_case_row" where
  "store_case_result results rc =
     (case lookup_row cres_case_id (c_case_id rc) results of
        None \<Rightarrow> rc
      | Some c \<Rightarrow> rc\<lparr>c_status := case_status_value (cres_status c),
          c_duration_ms := Some (cres_duration_ms c),
          c_failure_category := cres_failure_category c,
          c_error_message := map_option Runner_message (cres_error_message c)\<rparr>)"

definition first_failure :: "case_result list \<Rightarrow> string option" where
  "first_failure results =
     (case find (\<lambda>c. case_failed c \<and> cres_error_message c \<notin> {None, Some []}) results of
        None \<Rightarrow> None | Some c \<Rightarrow> cres_error_message c)"

definition finish_run :: "run_result \<Rightarrow> digest \<Rightarrow> run_row \<Rightarrow> run_row" where
  "finish_run result digest r =
     r\<lparr>r_status := res_status result, r_started_at := Some (res_started_at result),
       r_timeout_at := None, r_finished_at := Some (res_finished_at result),
       r_result_digest := Some digest, r_result := Some result,
       r_error_message := map_option Runner_message (first_failure (res_case_results result))\<rparr>"

text \<open>The change request whose validation run this is follows the run's final status.\<close>

definition sync_validation :: "uuid \<Rightarrow> run_status \<Rightarrow> change_request_row list \<Rightarrow> change_request_row list" where
  "sync_validation i status rows =
     (case find (\<lambda>c. cr_validation_run c = Some i) rows of
        None \<Rightarrow> rows
      | Some c \<Rightarrow> update_row cr_id (cr_id c) (\<lambda>c. c\<lparr>cr_validation_status := Validation_run status\<rparr>) rows)"

definition result_details :: "run_result \<Rightarrow> digest \<Rightarrow> (string \<times> json) list" where
  "result_details result digest =
     [(''result_digest'', JStr digest), (''artifact_count'', JInt (int (length (res_artifacts result))))]"

definition store_result :: "txn \<Rightarrow> uuid \<Rightarrow> run_result \<Rightarrow> digest \<Rightarrow> run_row \<Rightarrow> db \<Rightarrow> db" where
  "store_result x i result digest r d =
     (store_run (finish_run result digest r) d)\<lparr>
        run_cases := update_where (\<lambda>c. c_run c = i) (store_case_result (res_case_results result)) (run_cases d),
        artifacts := artifacts d @ map (\<lambda>a. \<lparr>f_run = i, f_artifact = a, f_created_at = txn_now x\<rparr>)
          (res_artifacts result)\<rparr>"

definition announce_result :: "txn \<Rightarrow> uuid \<Rightarrow> run_result \<Rightarrow> digest \<Rightarrow> run_row \<Rightarrow> db \<Rightarrow> db" where
  "announce_result x i result digest r d =
     (let d1 = fst (release_runner_slot x i d);
          d2 = d1\<lparr>change_requests := sync_validation i (res_status result) (change_requests d1),
                 events := fst (append_run_event i (Key_result digest) SYSTEM Result_recorded_event
                   (res_finished_at result) None (Some (Value_of (res_status result)))
                   (result_details result digest) (events d1))\<rparr>;
          d3 = audit x RUNNER_ACTOR_ID ''run.result_recorded'' ''test_run'' i (Some (r_project r))
                 ((''status'', json_status (res_status result)) # result_details result digest) d2
      in enqueue_run_result_email x r d3)"

definition record_run_result ::
  "txn \<Rightarrow> uuid \<Rightarrow> run_result \<Rightarrow> db \<Rightarrow> service_error + db \<times> run_row \<times> bool" where
  "record_run_result x i result d =
     (if res_run_id result \<noteq> i then Inl (InvalidRequest ''Run Result run_id does not match URL'')
      else
      bind_outcome (run_or_404 d i) (\<lambda>r.
      let digest = txn_digest x (Hash_result result) in
      if r_result_digest r \<noteq> None then
        (if r_result_digest r = Some digest \<and> r_result r = Some result then Inr (d, r, False)
         else Inl (ResourceConflict ''Run Result is immutable and was already recorded''))
      else case require_run_transition (r_status r) (res_status result) of
        Inl _ \<Rightarrow> Inl (ResourceConflict ''invalid Run transition: {} -> {}'')
      | Inr _ \<Rightarrow>
      bind_outcome (check_result_cases (cases_of i (run_cases d)) result) (\<lambda>_.
      bind_outcome (check_result_artifacts result) (\<lambda>_.
      let r' = finish_run result digest r;
          d1 = store_result x i result digest r d
      in if \<not> unique_ok d1 then Inl Integrity_error
      else
      let d2 = announce_result x i result digest r' d1
      in if unique_ok d2 then Inr (d2, r', True)
         else bind_outcome (run_or_404 d i) (\<lambda>existing.
           if r_result_digest existing = Some digest then Inr (d, existing, False)
           else Inl (ResourceConflict ''Run Result artifacts conflict with existing records''))))))"

subsection \<open>Cancellation\<close>

definition cancel_record :: "txn \<Rightarrow> uuid \<Rightarrow> outbox_row" where
  "cancel_record x i =
     \<lparr>o_id = txn_uuid x (Draw_outbox i), o_aggregate = i, o_event_type = Run_cancel_requested,
      o_key = Key_run_cancel i, o_payload = Cancel_payload i None, o_status = Outbox_PENDING,
      o_attempts = 0, o_available_at = txn_now x, o_created_at = txn_now x,
      o_processed_at = None, o_last_error = None\<rparr>"

definition mark_canceled :: "instant \<Rightarrow> run_row \<Rightarrow> run_row" where
  "mark_canceled moment r =
     (if r_status r = QUEUED
      then r\<lparr>r_cancel_requested := True, r_status := CANCELED, r_finished_at := Some moment\<rparr>
      else r\<lparr>r_cancel_requested := True\<rparr>)"

definition cancel_effects :: "txn \<Rightarrow> run_row \<Rightarrow> db \<Rightarrow> db" where
  "cancel_effects x r d =
     (let r' = mark_canceled (txn_now x) r; d1 = store_run r' d in
      if r_status r = QUEUED
      then enqueue_run_result_email x r' (fst (release_runner_slot x (r_id r) d1)) else d1)"

definition announce_cancel :: "txn \<Rightarrow> uuid \<Rightarrow> run_row \<Rightarrow> db \<Rightarrow> db" where
  "announce_cancel x actor r d =
     (let r' = mark_canceled (txn_now x) r;
          details = status_payload (r_status r) (r_status r')
      in audit x actor ''run.cancel_requested'' ''test_run'' (r_id r) (Some (r_project r)) details
           (d\<lparr>events := fst (append_run_event (r_id r) Key_cancel_requested SYSTEM Cancel_requested_event
                (txn_now x) None (Some (Value_of (r_status r'))) details (events d)),
              outbox := outbox d @ [cancel_record x (r_id r)]\<rparr>))"

definition request_cancel :: "txn \<Rightarrow> uuid \<Rightarrow> run_row \<Rightarrow> db \<Rightarrow> service_error + db \<times> bool" where
  "request_cancel x actor r d =
     (if terminal_status (r_status r) \<or> r_cancel_requested r then Inr (d, False)
      else if \<not> unique_ok (cancel_effects x r d) then Inl Integrity_error
      else Inr (announce_cancel x actor r (cancel_effects x r d), True))"

definition cancel_run :: "txn \<Rightarrow> uuid \<Rightarrow> uuid \<Rightarrow> db \<Rightarrow> service_error + db \<times> run_row" where
  "cancel_run x i actor d =
     bind_outcome (run_or_404 d i) (\<lambda>r.
     bind_outcome (request_cancel x actor r d) (\<lambda>(d1, changed).
     if \<not> changed then Inr (d, r)
     else if unique_ok d1 then bind_outcome (run_or_404 d1 i) (\<lambda>r'. Inr (d1, r'))
     else Inr (d, r)))"

fun cancel_each :: "txn \<Rightarrow> uuid \<Rightarrow> uuid list \<Rightarrow> db \<Rightarrow> service_error + db \<times> nat" where
  "cancel_each x actor [] d = Inr (d, 0)"
| "cancel_each x actor (i # is) d =
     bind_outcome (run_or_404 d i) (\<lambda>r.
     bind_outcome (request_cancel x actor r d) (\<lambda>(d1, changed).
     bind_outcome (cancel_each x actor is d1) (\<lambda>(d2, n).
     Inr (d2, if changed then Suc n else n))))"

definition cancel_runs :: "txn \<Rightarrow> uuid \<Rightarrow> uuid list \<Rightarrow> uuid \<Rightarrow> db \<Rightarrow> service_error + db \<times> nat" where
  "cancel_runs x project ids actor d =
     bind_outcome (project_or_404 d project) (\<lambda>_.
     let by_id = filter (\<lambda>r. r_id r \<in> set ids \<and> r_project r = project) (runs d) in
     if length by_id \<noteq> length ids
     then Inl (ResourceNotFound ''one or more Runs were not found in project'')
     else bind_outcome (cancel_each x actor ids d) (\<lambda>(d1, changed).
       if changed \<noteq> 0 then bind_outcome (commit d1) (\<lambda>d2. Inr (d2, changed)) else Inr (d, 0)))"

subsection \<open>Every service keeps the invariant\<close>

lemma append_run_event_runs:
  "v_run ` set (fst (append_run_event i k src t m c st p es)) \<subseteq> insert i (v_run ` set es)"
  by (auto simp: append_run_event_def Let_def split: option.split)

lemma event_log_step:
  assumes "control_ok d" "lookup_row r_id i (runs d) = Some r" "events d0 = events d"
  shows "log_ok (fst (append_run_event i k src t m c st p (events d0)))"
    "v_run ` set (fst (append_run_event i k src t m c st p (events d0))) \<subseteq> r_id ` set (runs d)"
proof -
  show "log_ok (fst (append_run_event i k src t m c st p (events d0)))"
    by (rule run_event.keeps_log_ok) (simp_all add: assms(3) control_okD(3) [OF assms(1)])
  have "i \<in> r_id ` set (runs d)" using lookup_row_SomeD [OF assms(2)] by auto
  then have "insert i (v_run ` set (events d)) \<subseteq> r_id ` set (runs d)"
    using control_okD(2) [OF assms(1)] by (simp add: refs_ok_def)
  with append_run_event_runs [of i k src t m c st p "events d0"]
  show "v_run ` set (fst (append_run_event i k src t m c st p (events d0))) \<subseteq> r_id ` set (runs d)"
    unfolding assms(3) by (rule order_trans)
qed

lemma slots_ok_worker:
  "slots_ok rows ls \<Longrightarrow> slots_ok rows (update_row l_id j (\<lambda>l. l\<lparr>l_worker := w\<rparr>) ls)"
proof -
  have "map l_run (filter active_lease (update_where P (\<lambda>l. l\<lparr>l_worker := w\<rparr>) ls)) = map l_run (filter active_lease ls)" for P
    by (induction ls) (auto simp: row_simps active_lease_def)
  then show "slots_ok rows ls \<Longrightarrow> slots_ok rows (update_row l_id j (\<lambda>l. l\<lparr>l_worker := w\<rparr>) ls)"
    by (auto simp: slots_ok_def update_row_def unique_on_def in_set_update_where lease_ok_def active_lease_def
        split: if_split_asm)
qed

lemma bind_runner_slot_frame:
  assumes "bind_runner_slot x r wk d = Inr (d1, bound)"
  shows "runs d1 = runs d" "run_cases d1 = run_cases d" "events d1 = events d" "outbox d1 = outbox d"
    "slots_ok rows (leases d) \<Longrightarrow> slots_ok rows (leases d1)" "\<not> bound \<Longrightarrow> d1 = d"
  using assms
  by (auto simp: bind_runner_slot_def slots_ok_worker split: option.splits if_split_asm)

lemma control_ok_slots: "control_ok d \<Longrightarrow> slots_ok (runs d) (leases d)"
  by (simp add: control_ok_def slots_ok_def)

lemma control_ok_leases:
  assumes "control_ok d" "unique_ok d'" "runs d' = runs d" "run_cases d' = run_cases d"
    "events d' = events d" "outbox d' = outbox d" "slots_ok (runs d) (leases d')"
  shows "control_ok d'"
  using assms by (simp add: control_ok_def refs_ok_def slots_ok_def)

lemma update_run_status_Inr:
  assumes "update_run_status x i target wk d = Inr (d', r', changed)"
  obtains
    (same) "\<not> changed" "lookup_row r_id i (runs d) = Some r'" "r_status r' = target"
      "d' = d \<or> (unique_ok d' \<and> bind_runner_slot x r' wk d = Inr (d', True))"
  | (moved) r d1 bound where "changed" "lookup_row r_id i (runs d) = Some r"
      "target \<in> {PREPARING, RUNNING}" "target \<in> set (allowed_run_transitions (r_status r))"
      "r' = enter_status (txn_now x) target r" "bind_runner_slot x r wk d = Inr (d1, bound)"
      "unique_ok d'" "d' = move_run x r target d1"
proof -
  obtain r where r: "lookup_row r_id i (runs d) = Some r" and target: "target \<in> {PREPARING, RUNNING}"
    using assms by (auto simp: update_run_status_def outcome_simps simp del: insert_iff split: if_split_asm)
  then obtain d1 bound where b: "bind_runner_slot x r wk d = Inr (d1, bound)"
    using assms by (auto simp: update_run_status_def run_or_404_def outcome_simps simp del: insert_iff split: if_split_asm)
  have id: "r_id r = i" using lookup_row_SomeD [OF r] by simp
  show thesis
  proof (cases "r_status r = target")
    case True
    have "\<not> changed" "r' = r" "d' = d \<or> unique_ok d' \<and> bind_runner_slot x r' wk d = Inr (d', True)"
      using assms target r b True
      by (auto simp: update_run_status_def run_or_404_def outcome_simps split: if_split_asm)
    with r True show thesis by (intro same) auto
  next
    case False
    then have "target \<in> set (allowed_run_transitions (r_status r))"
      using assms target r b
      by (auto simp: update_run_status_def run_or_404_def require_run_transition_def split: if_split_asm)
    moreover from this False have "changed \<and> r' = enter_status (txn_now x) target r \<and> unique_ok d'
        \<and> d' = move_run x r target d1"
      using assms target r b
      by (auto simp: update_run_status_def run_or_404_def require_run_transition_def outcome_simps)
    ultimately show thesis
      using target r b by (intro moved [of r d1 bound]) blast+
  qed
qed

lemma move_run_frame:
  "runs (move_run x r target d) = runs (store_run (enter_status (txn_now x) target r) d)"
  "run_cases (move_run x r target d) = run_cases d" "outbox (move_run x r target d) = outbox d"
  "leases (move_run x r target d) = leases d"
  "events (move_run x r target d) = fst (append_run_event (r_id r) (Key_status target) SYSTEM
     Status_changed_event (txn_now x) None (Some (Value_of target))
     (status_payload (r_status r) target) (events d))"
  by (simp_all add: move_run_def Let_def store_run_def)

lemma run_row_ok_enter:
  assumes "run_row_ok r" "target \<in> {PREPARING, RUNNING}" "target \<in> set (allowed_run_transitions (r_status r))"
  shows "run_row_ok (enter_status moment target r)" "run_changes r (enter_status moment target r)"
proof -
  have move: "r_status r = QUEUED \<and> target = PREPARING \<or> r_status r = PREPARING \<and> target = RUNNING"
    using assms(2,3) by (cases "r_status r") auto
  then have "r_result r = None" "r_result_digest r = None" "r_finished_at r = None"
    using assms(1) unfolding run_row_ok_def by force+
  then show "run_row_ok (enter_status moment target r)"
    using move unfolding run_row_ok_def enter_status_def
    by (elim disjE conjE) (simp_all split: option.split)
  show "run_changes r (enter_status moment target r)"
    using assms(3) \<open>r_result_digest r = None\<close>
    by (simp add: enter_status_def run_changes_def run_moves_step)
qed

lemma update_run_status_service:
  assumes call: "update_run_status x i target wk d = Inr (d', r', changed)" and ok: "control_ok d"
  shows "control_ok d' \<and> runs_evolve (runs d) (runs d')"
  using call
proof (cases rule: update_run_status_Inr)
  case same
  from same(4) show ?thesis
  proof
    assume "unique_ok d' \<and> bind_runner_slot x r' wk d = Inr (d', True)"
    with bind_runner_slot_frame [of x r' wk d d' True] ok show ?thesis
      by (auto intro!: control_ok_leases [OF ok] control_ok_slots)
  qed (use ok in simp)
next
  case (moved r d1 bound)
  note fr = bind_runner_slot_frame [OF moved(6)]
  have "r \<in> set (runs d)" "r_id r = i" using lookup_row_SomeD [OF moved(2)] by simp_all
  then have row: "run_row_ok r'" "run_changes r r'" "r_id r' = i"
    using run_row_ok_enter [OF control_okD(4) [OF ok] moved(3,4)] moved(5)
    by (auto simp: enter_status_def)
  have rs: "runs d' = runs (store_run r' d)"
    using moved(5,8) fr(1) by (simp add: move_run_frame store_run_def)
  have "\<not> terminal_status (r_status r')"
    using moved(3) by (auto simp: moved(5) enter_status_def)
  then have "slots_ok (runs (store_run r' d)) (leases d)"
    using ok moved(2) row by (intro slots_ok_store) auto
  then have "slots_ok (runs d') (leases d')"
    using fr(5) by (simp add: rs) (simp add: moved(8) move_run_frame)
  then show ?thesis
    using ok moved(2,7) row rs event_log_step [OF ok moved(2) fr(3)] fr \<open>r_id r = i\<close>
    by (intro control_ok_step [where r = r and s = r']) (simp_all add: moved(8) move_run_frame)
qed

lemma store_run_same:
  assumes "control_ok d" "lookup_row r_id (r_id r) (runs d) = Some r"
  shows "runs (store_run r d) = runs d"
  using map_runs_store_run [of r d r "\<lambda>q. q"] assms control_okD(9) by simp

lemma track_case_frame:
  "runs (track_case r e rc d) = runs d" "events (track_case r e rc d) = events d"
  "outbox (track_case r e rc d) = outbox d" "leases (track_case r e rc d) = leases d"
  "map case_columns (run_cases (track_case r e rc d)) = map case_columns (run_cases d)"
  by (simp_all add: track_case_def set_case_status_def map_update_where case_columns_def split: option.split)

lemma record_run_event_Inr:
  assumes "record_run_event x i e d = Inr (d', event, created)"
  obtains
    (known) "\<not> created" "d' = d" "find_event i (Key_runner (txn_digest x (Hash_runner_event e))) (events d) = Some event"
  | (added) r rc where "created" "lookup_row r_id i (runs d) = Some r" "unique_ok d'"
      "find_event i (Key_runner (txn_digest x (Hash_runner_event e))) (events d) = None"
      "ev_case_code e \<noteq> None \<longrightarrow> rc \<noteq> None"
      "d' = track_case r e rc (d\<lparr>events := fst (append_run_event i (Key_runner (txn_digest x (Hash_runner_event e)))
         RUNNER (Runner_event_of (ev_event e)) (ev_at e) (ev_case_code e) (ev_status e)
         (runner_event_document e) (events d))\<rparr>)"
proof -
  let ?k = "Key_runner (txn_digest x (Hash_runner_event e))"
  let ?rc = "case ev_case_code e of None \<Rightarrow> None | Some code \<Rightarrow> find_run_case i code d"
  obtain r where r: "lookup_row r_id i (runs d) = Some r" and url: "ev_run_id e = i"
    using assms by (auto simp: record_run_event_def outcome_simps split: if_split_asm)
  show thesis
  proof (cases "find_event i ?k (events d)")
    case (Some a)
    then have "\<not> created" "d' = d" "a = event"
      using assms r url by (auto simp: record_run_event_def run_or_404_def Let_def)
    with Some show thesis by (intro known) simp_all
  next
    case None
    let ?app = "append_run_event i ?k RUNNER (Runner_event_of (ev_event e)) (ev_at e) (ev_case_code e)
        (ev_status e) (runner_event_document e) (events d)"
    obtain es ev c where app: "?app = (es, ev, c)" by (cases ?app) auto
    have "c" using append_run_event_created(1) [OF app] None by simp
    with assms r url None app
    have "created \<and> (ev_case_code e \<noteq> None \<longrightarrow> ?rc \<noteq> None) \<and> unique_ok d'
        \<and> d' = track_case r e ?rc (d\<lparr>events := es\<rparr>)"
      by (auto simp: record_run_event_def run_or_404_def Let_def outcome_simps simp del: not_None_eq not_Some_eq)
    with None r app show thesis by (intro added [of r ?rc]) auto
  qed
qed

lemma record_run_event_service:
  assumes call: "record_run_event x i e d = Inr (d', event, created)" and ok: "control_ok d"
  shows "control_ok d' \<and> runs_evolve (runs d) (runs d')"
  using call
proof (cases rule: record_run_event_Inr)
  case known
  with ok show ?thesis by simp
next
  case (added r rc)
  have id: "r_id r = i" "r \<in> set (runs d)" using lookup_row_SomeD [OF added(2)] by simp_all
  have same: "runs d' = runs (store_run r d)"
    using store_run_same [OF ok, of r] added(2) id by (simp add: added(6) track_case_frame)
  show ?thesis
    using ok added(2,3) id same event_log_step [OF ok added(2) refl] control_okD(4) [OF ok]
      control_ok_slots [OF ok] store_run_same [OF ok, of r]
    by (intro control_ok_step [where r = r and s = r]) (simp_all add: added(6) track_case_frame)
qed

lemma close_slot_frame:
  "runs (fst (release_runner_slot x i d)) = runs d" "run_cases (fst (release_runner_slot x i d)) = run_cases d"
  "events (fst (release_runner_slot x i d)) = events d" "outbox (fst (release_runner_slot x i d)) = outbox d"
  "change_requests (fst (release_runner_slot x i d)) = change_requests d"
  "leases (fst (release_runner_slot x i d)) = fst (close_slot Lease_RELEASED (txn_now x) i (leases d))"
  by (simp_all add: release_runner_slot_def split_beta Let_def)

lemma store_result_frame:
  "runs (store_result x i result h r d) = runs (store_run (finish_run result h r) d)"
  "events (store_result x i result h r d) = events d" "outbox (store_result x i result h r d) = outbox d"
  "leases (store_result x i result h r d) = leases d"
  "map case_columns (run_cases (store_result x i result h r d)) = map case_columns (run_cases d)"
proof -
  have "case_columns (store_case_result rs c) = case_columns c" for rs c
    by (simp add: store_case_result_def case_columns_def split: option.split)
  then show "map case_columns (run_cases (store_result x i result h r d)) = map case_columns (run_cases d)"
    by (simp add: store_result_def map_update_where)
qed (simp_all add: store_result_def store_run_def)

lemma announce_result_frame:
  "runs (announce_result x i result h r d) = runs d"
  "run_cases (announce_result x i result h r d) = run_cases d"
  "outbox (announce_result x i result h r d) = outbox d"
  "leases (announce_result x i result h r d) = fst (close_slot Lease_RELEASED (txn_now x) i (leases d))"
  "events (announce_result x i result h r d) = fst (append_run_event i (Key_result h) SYSTEM
     Result_recorded_event (res_finished_at result) None (Some (Value_of (res_status result)))
     (result_details result h) (events d))"
  by (simp_all add: announce_result_def Let_def close_slot_frame)

lemma record_run_result_Inr:
  assumes "record_run_result x i result d = Inr (d', r', created)"
  obtains
    (known) "\<not> created" "d' = d" "lookup_row r_id i (runs d) = Some r'"
      "r_result_digest r' = Some (txn_digest x (Hash_result result))" "r_result r' = Some result"
  | (recorded) r where "created" "lookup_row r_id i (runs d) = Some r" "r_result_digest r = None"
      "res_run_id result = i" "res_status result \<in> set (allowed_run_transitions (r_status r))"
      "check_result_cases (cases_of i (run_cases d)) result = Inr ()" "check_result_artifacts result = Inr ()"
      "r' = finish_run result (txn_digest x (Hash_result result)) r" "unique_ok d'"
      "d' = announce_result x i result (txn_digest x (Hash_result result)) r'
         (store_result x i result (txn_digest x (Hash_result result)) r d)"
proof -
  let ?h = "txn_digest x (Hash_result result)"
  obtain r where r: "lookup_row r_id i (runs d) = Some r" and url: "res_run_id result = i"
    using assms by (auto simp: record_run_result_def outcome_simps split: if_split_asm)
  show thesis
  proof (cases "r_result_digest r")
    case (Some h)
    then have "\<not> created \<and> d' = d \<and> r' = r \<and> h = ?h \<and> r_result r = Some result"
      using assms r url by (simp add: record_run_result_def run_or_404_def Let_def split: if_split_asm)
    with Some r show thesis by (intro known) simp_all
  next
    case None
    have allowed: "res_status result \<in> set (allowed_run_transitions (r_status r))"
      using assms r url None
      by (simp add: record_run_result_def run_or_404_def require_run_transition_def Let_def split: if_split_asm)
    then have checks: "check_result_cases (cases_of i (run_cases d)) result = Inr ()"
      "check_result_artifacts result = Inr ()"
      using assms r url None
      by (auto simp: record_run_result_def run_or_404_def require_run_transition_def Let_def outcome_simps)
    let ?d = "announce_result x i result ?h (finish_run result ?h r) (store_result x i result ?h r d)"
    have "created \<and> r' = finish_run result ?h r \<and> unique_ok d' \<and> d' = ?d"
      using assms r url None allowed checks
      by (auto simp: record_run_result_def run_or_404_def require_run_transition_def Let_def split: if_split_asm)
    with r None url allowed checks show thesis by (intro recorded [of r]) blast+
  qed
qed

lemma run_row_ok_finish:
  assumes "run_row_ok r" "res_status result \<in> set (allowed_run_transitions (r_status r))"
    and "terminal_status (res_status result)" "res_run_id result = r_id r"
  shows "run_row_ok (finish_run result h r)"
proof -
  have "res_status result \<notin> {QUEUED, PREPARING, RUNNING}"
    using assms(3) by auto
  with assms(3,4) show ?thesis by (simp add: run_row_ok_def finish_run_def)
qed

lemma record_run_result_service:
  assumes call: "record_run_result x i result d = Inr (d', r', created)" and ok: "control_ok d"
    and final: "terminal_status (res_status result)"
  shows "control_ok d' \<and> runs_evolve (runs d) (runs d')"
  using call
proof (cases rule: record_run_result_Inr)
  case known
  with ok show ?thesis by simp
next
  case (recorded r)
  let ?h = "txn_digest x (Hash_result result)"
  have id: "r_id r = i" "r \<in> set (runs d)" using lookup_row_SomeD [OF recorded(2)] by simp_all
  have s: "r_id r' = i" by (simp add: recorded(8) finish_run_def id)
  have "run_row_ok r'"
    using run_row_ok_finish [OF control_okD(4) [OF ok id(2)] recorded(5) final] recorded(4) id
    by (simp add: recorded(8))
  moreover have "run_changes r r'"
    using recorded(3,5) by (simp add: recorded(8) run_changes_def finish_run_def run_moves_step)
  moreover have rs: "runs d' = runs (store_run r' d)"
    by (simp add: recorded(8,10) announce_result_frame store_result_frame)
  moreover have "slots_ok (runs d') (leases d')"
    using slots_ok_close [OF ok, of Lease_RELEASED r' "txn_now x"]
    by (simp add: rs s) (simp add: recorded(10) announce_result_frame store_result_frame)
  ultimately show ?thesis
    using ok recorded(2,9) s event_log_step [OF ok recorded(2), of "store_result x i result ?h r d"]
    by (intro control_ok_step [where r = r and s = r'])
      (simp_all add: recorded(10) announce_result_frame store_result_frame)
qed

lemma cancel_effects_frame:
  "runs (cancel_effects x r d) = runs (store_run (mark_canceled (txn_now x) r) d)"
  "run_cases (cancel_effects x r d) = run_cases d" "events (cancel_effects x r d) = events d"
  "outbox (cancel_effects x r d) = outbox d"
  "leases (cancel_effects x r d) = (if r_status r = QUEUED
     then fst (close_slot Lease_RELEASED (txn_now x) (r_id r) (leases d)) else leases d)"
  by (simp_all add: cancel_effects_def Let_def close_slot_frame)

lemma announce_cancel_frame:
  "runs (announce_cancel x actor r d) = runs d" "run_cases (announce_cancel x actor r d) = run_cases d"
  "leases (announce_cancel x actor r d) = leases d"
  "outbox (announce_cancel x actor r d) = outbox d @ [cancel_record x (r_id r)]"
  "artifacts (announce_cancel x actor r d) = artifacts d"
  "events (announce_cancel x actor r d) = fst (append_run_event (r_id r) Key_cancel_requested SYSTEM
     Cancel_requested_event (txn_now x) None (Some (Value_of (r_status (mark_canceled (txn_now x) r))))
     (status_payload (r_status r) (r_status (mark_canceled (txn_now x) r))) (events d))"
  by (simp_all add: announce_cancel_def Let_def)

lemma unique_ok_same_but_runs:
  assumes "unique_ok d" "unique_runs d'"
    and "d' = d\<lparr>events := es, outbox := os, audit_log := al\<rparr>"
  shows "unique_ok d'"
  using assms(1,2)
  unfolding assms(3) unique_ok_def unique_people_def unique_assets_def unique_packages_def
    unique_runners_def unique_schedules_def unique_quality_def by simp

lemma mark_canceled_row:
  assumes "run_row_ok r" "\<not> terminal_status (r_status r)"
  shows "run_row_ok (mark_canceled t r)" "run_changes r (mark_canceled t r)"
    "r_cancel_requested (mark_canceled t r)" "r_id (mark_canceled t r) = r_id r"
    "terminal_status (r_status (mark_canceled t r)) \<longleftrightarrow> r_status r = QUEUED"
proof -
  have "r_result r = None" "r_result_digest r = None" "r_finished_at r = None"
    using assms by (auto simp: run_row_ok_def)
  with assms show "run_row_ok (mark_canceled t r)"
    by (cases "r_status r = QUEUED") (simp_all add: run_row_ok_def mark_canceled_def)
  show "run_changes r (mark_canceled t r)"
    using \<open>r_result_digest r = None\<close> by (simp add: run_changes_def mark_canceled_def run_moves_step)
qed (use assms in \<open>simp_all add: mark_canceled_def\<close>)

lemma request_cancel_service:
  assumes call: "request_cancel x actor r d = Inr (d', changed)" and ok: "control_ok d"
    and r: "lookup_row r_id (r_id r) (runs d) = Some r"
  shows "control_ok d' \<and> runs_evolve (runs d) (runs d')"
proof (cases "terminal_status (r_status r) \<or> r_cancel_requested r")
  case True
  then have "d' = d" using call unfolding request_cancel_def by simp
  with ok show ?thesis by simp
next
  case False
  let ?s = "mark_canceled (txn_now x) r" and ?e = "cancel_effects x r d"
  have u: "unique_ok ?e" and d': "d' = announce_cancel x actor r ?e"
    using call False unfolding request_cancel_def by (auto split: if_split_asm)
  have mem: "r \<in> set (runs d)" using lookup_row_SomeD [OF r] by simp
  note row = mark_canceled_row [OF control_okD(4) [OF ok mem], of "txn_now x"]
  note log = event_log_step [OF ok r, of ?e, simplified cancel_effects_frame, OF refl]
  have rs: "runs d' = runs (store_run ?s d)"
    by (simp add: d' announce_cancel_frame cancel_effects_frame)
  have log': "log_ok (events d')" "v_run ` set (events d') \<subseteq> r_id ` set (runs d)"
    using log by (simp_all add: d' announce_cancel_frame cancel_effects_frame)
  have fresh: "Key_run_cancel (r_id r) \<notin> o_key ` set (outbox d)"
  proof
    assume "Key_run_cancel (r_id r) \<in> o_key ` set (outbox d)"
    then obtain o' where "o' \<in> set (outbox d)" "o_key o' = Key_run_cancel (r_id r)" by auto
    with control_okD(10) [OF ok this(1)]
    obtain q where "q \<in> set (runs d)" "r_id q = r_id r" "r_cancel_requested q"
      by (auto simp: outbox_key_ok_def)
    then show False
      using unique_on_eq [OF control_okD(9) [OF ok] _ mem] False by auto
  qed
  have "unique_runs d'"
    using u fresh log_ok_unique [OF log'(1)]
    by (simp add: unique_ok_def unique_runs_def d' announce_cancel_frame cancel_effects_frame row_simps
        cancel_record_def)
  then have "unique_ok d'"
    by (rule unique_ok_same_but_runs [OF u]) (simp add: d' announce_cancel_def Let_def audit_def)
  moreover have "slots_ok (runs d') (leases d')"
  proof (cases "r_status r = QUEUED")
    case True
    have "slots_ok (runs (store_run ?s d)) (fst (close_slot Lease_RELEASED (txn_now x) (r_id ?s) (leases d)))"
      by (rule slots_ok_close [OF ok]) simp
    with True False row(4) show ?thesis
      by (simp add: rs) (simp add: d' announce_cancel_frame cancel_effects_frame)
  next
    case queued: False
    then have "slots_ok (runs (store_run ?s d)) (leases d)"
      using ok r row False by (intro slots_ok_store) auto
    with queued show ?thesis
      by (simp add: rs) (simp add: d' announce_cancel_frame cancel_effects_frame)
  qed
  ultimately show ?thesis
    using ok r row False rs log'
    by (intro control_ok_step [where r = r and s = ?s])
      (auto simp: d' announce_cancel_frame cancel_effects_frame cancel_record_def)
qed

lemma cancel_run_Inr:
  assumes "cancel_run x i actor d = Inr (d', r')"
  obtains r d1 changed where "lookup_row r_id i (runs d) = Some r" "r_id r = i"
    "request_cancel x actor r d = Inr (d1, changed)"
    "(\<not> changed \<or> \<not> unique_ok d1) \<and> d' = d \<and> r' = r
     \<or> changed \<and> unique_ok d1 \<and> d' = d1 \<and> lookup_row r_id i (runs d1) = Some r'"
proof -
  obtain r d1 changed where call: "lookup_row r_id i (runs d) = Some r"
    "request_cancel x actor r d = Inr (d1, changed)"
    using assms by (auto simp: cancel_run_def outcome_simps)
  moreover have "(\<not> changed \<or> \<not> unique_ok d1) \<and> d' = d \<and> r' = r
     \<or> changed \<and> unique_ok d1 \<and> d' = d1 \<and> lookup_row r_id i (runs d1) = Some r'"
    using assms call by (auto simp: cancel_run_def run_or_404_def outcome_simps split: if_split_asm)
  ultimately show thesis using lookup_row_SomeD [OF call(1)] that by blast
qed

lemma cancel_run_service:
  assumes "cancel_run x i actor d = Inr (d', r')" and ok: "control_ok d"
  shows "control_ok d' \<and> runs_evolve (runs d) (runs d')"
  using assms(1)
proof (cases rule: cancel_run_Inr)
  case (1 r d1 changed)
  from request_cancel_service [OF 1(3) ok] 1(1,2)
  have "control_ok d1 \<and> runs_evolve (runs d) (runs d1)" by simp
  with 1(4) ok show ?thesis by auto
qed

lemma cancel_each_service:
  assumes "cancel_each x actor is d = Inr (d', n)" and "control_ok d"
  shows "control_ok d' \<and> runs_evolve (runs d) (runs d')"
  using assms
proof (induction "is" arbitrary: d n)
  case (Cons i "is")
  obtain r d1 changed m where call: "lookup_row r_id i (runs d) = Some r"
    "request_cancel x actor r d = Inr (d1, changed)" "cancel_each x actor is d1 = Inr (d', m)"
    using Cons.prems(1) by (auto simp: outcome_simps)
  have "lookup_row r_id (r_id r) (runs d) = Some r"
    using lookup_row_SomeD [OF call(1)] call(1) by simp
  from request_cancel_service [OF call(2) Cons.prems(2) this]
  have step: "control_ok d1" "runs_evolve (runs d) (runs d1)" by simp_all
  with Cons.IH [OF call(3)] show ?case by (blast intro: runs_evolve_trans)
qed simp

lemma cancel_runs_service:
  assumes call: "cancel_runs x project ids actor d = Inr (d', n)" and ok: "control_ok d"
  shows "control_ok d' \<and> runs_evolve (runs d) (runs d')"
proof -
  obtain d1 m where each: "cancel_each x actor ids d = Inr (d1, m)" and "d' = d1 \<or> d' = d"
    using call by (auto simp: cancel_runs_def Let_def outcome_simps split: if_split_asm)
  with cancel_each_service [OF each ok] ok show ?thesis by auto
qed

text \<open>One call of this component; a result document passed its schema, so its status is terminal.\<close>

definition run_execution :: "db \<Rightarrow> db \<Rightarrow> bool" where
  "run_execution d d' \<longleftrightarrow>
     (\<exists>x i target wk r c. update_run_status x i target wk d = Inr (d', r, c))
     \<or> (\<exists>x i e ev c. record_run_event x i e d = Inr (d', ev, c))
     \<or> (\<exists>x i doc result r c. parse_result doc = Inr result \<and> record_run_result x i result d = Inr (d', r, c))
     \<or> (\<exists>x i actor r. cancel_run x i actor d = Inr (d', r))
     \<or> (\<exists>x p is actor n. cancel_runs x p is actor d = Inr (d', n))"

lemma run_execution_service:
  assumes "run_execution d d'" "control_ok d"
  shows "control_ok d' \<and> runs_evolve (runs d) (runs d')"
proof -
  have "terminal_status (res_status result)" if "parse_result doc = Inr result" for doc result
    using parse_result_Inr(1) [OF that] by (auto simp: terminal_statuses_def TERMINAL_RUN_STATUSES_def)
  note final = this
  show ?thesis
    using assms(1) unfolding run_execution_def
  proof (elim disjE exE conjE)
    fix x i target wk r c
    assume "update_run_status x i target wk d = Inr (d', r, c)"
    then show ?thesis using assms(2) by (rule update_run_status_service)
  next
    fix x i e ev c
    assume "record_run_event x i e d = Inr (d', ev, c)"
    then show ?thesis using assms(2) by (rule record_run_event_service)
  next
    fix x i doc result r c
    assume doc: "parse_result doc = Inr result" and call: "record_run_result x i result d = Inr (d', r, c)"
    show ?thesis by (rule record_run_result_service [OF call assms(2) final [OF doc]])
  next
    fix x i actor r
    assume "cancel_run x i actor d = Inr (d', r)"
    then show ?thesis using assms(2) by (rule cancel_run_service)
  next
    fix x p "is" actor n
    assume "cancel_runs x p is actor d = Inr (d', n)"
    then show ?thesis using assms(2) by (rule cancel_runs_service)
  qed
qed

interpretation execution: run_service run_execution
  by unfold_locales (blast dest: run_execution_service)+

end
