(* ===== verification/Run_Outcomes.thy ===== *)
theory Run_Outcomes
  imports Run_Execution
begin

section \<open>What the callbacks and the cancellation of a run promise\<close>

text \<open>
  Properties of \<open>update_run_status\<close>, \<open>record_run_event\<close>, \<open>record_run_result\<close> and \<open>cancel_run\<close>
  (theory \<open>Run_Execution\<close>), with witnesses that run the services on the installation of
  \<open>Scenario\<close> with its one run.
\<close>

subsection \<open>A result and an event\<close>

definition demo_case_result :: "uuid \<Rightarrow> string \<Rightarrow> case_result_status \<Rightarrow> case_result" where
  "demo_case_result i code status = \<lparr>cres_case_id = i, cres_case_code = code, cres_status = status,
     cres_started_at = microseconds 1003, cres_finished_at = microseconds 1004,
     cres_duration_ms = 1000,
     cres_failure_category = (if status = Case_FAILED then Some ''assertion'' else None),
     cres_error_message = (if status = Case_FAILED then Some ''boom'' else None),
     cres_artifact_ids = []\<rparr>"

definition demo_result :: "run_status \<Rightarrow> case_result_status \<Rightarrow> run_result" where
  "demo_result status first = \<lparr>res_run_id = 200, res_status = status,
     res_started_at = microseconds 1002, res_finished_at = microseconds 1005,
     res_runner_version = ''1'',
     res_case_results = [demo_case_result 101 ''TC-A'' first, demo_case_result 102 ''TC-B'' Case_PASSED],
     res_artifacts = [], res_isolation = None\<rparr>"

lemma demo_finds: "lookup_row r_id 200 (runs (demo_run_db status ls)) = Some (demo_run status)"
  by (simp add: demo_run_db_def demo_run_def row_simps)

text \<open>The calls of the witnesses, evaluated together.\<close>

abbreviation demo_failed_db :: db where
  "demo_failed_db \<equiv> (demo_run_db RUNNING [])\<lparr>runs := [(demo_run RUNNING)\<lparr>r_status := FAILED,
     r_result := Some (demo_result FAILED Case_FAILED), r_result_digest := Some ''t''\<rparr>]\<rparr>"

lemma demo_calls:
  "created_run (record_run_result (demo_txn 1005 400) 200
      (demo_result FAILED Case_FAILED) (demo_run_db RUNNING [demo_lease (Some 70)]))
    \<and> created_run (update_run_status (demo_txn 1001 300) 200 PREPARING (Some ''w-1'') (demo_run_db QUEUED [demo_lease None]))
    \<and> created_run (create_rerun (demo_txn 2000 300) 200 FAILED_ONLY ''again'' 2 demo_failed_db)
    \<and> (case cancel_run (demo_txn 1001 300) 200 2 (demo_run_db QUEUED []) of
          Inl _ \<Rightarrow> False | Inr (_, r) \<Rightarrow> r_status r = CANCELED \<and> r_result_digest r = None)
    \<and> parse_snapshot demo_snapshot = Inr demo_snapshot"
  by code_simp

lemma demo_records: "created_run (record_run_result (demo_txn 1005 400) 200
    (demo_result FAILED Case_FAILED) (demo_run_db RUNNING [demo_lease (Some 70)]))"
  and demo_prepares: "created_run (update_run_status (demo_txn 1001 300) 200 PREPARING (Some ''w-1'')
    (demo_run_db QUEUED [demo_lease None]))"
  and demo_reruns: "created_run (create_rerun (demo_txn 2000 300) 200 FAILED_ONLY ''again'' 2 demo_failed_db)"
  and demo_cancels: "case cancel_run (demo_txn 1001 300) 200 2 (demo_run_db QUEUED []) of
    Inl _ \<Rightarrow> False | Inr (_, r) \<Rightarrow> r_status r = CANCELED \<and> r_result_digest r = None"
  and demo_snapshot_parses: "parse_snapshot demo_snapshot = Inr demo_snapshot"
  using demo_calls by blast+

subsection \<open>Results\<close>

lemma record_run_result_row:
  assumes "record_run_result x i result d = Inr (d', r', c)"
  shows "lookup_row r_id i (runs d') = Some r'"
    "r_result_digest r' = Some (txn_digest x (Hash_result result))" "r_result r' = Some result"
    "res_run_id result = i"
proof -
  have url: "res_run_id result = i" using assms by (auto simp: record_run_result_def split: if_split_asm)
  have "lookup_row r_id i (runs d') = Some r' \<and> r_result_digest r' = Some (txn_digest x (Hash_result result))
      \<and> r_result r' = Some result"
    using assms
  proof (cases rule: record_run_result_Inr)
    case (recorded r)
    have "r_id r' = i" "lookup_row r_id i (runs d) \<noteq> None"
      using lookup_row_SomeD [OF recorded(2)] recorded(2) by (simp_all add: recorded(8) finish_run_def)
    then show ?thesis
      by (simp add: recorded(10) announce_result_frame store_result_frame run_store_run recorded(8))
        (simp add: finish_run_def recorded(2))
  qed simp
  then show "lookup_row r_id i (runs d') = Some r'"
    "r_result_digest r' = Some (txn_digest x (Hash_result result))" "r_result r' = Some result" by simp_all
qed (use assms in \<open>auto simp: record_run_result_def split: if_split_asm\<close>)

text \<open>
  C4: a recorded result is final.  Once \<open>record_run_result\<close> has stored a result, the same result
  sent again is acknowledged without any change, and every other result for the run is refused
  as a conflict, whether its digest differs or only its document does.
\<close>

theorem recorded_result_final:
  assumes "record_run_result x i result d = Inr (d', r', c)"
    and "txn_digest y = txn_digest x" and "res_run_id result' = i"
  shows "record_run_result y i result' d' =
    (if result' = result then Inr (d', r', False)
     else Inl (ResourceConflict ''Run Result is immutable and was already recorded''))"
  using record_run_result_row [OF assms(1)] assms(2,3)
  by (simp add: record_run_result_def run_or_404_def Let_def)

theorem recorded_result_final_witness:
  "\<exists>d' r'. record_run_result (demo_txn 1005 400) 200 (demo_result FAILED Case_FAILED)
       (demo_run_db RUNNING [demo_lease (Some 70)]) = Inr (d', r', True)
     \<and> record_run_result (demo_txn 2000 500) 200 (demo_result PASSED Case_PASSED) d' =
       Inl (ResourceConflict ''Run Result is immutable and was already recorded'')"
proof -
  obtain d' r' where call: "record_run_result (demo_txn 1005 400) 200 (demo_result FAILED Case_FAILED)
       (demo_run_db RUNNING [demo_lease (Some 70)]) = Inr (d', r', True)"
    using demo_records by (rule created_runE)
  show ?thesis
    using call recorded_result_final [OF call, of "demo_txn 2000 500" "demo_result PASSED Case_PASSED"]
    by (simp add: demo_result_def)
qed

text \<open>
  C1: a result closes the run completely.  When \<open>record_run_result\<close> accepts a result from a
  well-formed database, the run moves along the state machine to the result's status; the
  result holds exactly one entry for every case of the run, and each case row shows the status
  of its entry; the timeout is cleared, the run's slot is free, its log holds the result's event
  and the artifacts are registered under the run.
\<close>

theorem recorded_result_complete:
  assumes "record_run_result x i result d = Inr (d', r', True)" and "control_ok d"
  shows "(\<exists>r. lookup_row r_id i (runs d) = Some r \<and> res_status result \<in> set (allowed_run_transitions (r_status r)))
    \<and> lookup_row r_id i (runs d') = Some r' \<and> r_status r' = res_status result \<and> r_timeout_at r' = None
    \<and> distinct (map cres_case_id (res_case_results result))
    \<and> set (map cres_case_id (res_case_results result)) = set (map c_case_id (cases_of i (run_cases d')))
    \<and> (\<forall>rc\<in>set (cases_of i (run_cases d')). \<forall>c\<in>set (res_case_results result).
          cres_case_id c = c_case_id rc \<longrightarrow> c_status rc = case_status_value (cres_status c))
    \<and> (\<forall>l\<in>set (leases d'). active_lease l \<longrightarrow> l_run l \<noteq> i)
    \<and> find_event i (Key_result (txn_digest x (Hash_result result))) (events d') \<noteq> None
    \<and> map f_artifact (filter (\<lambda>f. f_run f = i) (artifacts d')) =
        map f_artifact (filter (\<lambda>f. f_run f = i) (artifacts d)) @ res_artifacts result"
  using assms(1)
proof (cases rule: record_run_result_Inr)
  case (recorded r)
  let ?h = "txn_digest x (Hash_result result)"
  let ?store = "store_case_result (res_case_results result)"
  have cases': "cases_of i (run_cases d') = map ?store (cases_of i (run_cases d))"
  proof -
    have "c_run (?store rc) = c_run rc" for rc
      by (simp add: store_case_result_def split: option.split)
    then have "cases_of i (update_where (\<lambda>c. c_run c = i) ?store rows) = map ?store (cases_of i rows)" for rows
      by (induction rows) (auto simp: cases_of_def row_simps)
    then show ?thesis
      by (simp add: recorded(10) announce_result_frame) (simp add: store_result_def)
  qed
  have ids: "distinct (map cres_case_id (res_case_results result))"
    "set (map cres_case_id (res_case_results result)) = set (map c_case_id (cases_of i (run_cases d)))"
    using recorded(6) by (simp_all add: check_result_cases_def Let_def outcome_simps)
  have id': "c_case_id (?store rc) = c_case_id rc" for rc
    by (simp add: store_case_result_def split: option.split)
  have "c_status rc = case_status_value (cres_status c)"
    if "rc \<in> set (cases_of i (run_cases d'))" "c \<in> set (res_case_results result)" "cres_case_id c = c_case_id rc" for rc c
  proof -
    obtain rc0 where "rc = ?store rc0" using \<open>rc \<in> _\<close> by (auto simp: cases')
    moreover have "lookup_row cres_case_id (c_case_id rc0) (res_case_results result) = Some c"
      using lookup_row_unique [OF ids(1)] that(2,3) calculation id' by metis
    ultimately show ?thesis by (simp add: store_case_result_def)
  qed
  moreover have "set (map c_case_id (cases_of i (run_cases d'))) = set (map c_case_id (cases_of i (run_cases d)))"
    by (simp add: cases' id' image_image)
  moreover have "l_run l \<noteq> i" if "l \<in> set (leases d')" "active_lease l" for l
  proof -
    have "unique_on l_id (leases d)"
      using control_okD(1) [OF assms(2)] by (simp add: unique_ok_def unique_runners_def)
    from close_slot_active [OF this control_okD(7) [OF assms(2)], of Lease_RELEASED "txn_now x" i] that
    show ?thesis
      by (auto simp: recorded(10) announce_result_frame store_result_frame dest!: arg_cong [where f = set])
  qed
  moreover have "find_event i (Key_result ?h) (events d') \<noteq> None"
  proof -
    obtain es e c where app: "append_run_event i (Key_result ?h) SYSTEM Result_recorded_event (res_finished_at result)
        None (Some (Value_of (res_status result))) (result_details result ?h) (events d) = (es, e, c)"
      by (metis prod_cases3)
    from append_run_event_created(3,4,5) [OF this]
    have "find_event i (Key_result ?h) es \<noteq> None"
      by (auto simp: find_event_def lookup_row_None_iff)
    then show ?thesis by (simp add: recorded(10) announce_result_frame store_result_frame app)
  qed
  moreover have "map f_artifact (filter (\<lambda>f. f_run f = i) (artifacts d')) =
        map f_artifact (filter (\<lambda>f. f_run f = i) (artifacts d)) @ res_artifacts result"
    by (simp add: recorded(10) announce_result_def release_runner_slot_def split_beta Let_def)
      (simp add: store_result_def filter_map comp_def)
  moreover have "lookup_row r_id i (runs d') = Some r'" "r_status r' = res_status result" "r_timeout_at r' = None"
    using record_run_result_row(1) [OF assms(1)] by (simp_all add: recorded(8) finish_run_def)
  ultimately show ?thesis using recorded(2,5) ids by simp
qed simp

theorem recorded_result_complete_witness:
  "\<exists>d' r'. record_run_result (demo_txn 1005 400) 200 (demo_result FAILED Case_FAILED)
       (demo_run_db RUNNING [demo_lease (Some 70)]) = Inr (d', r', True) \<and> r_status r' = FAILED
     \<and> (\<forall>l\<in>set (leases d'). active_lease l \<longrightarrow> l_run l \<noteq> 200)"
proof -
  obtain d' r' where call: "record_run_result (demo_txn 1005 400) 200 (demo_result FAILED Case_FAILED)
       (demo_run_db RUNNING [demo_lease (Some 70)]) = Inr (d', r', True)"
    using demo_records by (rule created_runE)
  moreover have "control_ok (demo_run_db RUNNING [demo_lease (Some 70)])"
    by (rule demo_run_ok) simp_all
  ultimately show ?thesis
    using recorded_result_complete [OF call] by (auto simp: demo_result_def)
qed

text \<open>
  A late result changes nothing.  A run that ended without a result (canceled while queued,
  timed out or lost) refuses every result that the schema accepts, so its terminal status and
  the status of its cases stay.
\<close>

theorem late_result_refused:
  assumes "lookup_row r_id i (runs d) = Some r" and "terminal_status (r_status r)"
    and "r_result_digest r = None" and "parse_result doc = Inr result" and "res_run_id result = i"
  shows "record_run_result x i result d = Inl (ResourceConflict ''invalid Run transition: {} -> {}'')"
proof -
  have "res_status result \<in> set terminal_statuses" by (rule parse_result_Inr(1) [OF assms(4)])
  then have "res_status result \<notin> set (allowed_run_transitions (r_status r))"
    using assms(2) by (cases "r_status r") (auto simp: TERMINAL_RUN_STATUSES_def)
  then show ?thesis
    using assms(1,3,5) by (simp add: record_run_result_def run_or_404_def require_run_transition_def Let_def)
qed

subsection \<open>Status callbacks\<close>

text \<open>
  A status callback does what it reports.  When \<open>update_run_status\<close> reports a change, the
  target is PREPARING or RUNNING and is reachable in one step of the state machine; the timeout
  is set once, at the first callback, to the callback's moment plus the run's limit, the start
  only on entering RUNNING; and a worker key on a pooled run means that an ACTIVE worker of the
  run's pool now holds the run's lease.
\<close>

definition holds_slot :: "db \<Rightarrow> run_row \<Rightarrow> string \<Rightarrow> bool" where
  "holds_slot d r key \<longleftrightarrow>
     (\<exists>l\<in>set (leases d). \<exists>w\<in>set (workers d). l_run l = r_id r \<and> active_lease l
        \<and> l_worker l = Some (w_id w) \<and> w_key w = key \<and> w_pool w = l_pool l \<and> w_status w = Resource_ACTIVE)"

lemma bind_runner_slot_holds:
  assumes "bind_runner_slot x r (Some key) d = Inr (d1, bound)" "r_pool r \<noteq> None"
  shows "bound" "holds_slot d1 r key"
proof -
  obtain p where p: "r_pool r = Some p" using assms(2) by blast
  obtain lease where lease: "find (\<lambda>l. l_run l = r_id r \<and> active_lease l) (leases d) = Some lease"
    using assms(1) p by (fastforce simp: bind_runner_slot_def split: option.split_asm)
  obtain worker where worker: "lookup_row w_key key (workers d) = Some worker"
    using assms(1) p lease by (fastforce simp: bind_runner_slot_def split: option.split_asm)
  have "bound \<and> w_pool worker = l_pool lease \<and> w_status worker = Resource_ACTIVE \<and>
      d1 = d\<lparr>leases := update_row l_id (l_id lease) (\<lambda>l. l\<lparr>l_worker := Some (w_id worker)\<rparr>) (leases d),
        workers := update_row w_id (w_id worker) (\<lambda>w. w\<lparr>w_last_heartbeat := txn_now x\<rparr>) (workers d)\<rparr>"
    using assms(1) p lease worker by (simp add: bind_runner_slot_def split: if_split_asm)
  then have ok: "w_pool worker = l_pool lease" "w_status worker = Resource_ACTIVE"
    and d1: "d1 = d\<lparr>leases := update_row l_id (l_id lease) (\<lambda>l. l\<lparr>l_worker := Some (w_id worker)\<rparr>) (leases d),
        workers := update_row w_id (w_id worker) (\<lambda>w. w\<lparr>w_last_heartbeat := txn_now x\<rparr>) (workers d)\<rparr>"
    and bound by blast+
  then show "bound" by simp
  let ?l = "lease\<lparr>l_worker := Some (w_id worker)\<rparr>" and ?w = "worker\<lparr>w_last_heartbeat := txn_now x\<rparr>"
  have "lease \<in> set (leases d)" "l_run lease = r_id r" "active_lease lease"
    using find_SomeD [OF lease] by simp_all
  moreover have "worker \<in> set (workers d)" "w_key worker = key"
    using lookup_row_SomeD [OF worker] by simp_all
  ultimately have "?l \<in> set (leases d1)" "?w \<in> set (workers d1)"
    by (force simp: d1 update_row_def in_set_update_where)+
  with \<open>l_run lease = r_id r\<close> \<open>active_lease lease\<close> \<open>w_key worker = key\<close> ok
  show "holds_slot d1 r key"
    unfolding holds_slot_def by (intro bexI [of _ ?l] bexI [of _ ?w]) (simp_all add: active_lease_def)
qed

theorem status_callback_effect:
  assumes "update_run_status x i target key d = Inr (d', r', True)"
  shows "\<exists>r. lookup_row r_id i (runs d) = Some r \<and> lookup_row r_id i (runs d') = Some r'
    \<and> target \<in> {PREPARING, RUNNING} \<and> target \<in> set (allowed_run_transitions (r_status r))
    \<and> r_status r' = target
    \<and> r_timeout_at r' = (case r_timeout_at r of None \<Rightarrow> Some (txn_now x + microseconds (r_timeout_seconds r))
        | Some t \<Rightarrow> Some t)
    \<and> r_started_at r' = (if target = RUNNING \<and> r_started_at r = None then Some (txn_now x) else r_started_at r)
    \<and> (\<forall>k. key = Some k \<and> r_pool r \<noteq> None \<longrightarrow> holds_slot d' r k)"
  using assms
proof (cases rule: update_run_status_Inr)
  case (moved r d1 bound)
  note fr = bind_runner_slot_frame [OF moved(6)]
  have id: "r_id r = i" using lookup_row_SomeD [OF moved(2)] by simp
  have "lookup_row r_id i (runs d') = Some r'"
    using moved(2) by (simp add: moved(5,8) move_run_frame run_store_run fr(1) id) (simp add: enter_status_def id)
  moreover have "holds_slot d' r k" if "key = Some k" "r_pool r \<noteq> None" for k
  proof -
    have "leases d' = leases d1" "workers d' = workers d1"
      by (simp_all add: moved(8) move_run_def Let_def store_run_def)
    moreover have "holds_slot d1 r k"
      using bind_runner_slot_holds(2) [of x r k d d1 bound] moved(6) that by simp
    ultimately show ?thesis by (simp add: holds_slot_def)
  qed
  moreover have "r_status r' = target \<and> r_timeout_at r' = (case r_timeout_at r of
        None \<Rightarrow> Some (txn_now x + microseconds (r_timeout_seconds r)) | Some t \<Rightarrow> Some t)
    \<and> r_started_at r' = (if target = RUNNING \<and> r_started_at r = None then Some (txn_now x) else r_started_at r)"
    unfolding moved(5) enter_status_def by simp
  ultimately show ?thesis using moved(2-4) by blast
qed simp

theorem status_callback_effect_witness:
  "\<exists>d' r'. update_run_status (demo_txn 1001 300) 200 PREPARING (Some ''w-1'') (demo_run_db QUEUED [demo_lease None])
       = Inr (d', r', True) \<and> r_status r' = PREPARING \<and> r_timeout_at r' = Some (microseconds 1601)
     \<and> holds_slot d' (demo_run QUEUED) ''w-1''"
proof -
  obtain d' r' where call: "update_run_status (demo_txn 1001 300) 200 PREPARING (Some ''w-1'')
      (demo_run_db QUEUED [demo_lease None]) = Inr (d', r', True)"
    using demo_prepares by (rule created_runE)
  with status_callback_effect [OF call] show ?thesis
    by (auto simp: demo_finds demo_run_def demo_txn_def microseconds_def)
qed

text \<open>
  A slot belongs to one worker.  Once a worker holds the active lease of a run, no status
  callback of the run that names a worker of another identity succeeds.
\<close>

theorem bound_slot_exclusive:
  assumes "lookup_row r_id i (runs d) = Some r" and "r_pool r \<noteq> None"
    and "find (\<lambda>l. l_run l = i \<and> active_lease l) (leases d) = Some l" and "l_worker l = Some w"
    and "lookup_row w_key key (workers d) = Some w'" and "w_id w' \<noteq> w"
  shows "\<exists>e. update_run_status x i target (Some key) d = Inl e"
proof -
  have "r_id r = i" using lookup_row_SomeD [OF assms(1)] by simp
  with assms have "\<exists>e. bind_runner_slot x r (Some key) d = Inl e"
    by (auto simp: bind_runner_slot_def)
  with assms(1) show ?thesis
    by (auto simp: update_run_status_def run_or_404_def)
qed

subsection \<open>Runner events\<close>

text \<open>
  A runner event is recorded once.  After \<open>record_run_event\<close> accepted an event, the same
  event sent again returns the stored row, reports that nothing was created and leaves the
  database, so the cases' states too, as it is.
\<close>

theorem runner_event_once:
  assumes "record_run_event x i e d = Inr (d', event, c)" and "txn_digest y = txn_digest x"
  shows "record_run_event y i e d' = Inr (d', event, False)"
proof -
  have url: "ev_run_id e = i"
    using assms(1) by (auto simp: record_run_event_def split: if_split_asm)
  let ?k = "Key_runner (txn_digest x (Hash_runner_event e))"
  have found: "\<exists>r. lookup_row r_id i (runs d') = Some r" "find_event i ?k (events d') = Some event"
  proof -
    obtain r where r: "lookup_row r_id i (runs d) = Some r"
      using assms(1) by (auto simp: record_run_event_def outcome_simps split: if_split_asm)
    show "\<exists>r. lookup_row r_id i (runs d') = Some r"
      using assms(1) r by (cases rule: record_run_event_Inr) (simp_all add: track_case_frame)
    show "find_event i ?k (events d') = Some event"
      using assms(1)
    proof (cases rule: record_run_event_Inr)
      case (added q rc)
      obtain es ev b where app: "append_run_event i ?k RUNNER (Runner_event_of (ev_event e)) (ev_at e)
          (ev_case_code e) (ev_status e) (runner_event_document e) (events d) = (es, ev, b)"
        by (metis prod_cases3)
      have "ev = event"
        using assms(1) r url added(4) app
        by (auto simp: record_run_event_def run_or_404_def Let_def outcome_simps simp del: not_None_eq not_Some_eq
            split: if_split_asm)
      moreover have "events d' = es" by (simp add: added(6) track_case_frame app)
      moreover have "find_event i ?k es = Some ev" by (rule append_run_event_found [OF app])
      ultimately show ?thesis by simp
    qed simp
  qed
  then show ?thesis
    using url assms(2) by (auto simp: record_run_event_def run_or_404_def Let_def)
qed

text \<open>
  Late events do not reopen a run.  An event that arrives after the run ended is logged at
  most, but neither the run nor any of its cases changes.
\<close>

theorem late_event_keeps_outcome:
  assumes "record_run_event x i e d = Inr (d', event, c)" and "lookup_row r_id i (runs d) = Some r"
    and "terminal_status (r_status r)"
  shows "runs d' = runs d \<and> run_cases d' = run_cases d \<and> leases d' = leases d \<and> outbox d' = outbox d"
  using assms(1)
proof (cases rule: record_run_event_Inr)
  case (added q rc)
  with assms(2,3) show ?thesis by (simp add: track_case_def split: option.split)
qed simp

subsection \<open>Cancellation\<close>

lemma cancel_run_cases:
  assumes "cancel_run x i actor d = Inr (d', r')" and "control_ok d"
  obtains
    (unchanged) "lookup_row r_id i (runs d) = Some r'" "terminal_status (r_status r') \<or> r_cancel_requested r'"
      "d' = d"
  | (canceled) r where "lookup_row r_id i (runs d) = Some r" "r_id r = i" "\<not> terminal_status (r_status r)"
      "\<not> r_cancel_requested r" "r' = mark_canceled (txn_now x) r"
      "d' = announce_cancel x actor r (cancel_effects x r d)"
  using assms(1)
proof (cases rule: cancel_run_Inr)
  case (1 r d1 changed)
  have "control_ok d1"
    using request_cancel_service [OF 1(3) assms(2)] 1(1,2) by simp
  then have uniq: "unique_ok d1" by (rule control_okD(1))
  show thesis
  proof (cases "terminal_status (r_status r) \<or> r_cancel_requested r")
    case True
    then have "\<not> changed" using 1(3) unfolding request_cancel_def by simp
    with 1(1,4) True show thesis by (auto intro: unchanged)
  next
    case False
    then have eff: "changed" "d1 = announce_cancel x actor r (cancel_effects x r d)"
      using 1(3) unfolding request_cancel_def by (auto split: if_split_asm)
    have found: "lookup_row r_id i (runs d1) = Some (mark_canceled (txn_now x) r)"
      unfolding eff(2) announce_cancel_frame cancel_effects_frame run_store_run
      using 1(1,2) by (simp add: mark_canceled_def)
    with eff uniq 1(4) have "d' = d1" "r' = mark_canceled (txn_now x) r" by auto
    with 1(1,2) False eff(2) show thesis by (intro canceled [of r]) simp_all
  qed
qed

text \<open>
  C5: cancellation respects what the run is doing.  From a well-formed database, \<open>cancel_run\<close>
  leaves an ended or already canceled run as it is.  Any other run is marked once and exactly
  one cancel record with the run's own key is queued for the runner; a QUEUED run becomes
  CANCELED at once and gives its slot back, while a PREPARING or RUNNING run keeps its status
  until the runner reports; the cases stay as they are.
\<close>

theorem cancel_run_effect:
  assumes "cancel_run x i actor d = Inr (d', r')" and "control_ok d"
  shows "\<exists>r. lookup_row r_id i (runs d) = Some r \<and> lookup_row r_id i (runs d') = Some r'
    \<and> (if terminal_status (r_status r) \<or> r_cancel_requested r then d' = d \<and> r' = r
       else r_cancel_requested r' \<and> r_status r' = (if r_status r = QUEUED then CANCELED else r_status r)
         \<and> outbox d' = outbox d @ [cancel_record x i]
         \<and> length (filter (\<lambda>rec. o_key rec = Key_run_cancel i) (outbox d')) = 1
         \<and> (r_status r = QUEUED \<longrightarrow> (\<forall>l\<in>set (leases d'). active_lease l \<longrightarrow> l_run l \<noteq> i))
         \<and> run_cases d' = run_cases d)"
  using assms
proof (cases rule: cancel_run_cases)
  case unchanged
  then show ?thesis by auto
next
  case (canceled r)
  note d' = canceled(6)
  have found: "lookup_row r_id i (runs d') = Some r'"
    unfolding d' announce_cancel_frame cancel_effects_frame run_store_run
    using canceled(1,2,5) by (simp add: mark_canceled_def)
  have out: "outbox d' = outbox d @ [cancel_record x i]"
    unfolding d' announce_cancel_frame cancel_effects_frame canceled(2) ..
  have "unique_on o_key (outbox d')"
    using cancel_run_service [OF assms] control_okD(1) by (auto simp: unique_ok_def unique_runs_def)
  then have "filter (\<lambda>rec. o_key rec = Key_run_cancel i) (outbox d) = []"
    by (fastforce simp: out unique_on_def cancel_record_def filter_empty_conv image_iff)
  then have one: "length (filter (\<lambda>rec. o_key rec = Key_run_cancel i) (outbox d')) = 1"
    by (simp add: out cancel_record_def)
  have slot: "\<forall>l\<in>set (leases d'). active_lease l \<longrightarrow> l_run l \<noteq> i" if "r_status r = QUEUED"
  proof -
    have "unique_on l_id (leases d)"
      using control_okD(1) [OF assms(2)] by (simp add: unique_ok_def unique_runners_def)
    from close_slot_active [OF this control_okD(7) [OF assms(2)], of Lease_RELEASED "txn_now x" i] that canceled(2)
    show ?thesis
      by (auto simp: d' announce_cancel_frame cancel_effects_frame dest!: arg_cong [where f = set])
  qed
  have "run_cases d' = run_cases d"
    unfolding d' announce_cancel_frame cancel_effects_frame ..
  moreover have "r_cancel_requested r' \<and> r_status r' = (if r_status r = QUEUED then CANCELED else r_status r)"
    unfolding canceled(5) mark_canceled_def by simp
  ultimately show ?thesis
    using canceled(1,3,4) found out one slot by (intro exI [of _ r]) simp
qed

text \<open>
  Cancellation is idempotent.  Canceling again, by whomever and whenever, returns the same
  run and leaves the database as it is.
\<close>

theorem cancel_run_once:
  assumes "cancel_run x i actor d = Inr (d', r')" and "control_ok d"
  shows "cancel_run y i actor' d' = Inr (d', r')"
proof -
  from cancel_run_effect [OF assms]
  obtain r where "lookup_row r_id i (runs d') = Some r'" "terminal_status (r_status r') \<or> r_cancel_requested r'"
    by (auto split: if_split_asm)
  then show ?thesis
    by (auto simp: cancel_run_def run_or_404_def request_cancel_def)
qed

theorem cancel_run_effect_witness:
  "\<exists>d' r'. cancel_run (demo_txn 1001 300) 200 2 (demo_run_db QUEUED []) = Inr (d', r')
     \<and> r_status r' = CANCELED \<and> outbox d' = [demo_dispatch, cancel_record (demo_txn 1001 300) 200]"
proof -
  obtain d' r' where call: "cancel_run (demo_txn 1001 300) 200 2 (demo_run_db QUEUED []) = Inr (d', r')"
    using demo_cancels by (auto split: sum.splits)
  moreover have "control_ok (demo_run_db QUEUED [])" by (rule demo_run_ok) simp_all
  moreover have "r_status (demo_run QUEUED) = QUEUED" "\<not> r_cancel_requested (demo_run QUEUED)"
    "outbox (demo_run_db QUEUED []) = [demo_dispatch]"
    by (simp_all add: demo_run_def demo_run_db_def)
  ultimately show ?thesis
    using cancel_run_effect [OF call] by (auto simp: demo_finds)
qed

subsection \<open>Rerunning what failed\<close>

theorem rerun_failed_only_witness:
  "\<exists>d d' r. create_rerun (demo_txn 2000 300) 200 FAILED_ONLY ''again'' 2 d = Inr (d', r, True)
     \<and> map case_id (snap_cases (r_snapshot r)) = [101]"
proof -
  let ?doc = "demo_result FAILED Case_FAILED"
  let ?r = "(demo_run RUNNING)\<lparr>r_status := FAILED, r_result := Some ?doc, r_result_digest := Some ''t''\<rparr>"
  let ?d = demo_failed_db
  obtain d' r where call: "create_rerun (demo_txn 2000 300) 200 FAILED_ONLY ''again'' 2 ?d = Inr (d', r, True)"
    using demo_reruns by (rule created_runE)
  have "lookup_row r_id 200 (runs ?d) = Some ?r"
    by (simp add: demo_run_def row_simps)
  with rerun_failed_only [OF call] have "map case_id (snap_cases (r_snapshot r)) =
      filter (\<lambda>j. \<exists>res\<in>set (res_case_results ?doc). cres_case_id res = j \<and> case_failed res)
        (map case_id (snap_cases demo_snapshot))"
    by (auto simp: demo_run_def)
  also have "\<dots> = [101]"
    by (simp add: demo_result_def demo_case_result_def demo_snapshot_def demo_case_def case_failed_def)
  finally show ?thesis using call by (intro exI conjI)
qed

end
