(* ===== verification/Run_Reliability.thy ===== *)
theory Run_Reliability
  imports Run_Outcomes
begin

section \<open>Recovering stalled runs\<close>

text \<open>
  \<open>reliability_services.py\<close>: \<open>_recover_run\<close> and the sweep \<open>process_run_reliability\<close>, which in one
  transaction ends runs past their timeout, runs of silent workers and dispatched runs nobody
  claimed, and closes leases of ended runs, within one budget of rows; and the counters of
  \<open>collect_reliability_snapshot\<close>.

  The sweep selects rows \<open>with_for_update(skip_locked=True)\<close>: \<open>busy\<close> tells the rows (by
  identifier) another transaction holds at that moment.  Pending inserts are flushed before each
  query, so a broken constraint surfaces at the next query of the same session; \<open>recover_run\<close>
  and the end of each loop check for it.
\<close>

record recovery =
  rv_target :: run_status
  rv_reason :: recovery_reason
  rv_message :: run_message
  rv_details :: "(string \<times> json) list"

definition end_run :: "instant \<Rightarrow> recovery \<Rightarrow> run_row \<Rightarrow> run_row" where
  "end_run moment v r =
     r\<lparr>r_status := rv_target v, r_cancel_requested := True, r_timeout_at := None,
       r_finished_at := Some moment, r_error_message := Some (rv_message v), r_wait_reason := None\<rparr>"

definition end_cases :: "recovery \<Rightarrow> uuid \<Rightarrow> run_case_row list \<Rightarrow> run_case_row list" where
  "end_cases v i rows =
     update_where (\<lambda>c. c_run c = i \<and> c_status c \<in> Value_of ` set IN_FLIGHT_RUN_STATUSES)
       (\<lambda>c. c\<lparr>c_status := Value_of (rv_target v), c_error_message := Some (rv_message v)\<rparr>) rows"

definition reliability_cancel_record :: "txn \<Rightarrow> uuid \<Rightarrow> recovery_reason \<Rightarrow> outbox_row" where
  "reliability_cancel_record x i reason =
     \<lparr>o_id = txn_uuid x (Draw_outbox i), o_aggregate = i, o_event_type = Run_cancel_requested,
      o_key = Key_reliability_cancel reason i, o_payload = Cancel_payload i (Some reason),
      o_status = Outbox_PENDING, o_attempts = 0, o_available_at = txn_now x,
      o_created_at = txn_now x, o_processed_at = None, o_last_error = None\<rparr>"

definition recovery_effects :: "txn \<Rightarrow> recovery \<Rightarrow> run_row \<Rightarrow> db \<Rightarrow> db" where
  "recovery_effects x v r d =
     (let i = r_id r;
          moment = txn_now x;
          details = status_payload (r_status r) (rv_target v) @ rv_details v;
          d1 = (store_run (end_run moment v r) d)\<lparr>
            leases := fst (close_slot Lease_EXPIRED moment i (leases d)),
            run_cases := end_cases v i (run_cases d),
            change_requests := sync_validation i (rv_target v) (change_requests d),
            events := append_reliability_event i (rv_reason v) (rv_target v) moment details (events d),
            outbox := outbox d @ [reliability_cancel_record x i (rv_reason v)]\<rparr>
      in audit x SYSTEM_ACTOR_ID (''run.'' @ recovery_reason_code (rv_reason v)) ''test_run'' i
           (Some (r_project r)) details d1)"

definition recover_run :: "txn \<Rightarrow> recovery \<Rightarrow> run_row \<Rightarrow> db \<Rightarrow> service_error + db \<times> bool" where
  "recover_run x v r d =
     (if terminal_status (r_status r) then Inr (d, False)
      else bind_outcome (require_run_transition (r_status r) (rv_target v)) (\<lambda>_.
        if \<not> unique_ok d then Inl Integrity_error
        else Inr (recovery_effects x v r d,
          snd (close_slot Lease_EXPIRED (txn_now x) (r_id r) (leases d)))))"

text \<open>The loop over the rows of one selection, with the flush that its end or the commit makes.\<close>

fun recover_each :: "txn \<Rightarrow> (run_row \<times> recovery) list \<Rightarrow> db \<Rightarrow> service_error + db \<times> nat" where
  "recover_each x [] d = (if unique_ok d then Inr (d, 0) else Inl Integrity_error)"
| "recover_each x ((r, v) # rvs) d =
     bind_outcome (recover_run x v r d) (\<lambda>(d1, released).
     bind_outcome (recover_each x rvs d1) (\<lambda>(d2, n).
     Inr (d2, if released then Suc n else n)))"

subsection \<open>What a sweep selects\<close>

definition past_timeout :: "instant \<Rightarrow> run_row \<Rightarrow> bool" where
  "past_timeout moment r \<longleftrightarrow> r_status r \<in> {PREPARING, RUNNING}
     \<and> (case r_timeout_at r of None \<Rightarrow> False | Some t \<Rightarrow> t \<le> moment)"

definition deadline :: "run_row \<Rightarrow> instant" where
  "deadline r = (case r_timeout_at r of None \<Rightarrow> 0 | Some t \<Rightarrow> t)"

definition timeout_runs :: "instant \<Rightarrow> (uuid \<Rightarrow> bool) \<Rightarrow> nat \<Rightarrow> db \<Rightarrow> (run_row \<times> recovery) list" where
  "timeout_runs moment busy limit d =
     map (\<lambda>r. (r, \<lparr>rv_target = TIMED_OUT, rv_reason = Timed_out,
         rv_message = Timeout_message (r_timeout_seconds r),
         rv_details = [(''timeout_seconds'', JInt (r_timeout_seconds r))]\<rparr>))
       (take limit (sort_key deadline (sort_key r_id
         (filter (\<lambda>r. past_timeout moment r \<and> \<not> busy (r_id r)) (runs d)))))"

text \<open>Leases joined with their run and, for a bound lease, with its worker.\<close>

definition leased_runs :: "db \<Rightarrow> (lease_row \<times> run_row) list" where
  "leased_runs d =
     concat (map (\<lambda>l. case lookup_row r_id (l_run l) (runs d) of None \<Rightarrow> [] | Some r \<Rightarrow> [(l, r)])
       (filter active_lease (leases d)))"

definition bound_worker :: "db \<Rightarrow> lease_row \<Rightarrow> worker_row option" where
  "bound_worker d l = (case l_worker l of None \<Rightarrow> None | Some w \<Rightarrow> lookup_row w_id w (workers d))"

definition silent_since :: "instant \<Rightarrow> db \<Rightarrow> lease_row \<Rightarrow> run_row \<Rightarrow> bool" where
  "silent_since before d l r \<longleftrightarrow> r_status r \<in> {PREPARING, RUNNING}
     \<and> (case bound_worker d l of None \<Rightarrow> False | Some w \<Rightarrow> w_last_heartbeat w < before)"

definition last_heartbeat :: "db \<Rightarrow> lease_row \<Rightarrow> instant" where
  "last_heartbeat d l = (case bound_worker d l of None \<Rightarrow> 0 | Some w \<Rightarrow> w_last_heartbeat w)"

definition lost_runs :: "instant \<Rightarrow> (uuid \<Rightarrow> bool) \<Rightarrow> nat \<Rightarrow> db \<Rightarrow> (run_row \<times> recovery) list" where
  "lost_runs before busy limit d =
     map (\<lambda>(l, r). let w = the (bound_worker d l) in
         (r, \<lparr>rv_target = INFRA_ERROR, rv_reason = Runner_lost,
              rv_message = Runner_lost_message (w_key w),
              rv_details = [(''worker_key'', JStr (w_key w)), (''last_heartbeat_at'', JTime (w_last_heartbeat w))]\<rparr>))
       (take limit (sort_key (\<lambda>(l, r). last_heartbeat d l) (sort_key (\<lambda>(l, r). l_acquired_at l)
         (filter (\<lambda>(l, r). silent_since before d l r
             \<and> \<not> busy (l_id l) \<and> \<not> busy (r_id r) \<and> \<not> busy (given_or (l_worker l) 0))
           (leased_runs d)))))"

definition unclaimed_since :: "instant \<Rightarrow> lease_row \<Rightarrow> run_row \<Rightarrow> bool" where
  "unclaimed_since before l r \<longleftrightarrow> l_worker l = None \<and> r_status r = QUEUED
     \<and> (case r_dispatched_at r of None \<Rightarrow> False | Some t \<Rightarrow> t \<le> before)"

definition dispatched_key :: "run_row \<Rightarrow> instant" where
  "dispatched_key r = (case r_dispatched_at r of None \<Rightarrow> 0 | Some t \<Rightarrow> t)"

definition stalled_runs ::
  "instant \<Rightarrow> int \<Rightarrow> (uuid \<Rightarrow> bool) \<Rightarrow> nat \<Rightarrow> db \<Rightarrow> (run_row \<times> recovery) list" where
  "stalled_runs before timeout busy limit d =
     map (\<lambda>(l, r). (r, \<lparr>rv_target = INFRA_ERROR, rv_reason = Dispatch_stalled,
         rv_message = Dispatch_stalled_message,
         rv_details = [(''dispatch_start_timeout_seconds'', JInt timeout)]\<rparr>))
       (take limit (sort_key (\<lambda>(l, r). dispatched_key r) (sort_key (\<lambda>(l, r). r_id r)
         (filter (\<lambda>(l, r). unclaimed_since before l r \<and> \<not> busy (l_id l) \<and> \<not> busy (r_id r))
           (leased_runs d)))))"

definition orphaned_leases :: "(uuid \<Rightarrow> bool) \<Rightarrow> nat \<Rightarrow> db \<Rightarrow> lease_row list" where
  "orphaned_leases busy limit d =
     map fst (take limit (sort_key (\<lambda>(l, r). l_acquired_at l)
       (filter (\<lambda>(l, r). terminal_status (r_status r) \<and> \<not> busy (l_id l) \<and> \<not> busy (r_id r))
         (leased_runs d))))"

definition release_leases :: "instant \<Rightarrow> lease_row list \<Rightarrow> lease_row list \<Rightarrow> lease_row list" where
  "release_leases moment orphans rows =
     update_where (\<lambda>l. l_id l \<in> set (map l_id orphans))
       (\<lambda>l. l\<lparr>l_status := Lease_RELEASED, l_released_at := Some moment\<rparr>) rows"

subsection \<open>The sweep\<close>

record sweep_summary =
  sw_selected :: nat
  sw_timed_out :: nat
  sw_runner_lost :: nat
  sw_dispatch_stalled :: nat
  sw_leases_released :: nat

definition process_run_reliability ::
  "txn \<Rightarrow> (uuid \<Rightarrow> bool) \<Rightarrow> nat \<Rightarrow> int \<Rightarrow> int \<Rightarrow> db \<Rightarrow> service_error + db \<times> sweep_summary" where
  "process_run_reliability x busy batch heartbeat_ttl dispatch_timeout d =
     (if \<not> (1 \<le> batch \<and> batch \<le> 1000)
      then Inl (Value_error ''reliability batch size must be between 1 and 1000'')
      else if \<not> (15 \<le> heartbeat_ttl \<and> heartbeat_ttl \<le> 600)
      then Inl (Value_error ''Runner heartbeat TTL must be between 15 and 600 seconds'')
      else if \<not> (30 \<le> dispatch_timeout \<and> dispatch_timeout \<le> 3600)
      then Inl (Value_error ''dispatch start timeout must be between 30 and 3600 seconds'')
      else
      let moment = txn_now x;
          stale_before = moment - microseconds heartbeat_ttl;
          dispatch_before = moment - microseconds dispatch_timeout;
          late = timeout_runs moment busy batch d
      in bind_outcome (recover_each x late d) (\<lambda>(d1, n1).
      let remaining1 = batch - length late;
          lost = lost_runs stale_before busy remaining1 d1
      in bind_outcome (recover_each x lost d1) (\<lambda>(d2, n2).
      let remaining2 = remaining1 - length lost;
          stalled = stalled_runs dispatch_before dispatch_timeout busy remaining2 d2
      in bind_outcome (recover_each x stalled d2) (\<lambda>(d3, n3).
      let remaining3 = remaining2 - length stalled;
          orphans = orphaned_leases busy remaining3 d3;
          d4 = d3\<lparr>leases := release_leases moment orphans (leases d3)\<rparr>
      in bind_outcome (commit d4) (\<lambda>d5.
      Inr (d5, \<lparr>sw_selected = length late + length lost + length stalled + length orphans,
        sw_timed_out = length late, sw_runner_lost = length lost, sw_dispatch_stalled = length stalled,
        sw_leases_released = n1 + n2 + n3 + length orphans\<rparr>))))))"

subsection \<open>The counters of the snapshot\<close>

record reliability_snapshot =
  rs_queued :: int
  rs_preparing :: int
  rs_running :: int
  rs_waiting :: int
  rs_backlog_oldest_age :: instant
  rs_due_schedules :: int
  rs_schedule_lag :: instant
  rs_stale_leases :: int

definition age_of_oldest :: "instant \<Rightarrow> instant list \<Rightarrow> instant" where
  "age_of_oldest moment ts =
     (case ts of [] \<Rightarrow> 0 | t # rest \<Rightarrow> max 0 (moment - foldr min rest t))"

definition due_schedule_times :: "instant \<Rightarrow> schedule_row list \<Rightarrow> instant list" where
  "due_schedule_times moment rows =
     concat (map (\<lambda>s. case s_next_fire_at s of None \<Rightarrow> [] | Some t \<Rightarrow> [t])
       (filter (\<lambda>s. s_status s = Schedule_ACTIVE
          \<and> (case s_next_fire_at s of None \<Rightarrow> False | Some t \<Rightarrow> t \<le> moment)) rows))"

definition collect_reliability_snapshot :: "instant \<Rightarrow> int \<Rightarrow> db \<Rightarrow> service_error + reliability_snapshot" where
  "collect_reliability_snapshot moment heartbeat_ttl d =
     (if \<not> (15 \<le> heartbeat_ttl \<and> heartbeat_ttl \<le> 600)
      then Inl (Value_error ''Runner heartbeat TTL must be between 15 and 600 seconds'')
      else
      let waiting = filter (\<lambda>r. r_status r = QUEUED \<and> r_dispatch_state r = Dispatch_WAITING) (runs d);
          due = due_schedule_times moment (schedules d)
      in Inr \<lparr>rs_queued = count_rows (\<lambda>r. r_status r = QUEUED) (runs d),
        rs_preparing = count_rows (\<lambda>r. r_status r = PREPARING) (runs d),
        rs_running = count_rows (\<lambda>r. r_status r = RUNNING) (runs d),
        rs_waiting = int (length waiting),
        rs_backlog_oldest_age = age_of_oldest moment (map r_created_at waiting),
        rs_due_schedules = int (length due),
        rs_schedule_lag = age_of_oldest moment due,
        rs_stale_leases = int (length (filter (\<lambda>(l, r).
            silent_since (moment - microseconds heartbeat_ttl) d l r) (leased_runs d)))\<rparr>)"

subsection \<open>The sweep keeps the invariant\<close>

lemma recovery_effects_frame:
  "runs (recovery_effects x v r d) = runs (store_run (end_run (txn_now x) v r) d)"
  "leases (recovery_effects x v r d) = fst (close_slot Lease_EXPIRED (txn_now x) (r_id r) (leases d))"
  "run_cases (recovery_effects x v r d) = end_cases v (r_id r) (run_cases d)"
  "outbox (recovery_effects x v r d) = outbox d @ [reliability_cancel_record x (r_id r) (rv_reason v)]"
  "events (recovery_effects x v r d) = append_reliability_event (r_id r) (rv_reason v) (rv_target v)
     (txn_now x) (status_payload (r_status r) (rv_target v) @ rv_details v) (events d)"
  "workers (recovery_effects x v r d) = workers d"
  by (simp_all add: recovery_effects_def Let_def)

lemma end_cases_columns: "map case_columns (end_cases v i rows) = map case_columns rows"
  by (simp add: end_cases_def map_update_where case_columns_def)

lemma recover_run_Inr:
  assumes "recover_run x v r d = Inr (d', released)"
  obtains (ended) "terminal_status (r_status r)" "d' = d" "\<not> released"
  | (recovered) "\<not> terminal_status (r_status r)" "rv_target v \<in> set (allowed_run_transitions (r_status r))"
      "unique_ok d" "d' = recovery_effects x v r d"
      "released = snd (close_slot Lease_EXPIRED (txn_now x) (r_id r) (leases d))"
  using assms
  by (cases "terminal_status (r_status r)") (auto simp: recover_run_def outcome_simps split: if_split_asm)

lemma recover_each_ConsE:
  assumes "recover_each x ((r, v) # rvs) d = Inr (d', n)"
  obtains d1 b m where "recover_run x v r d = Inr (d1, b)" "recover_each x rvs d1 = Inr (d', m)"
    "n = (if b then Suc m else m)"
proof -
  obtain p where p: "recover_run x v r d = Inr p"
    and rest: "(case p of (d1, released) \<Rightarrow> bind_outcome (recover_each x rvs d1) (\<lambda>(d2, n).
        Inr (d2, if released then Suc n else n))) = Inr (d', n)"
    using assms unfolding recover_each.simps by (rule bind_outcome_InrE)
  obtain d1 b where db: "p = (d1, b)" by (cases p)
  obtain q where q: "recover_each x rvs d1 = Inr q" "(case q of (d2, n) \<Rightarrow> Inr (d2, if b then Suc n else n))
      = (Inr (d', n) :: service_error + db \<times> nat)"
    using rest unfolding db prod.case by (rule bind_outcome_InrE)
  obtain m where "q = (d', m)" "n = (if b then Suc m else m)" using q(2) by (cases q) simp
  with p q(1) db show thesis by (intro that) simp_all
qed

lemma recover_each_unique: "recover_each x rvs d = Inr (d', n) \<Longrightarrow> unique_ok d"
proof (induction rvs arbitrary: d n)
  case (Cons p rvs)
  obtain r v where p: "p = (r, v)" by (cases p)
  obtain d1 b m where call: "recover_run x v r d = Inr (d1, b)" "recover_each x rvs d1 = Inr (d', m)"
    using Cons.prems(1) unfolding p by (rule recover_each_ConsE)
  from call(1) show ?case
    by (cases rule: recover_run_Inr) (use Cons.IH [OF call(2)] in simp_all)
qed (simp add: outcome_simps split: if_split_asm)

text \<open>The recoveries of a sweep: targets that end a run.\<close>

definition ends_run :: "recovery \<Rightarrow> bool" where
  "ends_run v \<longleftrightarrow> rv_target v \<in> {TIMED_OUT, INFRA_ERROR}"

lemma end_run_row:
  assumes "run_row_ok r" "\<not> terminal_status (r_status r)" "ends_run v"
    and "rv_target v \<in> set (allowed_run_transitions (r_status r))"
  shows "run_row_ok (end_run t v r)" "run_changes r (end_run t v r)" "terminal_status (r_status (end_run t v r))"
    "r_id (end_run t v r) = r_id r"
proof -
  have none: "r_result r = None" "r_result_digest r = None"
    using assms(1,2) by (auto simp: run_row_ok_def)
  have target: "rv_target v = TIMED_OUT \<or> rv_target v = INFRA_ERROR"
    using assms(3) by (simp add: ends_run_def)
  then show "run_row_ok (end_run t v r)"
    using none by (elim disjE) (simp_all add: run_row_ok_def end_run_def)
  show "run_changes r (end_run t v r)"
    using none assms(4) by (simp add: run_changes_def end_run_def run_moves_step)
  show "terminal_status (r_status (end_run t v r))"
    using target by (elim disjE) (simp_all add: end_run_def)
qed (simp add: end_run_def)

lemma recovery_step:
  assumes ok: "control_ok d" and found: "lookup_row r_id (r_id r) (runs d) = Some r"
    and live: "\<not> terminal_status (r_status r)" and v: "ends_run v"
    and allowed: "rv_target v \<in> set (allowed_run_transitions (r_status r))"
    and unique: "unique_ok (recovery_effects x v r d)"
  shows "control_ok (recovery_effects x v r d) \<and> runs_evolve (runs d) (runs (recovery_effects x v r d))"
proof -
  let ?d = "recovery_effects x v r d" and ?s = "end_run (txn_now x) v r"
  have mem: "r \<in> set (runs d)" using lookup_row_SomeD [OF found] by simp
  note row = end_run_row [OF control_okD(4) [OF ok mem] live v allowed, of "txn_now x"]
  have "unique_on (\<lambda>e. (v_run e, v_key e)) (events ?d)"
    using unique by (simp add: unique_ok_def unique_runs_def)
  then have fresh: "find_event (r_id r) (Key_reliability (rv_reason v)) (events d) = None"
    by (auto simp: recovery_effects_frame append_reliability_event_def row_simps find_event_def lookup_row_None_iff)
  have log: "log_ok (events ?d)"
    unfolding recovery_effects_frame
    by (rule reliability_event.keeps_log_ok) (rule fresh, rule control_okD(3) [OF ok])
  have runs_of: "v_run ` set (events ?d) \<subseteq> r_id ` set (runs d)"
    using control_okD(2) [OF ok] mem
    by (auto simp: recovery_effects_frame append_reliability_event_def refs_ok_def)
  have "slots_ok (runs ?d) (leases ?d)"
    using slots_ok_close [OF ok, of Lease_EXPIRED ?s "txn_now x"] row(4)
    by (simp add: recovery_effects_frame)
  then show ?thesis
    using ok unique found row log runs_of
    by (intro control_ok_step [where r = r and s = ?s])
      (auto simp: recovery_effects_frame end_cases_columns reliability_cancel_record_def)
qed

lemma recover_each_service:
  assumes "recover_each x rvs d = Inr (d', n)" and "control_ok d"
    and "\<forall>(r, v)\<in>set rvs. lookup_row r_id (r_id r) (runs d) = Some r \<and> ends_run v"
    and "distinct (map (r_id \<circ> fst) rvs)"
  shows "control_ok d' \<and> runs_evolve (runs d) (runs d')"
  using assms
proof (induction rvs arbitrary: d n)
  case (Cons p rvs)
  obtain r v where p: "p = (r, v)" by (cases p)
  obtain d1 b m where call: "recover_run x v r d = Inr (d1, b)" "recover_each x rvs d1 = Inr (d', m)"
    using Cons.prems(1) unfolding p by (rule recover_each_ConsE)
  have found: "lookup_row r_id (r_id r) (runs d) = Some r" "ends_run v"
    using Cons.prems(3) p by auto
  have step: "control_ok d1 \<and> runs_evolve (runs d) (runs d1)
      \<and> (\<forall>i. i \<noteq> r_id r \<longrightarrow> lookup_row r_id i (runs d1) = lookup_row r_id i (runs d))"
    using call(1)
  proof (cases rule: recover_run_Inr)
    case recovered
    have "unique_ok (recovery_effects x v r d)"
      using recover_each_unique [OF call(2)] recovered(4) by simp
    then show ?thesis
      using recovery_step [OF Cons.prems(2) found(1) recovered(1) found(2) recovered(2)]
      by (simp add: recovered(4)) (simp add: recovery_effects_frame run_store_run end_run_def)
  qed (use Cons.prems(2) in simp)
  have "\<forall>(q, w)\<in>set rvs. lookup_row r_id (r_id q) (runs d1) = Some q \<and> ends_run w"
  proof (clarify)
    fix q w assume q: "(q, w) \<in> set rvs"
    then have "r_id q \<noteq> r_id r" using Cons.prems(4) p by (auto simp: image_iff)
    moreover have "lookup_row r_id (r_id q) (runs d) = Some q \<and> ends_run w"
      using Cons.prems(3) q by (fastforce simp: p)
    ultimately show "lookup_row r_id (r_id q) (runs d1) = Some q \<and> ends_run w"
      using step by simp
  qed
  with Cons.IH [OF call(2)] step Cons.prems(4) p show ?case
    by (auto intro: runs_evolve_trans)
qed (simp split: if_split_asm)

lemma distinct_map_sort: "distinct (map f (sort_key k xs)) = distinct (map f xs)"
  by (simp add: distinct_map)

lemma distinct_map_take: "distinct (map f xs) \<Longrightarrow> distinct (map f (take n xs))"
  by (metis distinct_take take_map)

lemma leased_runs_iff:
  "(l, r) \<in> set (leased_runs d) \<longleftrightarrow>
     l \<in> set (leases d) \<and> active_lease l \<and> lookup_row r_id (l_run l) (runs d) = Some r"
  by (auto simp: leased_runs_def split: option.splits)

lemma map_fst_leased_runs:
  "map fst (leased_runs d) = filter (\<lambda>l. lookup_row r_id (l_run l) (runs d) \<noteq> None) (filter active_lease (leases d))"
proof -
  have "map fst (concat (map (\<lambda>l. case lookup_row r_id (l_run l) (runs d) of None \<Rightarrow> [] | Some r \<Rightarrow> [(l, r)]) ls))
      = filter (\<lambda>l. lookup_row r_id (l_run l) (runs d) \<noteq> None) ls" for ls
    by (induction ls) (auto split: option.split)
  then show ?thesis by (simp only: leased_runs_def)
qed

lemma distinct_leased_runs:
  assumes "control_ok d"
  shows "distinct (map (r_id \<circ> snd) (leased_runs d))"
proof -
  have "map (r_id \<circ> snd) (leased_runs d) = map l_run (map fst (leased_runs d))"
    by (auto simp: leased_runs_iff dest!: lookup_row_SomeD)
  moreover have "distinct (map l_run (map fst (leased_runs d)))"
    unfolding map_fst_leased_runs
    using unique_on_filter [OF control_okD(7) [OF assms]] by (simp add: unique_on_def)
  ultimately show ?thesis by (simp only:)
qed

lemma lookup_member:
  assumes "control_ok d" "r \<in> set (runs d)"
  shows "lookup_row r_id (r_id r) (runs d) = Some r"
  using assms control_okD(9) by (simp add: lookup_row_unique unique_on_def)

lemma timeout_runs_facts:
  assumes "control_ok d"
  shows "\<forall>(r, v)\<in>set (timeout_runs t busy n d). lookup_row r_id (r_id r) (runs d) = Some r \<and> ends_run v"
    "distinct (map (r_id \<circ> fst) (timeout_runs t busy n d))"
    "length (timeout_runs t busy n d) \<le> n"
proof -
  have "distinct (map r_id (runs d))" using control_okD(9) [OF assms] by (simp add: unique_on_def)
  then show "distinct (map (r_id \<circ> fst) (timeout_runs t busy n d))"
    by (simp add: timeout_runs_def comp_def distinct_map_take distinct_map_sort distinct_map_filter)
qed (auto simp: timeout_runs_def ends_run_def lookup_member [OF assms] dest!: in_set_takeD)

lemma lease_selection_facts:
  assumes "control_ok d" "rvs = map h (take n (sort_key f (sort_key g (filter P (leased_runs d)))))"
    and "\<And>p. fst (h p) = snd p" "\<And>p. ends_run (snd (h p))"
  shows "\<forall>(r, v)\<in>set rvs. lookup_row r_id (r_id r) (runs d) = Some r \<and> ends_run v"
    "distinct (map (r_id \<circ> fst) rvs)" "length rvs \<le> n"
proof -
  let ?rows = "take n (sort_key f (sort_key g (filter P (leased_runs d))))"
  have "distinct (map (r_id \<circ> snd) ?rows)"
    using distinct_leased_runs [OF assms(1)]
    by (intro distinct_map_take) (simp add: distinct_map_sort distinct_map_filter)
  then show "distinct (map (r_id \<circ> fst) rvs)"
    by (simp add: assms(2,3) comp_def)
  show "\<forall>(r, v)\<in>set rvs. lookup_row r_id (r_id r) (runs d) = Some r \<and> ends_run v"
  proof (clarify)
    fix r v assume "(r, v) \<in> set rvs"
    then obtain p where p: "p \<in> set (leased_runs d)" "(r, v) = h p"
      by (auto simp: assms(2) dest!: in_set_takeD)
    then have "r = snd p" "v = snd (h p)" using assms(3) [of p] by (metis fst_conv, metis snd_conv)
    moreover have "lookup_row r_id (l_run (fst p)) (runs d) = Some (snd p)"
      using p(1) leased_runs_iff [of "fst p" "snd p" d] by simp
    ultimately show "lookup_row r_id (r_id r) (runs d) = Some r \<and> ends_run v"
      using lookup_row_SomeD assms(4) by metis
  qed
qed (simp add: assms(2))

lemma lost_runs_facts:
  assumes "control_ok d"
  shows "\<forall>(r, v)\<in>set (lost_runs t busy n d). lookup_row r_id (r_id r) (runs d) = Some r \<and> ends_run v"
    "distinct (map (r_id \<circ> fst) (lost_runs t busy n d))"
    "length (lost_runs t busy n d) \<le> n"
  by (rule lease_selection_facts [OF assms lost_runs_def]; simp add: split_beta Let_def ends_run_def)+

lemma stalled_runs_facts:
  assumes "control_ok d"
  shows "\<forall>(r, v)\<in>set (stalled_runs t s busy n d). lookup_row r_id (r_id r) (runs d) = Some r \<and> ends_run v"
    "distinct (map (r_id \<circ> fst) (stalled_runs t s busy n d))"
    "length (stalled_runs t s busy n d) \<le> n"
  by (rule lease_selection_facts [OF assms stalled_runs_def]; simp add: split_beta ends_run_def)+

lemma slots_ok_release:
  assumes "slots_ok rows ls"
  shows "slots_ok rows (release_leases moment orphans ls)"
proof -
  have act: "filter active_lease (release_leases moment orphans ls) =
      filter (\<lambda>l. active_lease l \<and> l_id l \<notin> set (map l_id orphans)) ls"
    unfolding release_leases_def by (rule filter_update_where) (simp add: active_lease_def)
  have "unique_on l_run (filter (\<lambda>l. l_id l \<notin> set (map l_id orphans)) (filter active_lease ls))"
    using assms by (auto simp: slots_ok_def simp del: filter_filter intro: unique_on_filter [of l_run "filter active_lease ls"])
  moreover have "lease_ok rows l" if "l \<in> set (release_leases moment orphans ls)" for l
    using that assms
    by (auto simp: release_leases_def in_set_update_where slots_ok_def lease_ok_def active_lease_def
        split: if_split_asm)
  ultimately show ?thesis
    unfolding slots_ok_def act by (simp add: conj_commute)
qed

lemma process_run_reliability_Inr:
  assumes "process_run_reliability x busy batch ttl timeout d = Inr (d', s)"
  obtains d1 d2 d3 n1 n2 n3 late lost stalled orphans where
    "late = timeout_runs (txn_now x) busy batch d" "recover_each x late d = Inr (d1, n1)"
    "lost = lost_runs (txn_now x - microseconds ttl) busy (batch - length late) d1"
    "recover_each x lost d1 = Inr (d2, n2)"
    "stalled = stalled_runs (txn_now x - microseconds timeout) timeout busy (batch - length late - length lost) d2"
    "recover_each x stalled d2 = Inr (d3, n3)"
    "orphans = orphaned_leases busy (batch - length late - length lost - length stalled) d3"
    "d' = d3\<lparr>leases := release_leases (txn_now x) orphans (leases d3)\<rparr>" "unique_ok d'"
    "s = \<lparr>sw_selected = length late + length lost + length stalled + length orphans,
        sw_timed_out = length late, sw_runner_lost = length lost, sw_dispatch_stalled = length stalled,
        sw_leases_released = n1 + n2 + n3 + length orphans\<rparr>"
proof -
  define late where "late = timeout_runs (txn_now x) busy batch d"
  note call = assms [unfolded process_run_reliability_def Let_def guard_Inr_iff, THEN conjunct2, THEN conjunct2,
      THEN conjunct2, folded late_def]
  obtain d1 n1 where e1: "recover_each x late d = Inr (d1, n1)"
    using call by (elim bind_outcome_InrE) auto
  define lost where "lost = lost_runs (txn_now x - microseconds ttl) busy (batch - length late) d1"
  note call1 = call [unfolded e1 bind_outcome_simps prod.case, folded lost_def]
  obtain d2 n2 where e2: "recover_each x lost d1 = Inr (d2, n2)"
    using call1 by (elim bind_outcome_InrE) auto
  define stalled where "stalled = stalled_runs (txn_now x - microseconds timeout) timeout busy
      (batch - length late - length lost) d2"
  note call2 = call1 [unfolded e2 bind_outcome_simps prod.case, folded stalled_def]
  obtain d3 n3 where e3: "recover_each x stalled d2 = Inr (d3, n3)"
    using call2 by (elim bind_outcome_InrE) auto
  note call3 = call2 [unfolded e3 bind_outcome_simps prod.case]
  show thesis
    using call3 by (intro that [OF late_def e1 lost_def e2 stalled_def e3 refl])
      (auto simp: bind_outcome_Inr_iff commit_Inr_iff)
qed

lemma process_run_reliability_service:
  assumes call: "process_run_reliability x busy batch ttl timeout d = Inr (d', s)" and ok: "control_ok d"
  shows "control_ok d' \<and> runs_evolve (runs d) (runs d')"
  using call
proof (cases rule: process_run_reliability_Inr)
  case (1 d1 d2 d3 n1 n2 n3 late lost stalled orphans)
  have s1: "control_ok d1" "runs_evolve (runs d) (runs d1)"
    using recover_each_service [OF 1(2) ok] timeout_runs_facts [OF ok, of "txn_now x" busy batch]
    unfolding 1(1) by blast+
  have s2: "control_ok d2" "runs_evolve (runs d1) (runs d2)"
    using recover_each_service [OF 1(4) s1(1)] lost_runs_facts [OF s1(1)]
    unfolding 1(3) by blast+
  have s3: "control_ok d3" "runs_evolve (runs d2) (runs d3)"
    using recover_each_service [OF 1(6) s2(1)] stalled_runs_facts [OF s2(1)]
    unfolding 1(5) by blast+
  have "slots_ok (runs d3) (leases d')"
    using slots_ok_release [OF control_ok_slots [OF s3(1)]] by (simp add: 1(8))
  then have "control_ok d'"
    using 1(9) by (intro control_ok_leases [OF s3(1)]) (simp_all add: 1(8))
  moreover have "runs_evolve (runs d) (runs d3)"
    using s1(2) s2(2) s3(2) by (blast intro: runs_evolve_trans)
  ultimately show ?thesis by (simp add: 1(8))
qed

definition reliability_sweep :: "db \<Rightarrow> db \<Rightarrow> bool" where
  "reliability_sweep d d' \<longleftrightarrow>
     (\<exists>x busy batch ttl timeout s. process_run_reliability x busy batch ttl timeout d = Inr (d', s))"

interpretation reliability: run_service reliability_sweep
  by unfold_locales (auto simp: reliability_sweep_def dest: process_run_reliability_service)

subsection \<open>What a sweep achieves\<close>

lemma recover_each_allowed:
  assumes "recover_each x rvs d = Inr (d', n)" "(r, v) \<in> set rvs" "\<not> terminal_status (r_status r)"
  shows "rv_target v \<in> set (allowed_run_transitions (r_status r))"
  using assms
proof (induction rvs arbitrary: d n)
  case (Cons p rvs)
  obtain q w where p: "p = (q, w)" by (cases p)
  obtain d1 b m where call: "recover_run x w q d = Inr (d1, b)" "recover_each x rvs d1 = Inr (d', m)"
    using Cons.prems(1) unfolding p by (rule recover_each_ConsE)
  show ?case
  proof (cases "(r, v) = (q, w)")
    case True
    with call(1) Cons.prems(3) show ?thesis by (cases rule: recover_run_Inr) auto
  next
    case False
    with Cons p call show ?thesis by auto
  qed
qed simp

lemma recover_each_released:
  assumes "recover_each x rvs d = Inr (d', n)"
  shows "n \<le> length rvs"
  using assms
proof (induction rvs arbitrary: d n)
  case (Cons p rvs)
  obtain q w where p: "p = (q, w)" by (cases p)
  obtain d1 b m where call: "recover_each x rvs d1 = Inr (d', m)" and n: "n = (if b then Suc m else m)"
    using Cons.prems unfolding p by (rule recover_each_ConsE)
  from Cons.IH [OF call] show ?case unfolding n by simp
qed (simp split: if_split_asm)











subsection \<open>Properties of the sweep\<close>


lemma selection_lengths:
  "length (timeout_runs t busy n d) \<le> n" "length (lost_runs t busy n d) \<le> n"
  "length (stalled_runs t u busy n d) \<le> n" "length (orphaned_leases busy n d) \<le> n"
  unfolding timeout_runs_def lost_runs_def stalled_runs_def orphaned_leases_def length_map length_take
  by (rule min.cobounded2)+


text \<open>
  A sweep stays within its budget.  However many rows are stuck, one successful sweep touches
  at most \<open>batch_size\<close> of them; its counters add up, and it reports no more freed leases than
  selected rows.
\<close>

theorem sweep_within_budget:
  assumes "process_run_reliability x busy batch ttl timeout d = Inr (d', s)"
  shows "sw_selected s \<le> batch \<and> sw_leases_released s \<le> sw_selected s
    \<and> sw_timed_out s + sw_runner_lost s + sw_dispatch_stalled s \<le> sw_selected s"
  using assms
proof (cases rule: process_run_reliability_Inr)
  case (1 d1 d2 d3 n1 n2 n3 late lost stalled orphans)
  have "length late \<le> batch" "length lost \<le> batch - length late"
    "length stalled \<le> batch - length late - length lost"
    "length orphans \<le> batch - length late - length lost - length stalled"
    unfolding 1(1) 1(3) 1(5) 1(7) by (rule selection_lengths)+
  moreover have "n1 \<le> length late" "n2 \<le> length lost" "n3 \<le> length stalled"
    using recover_each_released 1(2,4,6) by blast+
  ultimately show ?thesis by (simp add: 1(10))
qed



text \<open>
  C15: one run that hangs while PREPARING stops all recovery.  The transition table has no step
  from PREPARING to TIMED_OUT, but the sweep selects such runs once their deadline has passed
  and lets the error escape; its transaction is rolled back, so no run past its timeout, no
  lost runner and no stalled dispatch is recovered, in this sweep or in any later one that
  selects the run again.
\<close>

theorem preparing_timeout_stops_sweep:
  assumes "r \<in> set (runs d)" and "r_status r = PREPARING" and "past_timeout (txn_now x) r"
    and "\<not> busy (r_id r)"
    and "length (filter (\<lambda>r. past_timeout (txn_now x) r \<and> \<not> busy (r_id r)) (runs d)) \<le> batch"
  shows "\<exists>e. process_run_reliability x busy batch ttl timeout d = Inl e"
proof (rule ccontr)
  assume "\<nexists>e. process_run_reliability x busy batch ttl timeout d = Inl e"
  then obtain d' s where "process_run_reliability x busy batch ttl timeout d = Inr (d', s)"
    by (cases "process_run_reliability x busy batch ttl timeout d") auto
  then show False
  proof (cases rule: process_run_reliability_Inr)
    case (1 d1 d2 d3 n1 n2 n3 late lost stalled orphans)
    have "(r, \<lparr>rv_target = TIMED_OUT, rv_reason = Timed_out,
         rv_message = Timeout_message (r_timeout_seconds r),
         rv_details = [(''timeout_seconds'', JInt (r_timeout_seconds r))]\<rparr>) \<in> set late"
      using assms(1,3-5) by (auto simp: 1(1) timeout_runs_def)
    from recover_each_allowed [OF 1(2) this] assms(2) show False by simp
  qed
qed

theorem preparing_timeout_stops_sweep_witness:
  "\<exists>e. process_run_reliability (demo_txn 2000 500) (\<lambda>_. False) 100 45 300
     (demo_run_db PREPARING [demo_lease (Some 70)]) = Inl e"
  by (rule preparing_timeout_stops_sweep [of "demo_run PREPARING"])
    (simp_all add: demo_run_db_def past_timeout_def demo_run_def demo_txn_def microseconds_def)

end
