(* ===== verification/Runner_Pools.thy ===== *)
theory Runner_Pools
  imports Run_Invariant
begin

section \<open>Runner pools and their workers\<close>

text \<open>
  \<open>services.py\<close>: \<open>_runner_pool\<close>, \<open>_runner_pool_for_target\<close>, \<open>_runner_pool_payload\<close>,
  \<open>create_runner_pool\<close>, \<open>list_runner_pools\<close>, \<open>update_runner_pool\<close>, \<open>heartbeat_runner_worker\<close>
  and \<open>update_runner_worker\<close>.  The request models' checks of one field (lengths, ranges) are the
  boundary's; an optional field is \<open>None\<close> when the request leaves it out, and a nullable one
  (\<open>description\<close>) is an option of an option.
\<close>

fun target_type_value :: "target_type \<Rightarrow> string" where
  "target_type_value WEB = ''WEB''"
| "target_type_value APP = ''APP''"
| "target_type_value API = ''API''"

fun resource_status_value :: "resource_status \<Rightarrow> string" where
  "resource_status_value Resource_ACTIVE = ''ACTIVE''"
| "resource_status_value Resource_DRAINING = ''DRAINING''"
| "resource_status_value Resource_DISABLED = ''DISABLED''"

definition json_target_types :: "target_type list \<Rightarrow> json" where
  "json_target_types ts = JList (map (\<lambda>t. JStr (target_type_value t)) ts)"

subsection \<open>Workers and capacity\<close>

definition healthy_workers :: "instant \<Rightarrow> uuid \<Rightarrow> db \<Rightarrow> worker_row list" where
  "healthy_workers healthy_after pool d =
     filter (\<lambda>w. w_pool w = pool \<and> w_status w = Resource_ACTIVE \<and> healthy_after \<le> w_last_heartbeat w)
       (workers d)"

definition active_leases_of :: "uuid \<Rightarrow> db \<Rightarrow> nat" where
  "active_leases_of pool d = length (filter (\<lambda>l. l_pool l = pool \<and> active_lease l) (leases d))"

definition effective_capacity :: "pool_row \<Rightarrow> worker_row list \<Rightarrow> int" where
  "effective_capacity pool ws = min (pl_max_concurrency pool) (sum_list (map w_max_slots ws))"

definition runner_pool :: "uuid \<Rightarrow> db \<Rightarrow> service_error + pool_row" where
  "runner_pool i d = require_row (ResourceNotFound ''Runner Pool not found'') (lookup_row pl_id i (pools d))"

definition runner_pool_for_target ::
  "uuid option \<Rightarrow> target_type \<Rightarrow> db \<Rightarrow> service_error + pool_row option" where
  "runner_pool_for_target pool_id kind d =
     (case pool_id of
        None \<Rightarrow> Inr None
      | Some i \<Rightarrow> bind_outcome (runner_pool i d) (\<lambda>pool.
          if pl_status pool \<noteq> Resource_ACTIVE
          then Inl (ResourceConflict ''only an ACTIVE Runner Pool can be bound'')
          else if kind \<notin> set (pl_target_types pool)
          then Inl (InvalidRequest ''Runner Pool does not support target type {}'')
          else Inr (Some pool)))"

record pool_view =
  plv_pool :: pool_row
  plv_healthy :: nat
  plv_slots :: int
  plv_active :: nat
  plv_available :: int

definition runner_pool_payload :: "instant \<Rightarrow> int \<Rightarrow> pool_row \<Rightarrow> db \<Rightarrow> pool_view" where
  "runner_pool_payload now ttl pool d =
     (let healthy = healthy_workers (now - microseconds ttl) (pl_id pool) d;
          active = active_leases_of (pl_id pool) d
      in \<lparr>plv_pool = pool, plv_healthy = length healthy,
          plv_slots = sum_list (map w_max_slots healthy), plv_active = active,
          plv_available = max 0 (effective_capacity pool healthy - int active)\<rparr>)"

subsection \<open>Pools\<close>

record pool_create =
  pc_key :: string
  pc_name :: string
  pc_description :: "string option"
  pc_target_types :: "target_type list"
  pc_max_concurrency :: int

definition create_runner_pool ::
  "txn \<Rightarrow> int \<Rightarrow> pool_create \<Rightarrow> uuid \<Rightarrow> db \<Rightarrow> service_error + db \<times> pool_view" where
  "create_runner_pool x ttl u actor d =
     (let i = txn_uuid x Draw_row;
          pool = \<lparr>pl_id = i, pl_key = pc_key u, pl_name = pc_name u, pl_description = pc_description u,
            pl_target_types = pc_target_types u, pl_queue = ''testops.pool.'' @ pc_key u,
            pl_max_concurrency = pc_max_concurrency u, pl_status = Resource_ACTIVE\<rparr>;
          d1 = audit x actor ''runner.pool_created'' ''runner_pool'' i None
            [(''key'', JStr (pl_key pool)), (''target_types'', json_target_types (pl_target_types pool)),
             (''max_concurrency'', JInt (pl_max_concurrency pool))]
            (d\<lparr>pools := pools d @ [pool]\<rparr>)
      in bind_outcome (commit_unique ''Runner Pool key already exists'' d1)
           (\<lambda>d2. Inr (d2, runner_pool_payload (txn_now x) ttl pool d2)))"

definition list_runner_pools :: "instant \<Rightarrow> int \<Rightarrow> bool \<Rightarrow> db \<Rightarrow> pool_view list" where
  "list_runner_pools now ttl active_only d =
     map (\<lambda>pool. runner_pool_payload now ttl pool d)
       (filter (\<lambda>pool. active_only \<longrightarrow> pl_status pool = Resource_ACTIVE) (pools d))"

record pool_update =
  pp_name :: "string option"
  pp_description :: "string option option"
  pp_target_types :: "target_type list option"
  pp_max_concurrency :: "int option"
  pp_status :: "resource_status option"

definition pool_details :: "pool_row \<Rightarrow> json" where
  "pool_details pool = JObj [(''name'', JStr (pl_name pool)), (''description'', json_str (pl_description pool)),
     (''target_types'', json_target_types (pl_target_types pool)),
     (''max_concurrency'', JInt (pl_max_concurrency pool)),
     (''status'', JStr (resource_status_value (pl_status pool)))]"

text \<open>The types of the targets that name the pool, directly or through an environment.\<close>

definition bound_target_types :: "uuid \<Rightarrow> db \<Rightarrow> target_type list" where
  "bound_target_types pool d =
     map t_type (filter (\<lambda>t. t_pool t = Some pool) (targets d))
     @ concat (map (\<lambda>e. map t_type (filter (\<lambda>t. t_id t = e_target e) (targets d)))
         (filter (\<lambda>e. e_pool e = Some pool) (environments d)))"

definition apply_pool_update :: "pool_update \<Rightarrow> pool_row \<Rightarrow> pool_row" where
  "apply_pool_update u pool =
     pool\<lparr>pl_name := given_or (pp_name u) (pl_name pool),
       pl_description := given_or (pp_description u) (pl_description pool),
       pl_target_types := given_or (pp_target_types u) (pl_target_types pool),
       pl_max_concurrency := given_or (pp_max_concurrency u) (pl_max_concurrency pool),
       pl_status := given_or (pp_status u) (pl_status pool)\<rparr>"

lemma apply_pool_update_id [simp]: "pl_id (apply_pool_update u pool) = pl_id pool"
  by (simp add: apply_pool_update_def)

definition update_runner_pool ::
  "txn \<Rightarrow> int \<Rightarrow> uuid \<Rightarrow> pool_update \<Rightarrow> uuid \<Rightarrow> db \<Rightarrow> service_error + db \<times> pool_view" where
  "update_runner_pool x ttl i u actor d =
     bind_outcome (runner_pool i d) (\<lambda>pool.
       if pp_target_types u \<noteq> None
         \<and> \<not> set (bound_target_types i d) \<subseteq> set (given_or (pp_target_types u) [])
       then Inl (ResourceConflict ''Runner Pool target types are still used by project bindings'')
       else
       let pool' = apply_pool_update u pool;
           d1 = audit x actor ''runner.pool_updated'' ''runner_pool'' i None
             [(''before'', pool_details pool), (''after'', pool_details pool')]
             (d\<lparr>pools := update_row pl_id i (\<lambda>_. pool') (pools d)\<rparr>)
       in bind_outcome (commit d1) (\<lambda>d2. Inr (d2, runner_pool_payload (txn_now x) ttl pool' d2)))"

subsection \<open>Workers\<close>

record worker_heartbeat =
  wh_pool_key :: string
  wh_display_name :: string
  wh_version :: string
  wh_max_slots :: int
  wh_capabilities :: runner_capabilities

definition beating_worker :: "txn \<Rightarrow> worker_heartbeat \<Rightarrow> worker_row \<Rightarrow> worker_row" where
  "beating_worker x u w =
     w\<lparr>w_display_name := wh_display_name u, w_version := wh_version u, w_capabilities := wh_capabilities u,
       w_max_slots := wh_max_slots u, w_last_heartbeat := txn_now x\<rparr>"

definition store_heartbeat ::
  "txn \<Rightarrow> string \<Rightarrow> worker_heartbeat \<Rightarrow> pool_row \<Rightarrow> db \<Rightarrow> service_error + db \<times> worker_row \<times> pool_row" where
  "store_heartbeat x worker_key u pool d =
     (case lookup_row w_key worker_key (workers d) of
       None \<Rightarrow>
         (let w = \<lparr>w_id = txn_uuid x Draw_row, w_pool = pl_id pool, w_key = worker_key,
                w_display_name = wh_display_name u, w_version = wh_version u,
                w_capabilities = wh_capabilities u, w_max_slots = wh_max_slots u,
                w_status = Resource_ACTIVE, w_last_heartbeat = txn_now x\<rparr>;
              d1 = audit x RUNNER_ACTOR_ID ''runner.worker_registered'' ''runner_worker'' (w_id w) None
                [(''worker_key'', JStr worker_key), (''pool_key'', JStr (pl_key pool))]
                (d\<lparr>workers := workers d @ [w]\<rparr>)
          in bind_outcome (commit d1) (\<lambda>d2. Inr (d2, w, pool)))
     | Some w \<Rightarrow>
         if w_pool w \<noteq> pl_id pool
         then Inl (ResourceConflict ''Runner worker key is already registered in another pool'')
         else
         (let w' = beating_worker x u w
          in bind_outcome (commit (d\<lparr>workers := update_row w_id (w_id w) (\<lambda>_. w') (workers d)\<rparr>))
               (\<lambda>d2. Inr (d2, w', pool))))"

definition heartbeat_runner_worker ::
  "txn \<Rightarrow> string \<Rightarrow> worker_heartbeat \<Rightarrow> db \<Rightarrow> service_error + db \<times> worker_row \<times> pool_row" where
  "heartbeat_runner_worker x worker_key u d =
     bind_outcome (require_row (ResourceNotFound ''Runner Pool not found for worker heartbeat'')
       (lookup_row pl_key (wh_pool_key u) (pools d))) (\<lambda>pool.
     if set (rc_target_types (wh_capabilities u)) \<inter> set (pl_target_types pool) = {}
     then Inl (InvalidRequest ''Runner capabilities do not match the Runner Pool target types'')
     else store_heartbeat x worker_key u pool d)"

text \<open>The pool is read after the commit: failing to find it leaves the update committed.\<close>

definition update_runner_worker ::
  "txn \<Rightarrow> uuid \<Rightarrow> resource_status \<Rightarrow> uuid \<Rightarrow> db
    \<Rightarrow> service_error + db \<times> worker_row \<times> (service_error + pool_row)" where
  "update_runner_worker x i status actor d =
     bind_outcome (require_row (ResourceNotFound ''Runner worker not found'') (lookup_row w_id i (workers d)))
       (\<lambda>w. let w' = w\<lparr>w_status := status\<rparr>;
            d1 = audit x actor ''runner.worker_status_updated'' ''runner_worker'' i None
              [(''previous_status'', JStr (resource_status_value (w_status w))),
               (''status'', JStr (resource_status_value status))]
              (d\<lparr>workers := update_row w_id i (\<lambda>_. w') (workers d)\<rparr>)
        in bind_outcome (commit d1) (\<lambda>d2. Inr (d2, w', runner_pool (w_pool w') d2)))"

subsection \<open>The services leave runs alone\<close>

inductive pool_call :: "db \<Rightarrow> db \<Rightarrow> bool" where
  Pool_create: "create_runner_pool x ttl u actor d = Inr (d', v) \<Longrightarrow> pool_call d d'"
| Pool_update: "update_runner_pool x ttl i u' actor d = Inr (d', v) \<Longrightarrow> pool_call d d'"
| Pool_heartbeat: "heartbeat_runner_worker x key h d = Inr (d', w, p) \<Longrightarrow> pool_call d d'"
| Pool_worker: "update_runner_worker x i status actor d = Inr (d', w, p') \<Longrightarrow> pool_call d d'"

lemma create_runner_pool_Inr:
  assumes "create_runner_pool x ttl u actor d = Inr (d', v)"
  shows "unique_ok d'" "pools d' = pools d @ [plv_pool v]" "pl_status (plv_pool v) = Resource_ACTIVE"
    "pl_target_types (plv_pool v) = pc_target_types u" "targets d' = targets d" "environments d' = environments d"
    "workers d' = workers d" "same_run_tables d d'"
  using assms unfolding create_runner_pool_def Let_def
  by (safe elim!: commit_unique_bind_InrE) (simp_all add: runner_pool_payload_def Let_def same_run_tables_def)

lemma update_runner_pool_Inr:
  assumes "update_runner_pool x ttl i u actor d = Inr (d', v)"
  obtains pool where "lookup_row pl_id i (pools d) = Some pool" "plv_pool v = apply_pool_update u pool"
    "pools d' = update_row pl_id i (\<lambda>_. apply_pool_update u pool) (pools d)"
    "pp_target_types u = None \<or> set (bound_target_types i d) \<subseteq> set (pl_target_types (apply_pool_update u pool))"
    "unique_ok d'" "targets d' = targets d" "environments d' = environments d" "same_run_tables d d'"
proof -
  obtain pool where pool: "lookup_row pl_id i (pools d) = Some pool"
    using assms unfolding update_runner_pool_def runner_pool_def by (rule bind_require_InrE)
  note call = assms [unfolded update_runner_pool_def runner_pool_def pool require_row_simps bind_outcome_simps
      guard_Inr_iff Let_def commit_Inr_iff bind_outcome_Inr_iff]
  from call have d': "d' = audit x actor ''runner.pool_updated'' ''runner_pool'' i None
      [(''before'', pool_details pool), (''after'', pool_details (apply_pool_update u pool))]
      (d\<lparr>pools := update_row pl_id i (\<lambda>_. apply_pool_update u pool) (pools d)\<rparr>)"
    and v: "v = runner_pool_payload (txn_now x) ttl (apply_pool_update u pool) d'" and "unique_ok d'"
    by blast+
  moreover have "pp_target_types u = None \<or> set (bound_target_types i d) \<subseteq> set (pl_target_types (apply_pool_update u pool))"
    using conjunct1 [OF call] by (cases "pp_target_types u") (simp_all add: apply_pool_update_def)
  ultimately show thesis
    using pool by (intro that [of pool]) (simp_all add: runner_pool_payload_def Let_def same_run_tables_def)
qed

lemma heartbeat_Inr:
  assumes "heartbeat_runner_worker x key h d = Inr (d', w, p)"
  shows "unique_ok d'" "pools d' = pools d" "targets d' = targets d" "environments d' = environments d"
    "same_run_tables d d'"
proof -
  obtain pool where "lookup_row pl_key (wh_pool_key h) (pools d) = Some pool" and
    call: "(if set (rc_target_types (wh_capabilities h)) \<inter> set (pl_target_types pool) = {}
      then Inl (InvalidRequest ''Runner capabilities do not match the Runner Pool target types'')
      else store_heartbeat x key h pool d) = Inr (d', w, p)"
    using assms unfolding heartbeat_runner_worker_def by (rule bind_require_InrE)
  from call have "store_heartbeat x key h pool d = Inr (d', w, p)" by (rule guard_InrE)
  then have "unique_ok d' \<and> pools d' = pools d \<and> targets d' = targets d \<and> environments d' = environments d
      \<and> same_run_tables d d'"
    unfolding store_heartbeat_def Let_def
    by (cases "lookup_row w_key key (workers d)")
      (auto simp: same_run_tables_def elim!: commit_bind_InrE guard_InrE simp del: if_split)
  then show "unique_ok d'" "pools d' = pools d" "targets d' = targets d" "environments d' = environments d"
    "same_run_tables d d'" by simp_all
qed

lemma update_runner_worker_Inr:
  assumes "update_runner_worker x i status actor d = Inr (d', w, p)"
  shows "unique_ok d'" "pools d' = pools d" "targets d' = targets d" "environments d' = environments d"
    "same_run_tables d d'"
  using assms unfolding update_runner_worker_def Let_def
  by (safe elim!: bind_require_InrE commit_bind_InrE) (simp_all add: same_run_tables_def)

interpretation pool_services: side_service pool_call
proof
  fix d d' assume "pool_call d d'"
  then have "same_run_tables d d' \<and> unique_ok d'"
  proof (cases rule: pool_call.cases)
    case Pool_create
    from create_runner_pool_Inr(1,8) [OF this] show ?thesis by simp
  next
    case Pool_update
    then show ?thesis by (rule update_runner_pool_Inr) simp
  next
    case Pool_heartbeat
    from heartbeat_Inr(1,5) [OF this] show ?thesis by simp
  next
    case Pool_worker
    from update_runner_worker_Inr(1,5) [OF this] show ?thesis by simp
  qed
  then show "same_run_tables d d'" "unique_ok d \<Longrightarrow> unique_ok d'" by simp_all
qed

end
