(* ===== verification/Outbox_Dispatch.thy ===== *)
theory Outbox_Dispatch
  imports Run_Reliability Runner_Pools
begin

section \<open>Dispatching the outbox\<close>

text \<open>
  \<open>services/worker/src/testops/worker/outbox.py\<close>: \<open>_prepare_run_dispatch\<close> (pool, healthy and
  capable workers, isolation, package, capacity, slot lease) and \<open>dispatch_outbox_batch\<close>, which
  hands the due records to the task broker in one transaction.

  The broker is code outside the repository: \<open>publish task queue\<close> is \<open>None\<close> when \<open>send_task\<close>
  returns and \<open>Some message\<close> when it raises.  \<open>busy\<close> tells the records another transaction
  holds (\<open>skip_locked\<close>).  Seconds given as floats are instants (microseconds) here.
\<close>

subsection \<open>Tasks\<close>

datatype task = Execute_run_task run_snapshot uuid | Cancel_run_task uuid uuid

definition task_for :: "outbox_row \<Rightarrow> string + task" where
  "task_for rec =
     (case o_event_type rec of
        Run_queued \<Rightarrow> (case o_payload rec of
            Queued_payload snapshot _ \<Rightarrow> Inr (Execute_run_task snapshot (o_aggregate rec))
          | Cancel_payload _ _ \<Rightarrow> Inl ''run_snapshot'')
      | Run_cancel_requested \<Rightarrow> Inr (Cancel_run_task (o_aggregate rec) (o_id rec))
      | Other_event _ \<Rightarrow> Inl ''unsupported Outbox event: {}'')"

subsection \<open>Which workers can run a snapshot\<close>

definition worker_matches :: "target_type \<Rightarrow> string option \<Rightarrow> worker_row \<Rightarrow> bool" where
  "worker_matches target browser w \<longleftrightarrow>
     target \<in> set (rc_target_types (w_capabilities w))
     \<and> (case browser of None \<Rightarrow> True | Some b \<Rightarrow> b \<in> set (rc_browsers (w_capabilities w)))"

definition worker_hosts_package :: "package_ref \<Rightarrow> worker_row \<Rightarrow> bool" where
  "worker_hosts_package k w \<longleftrightarrow>
     (\<exists>p\<in>set (rc_packages (w_capabilities w)).
        rt_runner_type p = pref_runner_type k \<and> rt_image_repository p = pref_image_repository k
        \<and> map to_lower (rt_digest p) = map to_lower (pref_digest k))"

definition hard_isolation :: "isolation_capabilities \<Rightarrow> bool" where
  "hard_isolation i \<longleftrightarrow>
     ic_dedicated_process i \<and> ic_credential_scope i = RUN_SECRETS_ONLY \<and> ic_read_only_root i
     \<and> ic_network_policy i \<in> {DENY_ALL, ALLOWLIST} \<and> ic_limits_enforced i
     \<and> ic_memory_limit i \<noteq> None \<and> ic_cpu_limit i \<noteq> None"

definition worker_supports_execution_isolation :: "bool \<Rightarrow> worker_row \<Rightarrow> bool" where
  "worker_supports_execution_isolation allow_in_process w =
     (case rc_isolation (w_capabilities w) of
        None \<Rightarrow> False
      | Some i \<Rightarrow>
          if allow_in_process \<and> ic_mode i = IN_PROCESS
          then \<not> ic_dedicated_process i \<and> ic_credential_scope i = WORKER
          else if ic_mode i = SUBPROCESS
          then ic_dedicated_process i \<and> ic_credential_scope i = RUN_SECRETS_ONLY
          else if ic_mode i \<notin> {CONTAINER, KUBERNETES} then False
          else if \<not> hard_isolation i then False
          else if ic_mode i = CONTAINER then ic_pids_limit i \<noteq> None
          else ic_storage_limit i \<noteq> None \<and> ic_namespace i \<noteq> None
            \<and> ic_service_account i \<notin> {None, Some [], Some ''default''}
            \<and> ic_token_automounted i = Some False)"

definition worker_isolation_rank :: "worker_row \<Rightarrow> nat" where
  "worker_isolation_rank w =
     (case rc_isolation (w_capabilities w) of
        None \<Rightarrow> 0
      | Some i \<Rightarrow> (case ic_mode i of IN_PROCESS \<Rightarrow> 1 | SUBPROCESS \<Rightarrow> 2 | CONTAINER \<Rightarrow> 3 | KUBERNETES \<Rightarrow> 4))"

definition strongest :: "worker_row list \<Rightarrow> worker_row list" where
  "strongest ws = filter (\<lambda>w. worker_isolation_rank w = Max (worker_isolation_rank ` set ws)) ws"

text \<open>The filters in the order of the source, each with the reason to wait when none is left.\<close>

definition eligible_workers :: "run_snapshot \<Rightarrow> worker_row list \<Rightarrow> wait_reason + worker_row list" where
  "eligible_workers snapshot healthy =
     (let capable = filter (worker_matches (snap_target_type snapshot) (snap_browser snapshot)) healthy;
          k = snap_package snapshot;
          in_process = snap_target_type snapshot = APP \<and> pref_runner_type k = ANDROID_APPIUM;
          isolated = filter (worker_supports_execution_isolation in_process) capable;
          hosting = filter (worker_hosts_package k) isolated
      in if capable = [] then Inl RUNNER_CAPABILITY_MISMATCH
         else if isolated = [] then Inl RUNNER_ISOLATION_UNAVAILABLE
         else if hosting = [] then Inl AUTOMATION_PACKAGE_UNAVAILABLE
         else Inr (strongest hosting))"

subsection \<open>Preparing one record\<close>

datatype preparation =
    Wait wait_reason
  | Prepared (prep_queue: "string option") (prep_run: "run_row option") (prep_lease: "lease_row option")
      (prep_skip: bool)

definition mark_dispatched :: "instant \<Rightarrow> run_row \<Rightarrow> run_row" where
  "mark_dispatched moment r =
     r\<lparr>r_dispatch_state := Dispatch_DISPATCHED, r_wait_reason := None, r_dispatched_at := Some moment\<rparr>"

definition mark_waiting :: "wait_reason \<Rightarrow> run_row \<Rightarrow> run_row" where
  "mark_waiting reason r = r\<lparr>r_dispatch_state := Dispatch_WAITING, r_wait_reason := Some reason\<rparr>"

definition new_lease :: "txn \<Rightarrow> uuid \<Rightarrow> uuid \<Rightarrow> lease_row" where
  "new_lease x pool i =
     \<lparr>l_id = txn_uuid x (Draw_lease i), l_pool = pool, l_run = i, l_worker = None,
      l_status = Lease_ACTIVE, l_acquired_at = txn_now x, l_released_at = None\<rparr>"

definition take_slot :: "txn \<Rightarrow> pool_row \<Rightarrow> run_row \<Rightarrow> worker_row list \<Rightarrow> db \<Rightarrow> db \<times> preparation" where
  "take_slot x pool r eligible d =
     (case find (\<lambda>l. l_run l = r_id r \<and> active_lease l) (leases d) of
        Some existing \<Rightarrow> (d, Prepared (Some (pl_queue pool)) (Some r) (Some existing) False)
      | None \<Rightarrow>
          if effective_capacity pool eligible \<le> int (active_leases_of (pl_id pool) d)
          then (d, Wait RUNNER_POOL_CAPACITY_EXHAUSTED)
          else (let l = new_lease x (pl_id pool) (r_id r)
                in (d\<lparr>leases := leases d @ [l]\<rparr>,
                    Prepared (Some (pl_queue pool)) (Some r) (Some l) False)))"

definition pool_wait :: "pool_row option \<Rightarrow> wait_reason + pool_row" where
  "pool_wait pool =
     (case pool of
        None \<Rightarrow> Inl RUNNER_POOL_NOT_FOUND
      | Some p \<Rightarrow>
          if pl_status p = Resource_DRAINING then Inl RUNNER_POOL_DRAINING
          else if pl_status p \<noteq> Resource_ACTIVE then Inl RUNNER_POOL_DISABLED
          else Inr p)"

definition dispatch_to_pool ::
  "txn \<Rightarrow> int \<Rightarrow> outbox_row \<Rightarrow> run_row \<Rightarrow> pool_row \<Rightarrow> db \<Rightarrow> service_error + db \<times> preparation" where
  "dispatch_to_pool x heartbeat_ttl rec r pool d =
     (let healthy = healthy_workers (txn_now x - microseconds heartbeat_ttl) (pl_id pool) d in
      if healthy = [] then Inr (d, Wait NO_HEALTHY_RUNNER)
      else case o_payload rec of
        Cancel_payload _ _ \<Rightarrow> Inl (Value_error ''run_snapshot'')
      | Queued_payload snapshot _ \<Rightarrow>
         (case eligible_workers snapshot healthy of
            Inl reason \<Rightarrow> Inr (d, Wait reason)
          | Inr eligible \<Rightarrow> Inr (take_slot x pool r eligible d)))"

definition prepare_run_dispatch ::
  "txn \<Rightarrow> int \<Rightarrow> outbox_row \<Rightarrow> db \<Rightarrow> service_error + db \<times> preparation" where
  "prepare_run_dispatch x heartbeat_ttl rec d =
     (if o_event_type rec \<noteq> Run_queued then Inr (d, Prepared None None None False)
      else case lookup_row r_id (o_aggregate rec) (runs d) of
        None \<Rightarrow> Inl (Value_error ''Outbox Run no longer exists'')
      | Some r \<Rightarrow>
        if terminal_status (r_status r)
        then let r' = mark_dispatched (txn_now x) r in Inr (store_run r' d, Prepared None (Some r') None True)
        else case r_pool r of
          None \<Rightarrow> Inr (d, Prepared None (Some r) None False)
        | Some i \<Rightarrow>
          (case pool_wait (lookup_row pl_id i (pools d)) of
             Inl reason \<Rightarrow> Inr (d, Wait reason)
           | Inr pool \<Rightarrow> dispatch_to_pool x heartbeat_ttl rec r pool d))"

subsection \<open>One record\<close>

definition backoff_seconds :: "nat \<Rightarrow> int" where
  "backoff_seconds attempts = min 300 (2 ^ min attempts 8)"

datatype delivery = Delivered | Refused | Delayed

definition store_record :: "outbox_row \<Rightarrow> db \<Rightarrow> db" where
  "store_record rec d = d\<lparr>outbox := update_row o_key (o_key rec) (\<lambda>_. rec) (outbox d)\<rparr>"

definition delay_record :: "txn \<Rightarrow> instant \<Rightarrow> wait_reason \<Rightarrow> outbox_row \<Rightarrow> db \<Rightarrow> db" where
  "delay_record x poll reason rec d =
     (let d1 = (case lookup_row r_id (o_aggregate rec) (runs d) of
            None \<Rightarrow> d | Some r \<Rightarrow> store_run (mark_waiting reason r) d)
      in store_record (rec\<lparr>o_last_error := Some (Waiting_for reason), o_available_at := txn_now x + poll\<rparr>) d1)"

definition deliver_record :: "txn \<Rightarrow> outbox_row \<Rightarrow> run_row option \<Rightarrow> db \<Rightarrow> db" where
  "deliver_record x rec run d =
     (let d1 = (case run of None \<Rightarrow> d | Some r \<Rightarrow> store_run (mark_dispatched (txn_now x) r) d)
      in store_record (rec\<lparr>o_status := Outbox_PUBLISHED, o_processed_at := Some (txn_now x),
           o_last_error := None\<rparr>) d1)"

definition refuse_record ::
  "txn \<Rightarrow> string \<Rightarrow> outbox_row \<Rightarrow> run_row option \<Rightarrow> lease_row option \<Rightarrow> db \<Rightarrow> db" where
  "refuse_record x message rec run lease d =
     (let d1 = (case run of None \<Rightarrow> d | Some r \<Rightarrow> store_run (mark_waiting BROKER_PUBLISH_FAILED r) d);
          d2 = (case lease of None \<Rightarrow> d1
                | Some l \<Rightarrow> d1\<lparr>leases := release_leases (txn_now x) [l] (leases d1)\<rparr>)
      in store_record (rec\<lparr>o_last_error := Some (Publish_error (take 2000 message)),
           o_available_at := txn_now x + microseconds (backoff_seconds (o_attempts rec))\<rparr>) d2)"

definition send_record ::
  "txn \<Rightarrow> (task \<Rightarrow> string option \<Rightarrow> string option) \<Rightarrow> outbox_row \<Rightarrow> string option \<Rightarrow> run_row option
   \<Rightarrow> lease_row option \<Rightarrow> db \<Rightarrow> db \<times> delivery \<times> task list" where
  "send_record x publish rec queue run lease d =
     (let tried = rec\<lparr>o_attempts := Suc (o_attempts rec)\<rparr> in
      case task_for tried of
        Inl message \<Rightarrow> (refuse_record x message tried run lease d, Refused, [])
      | Inr t \<Rightarrow>
          (case publish t queue of
             Some message \<Rightarrow> (refuse_record x message tried run lease d, Refused, [])
           | None \<Rightarrow> (deliver_record x tried run d, Delivered, [t])))"

definition dispatch_record ::
  "txn \<Rightarrow> (task \<Rightarrow> string option \<Rightarrow> string option) \<Rightarrow> int \<Rightarrow> instant \<Rightarrow> outbox_row \<Rightarrow> db
   \<Rightarrow> service_error + db \<times> delivery \<times> task list" where
  "dispatch_record x publish heartbeat_ttl poll rec d =
     bind_outcome (prepare_run_dispatch x heartbeat_ttl rec d) (\<lambda>(d1, prep).
     case prep of
       Wait reason \<Rightarrow> Inr (delay_record x poll reason rec d1, Delayed, [])
     | Prepared queue run lease skip \<Rightarrow>
         if skip then Inr (store_record (rec\<lparr>o_status := Outbox_PUBLISHED,
             o_processed_at := Some (txn_now x), o_last_error := None\<rparr>) d1, Delivered, [])
         else Inr (send_record x publish rec queue run lease d1))"

subsection \<open>The batch\<close>

definition due_records :: "instant \<Rightarrow> (uuid \<Rightarrow> bool) \<Rightarrow> nat \<Rightarrow> db \<Rightarrow> outbox_row list" where
  "due_records moment busy limit d =
     take limit (sort_key o_created_at
       (filter (\<lambda>rec. o_status rec = Outbox_PENDING \<and> o_available_at rec \<le> moment \<and> \<not> busy (o_id rec))
         (outbox d)))"

text \<open>The loop; each record starts with a flush of the previous ones' changes, the end commits.\<close>

fun dispatch_each ::
  "txn \<Rightarrow> (task \<Rightarrow> string option \<Rightarrow> string option) \<Rightarrow> int \<Rightarrow> instant \<Rightarrow> outbox_row list \<Rightarrow> db
   \<Rightarrow> service_error + db \<times> delivery list \<times> task list" where
  "dispatch_each x publish ttl poll [] d = (if unique_ok d then Inr (d, [], []) else Inl Integrity_error)"
| "dispatch_each x publish ttl poll (rec # recs) d =
     (if \<not> unique_ok d then Inl Integrity_error
      else bind_outcome (dispatch_record x publish ttl poll rec d) (\<lambda>(d1, out, sent).
        bind_outcome (dispatch_each x publish ttl poll recs d1) (\<lambda>(d2, outs, more).
        Inr (d2, out # outs, sent @ more))))"

record dispatch_summary =
  ds_selected :: nat
  ds_published :: nat
  ds_failed :: nat
  ds_waiting :: nat

definition count_deliveries :: "delivery list \<Rightarrow> dispatch_summary" where
  "count_deliveries outs =
     (let published = count_list outs Delivered; failed = count_list outs Refused;
          waiting = count_list outs Delayed
      in \<lparr>ds_selected = published + failed + waiting, ds_published = published,
          ds_failed = failed, ds_waiting = waiting\<rparr>)"

definition dispatch_outbox_batch ::
  "txn \<Rightarrow> (task \<Rightarrow> string option \<Rightarrow> string option) \<Rightarrow> (uuid \<Rightarrow> bool) \<Rightarrow> nat \<Rightarrow> int \<Rightarrow> instant \<Rightarrow> db
   \<Rightarrow> service_error + db \<times> dispatch_summary \<times> task list" where
  "dispatch_outbox_batch x publish busy limit heartbeat_ttl poll d =
     (if \<not> (1 \<le> limit \<and> limit \<le> 500)
      then Inl (Value_error ''Outbox dispatch limit must be between 1 and 500'')
      else if \<not> (15 \<le> heartbeat_ttl \<and> heartbeat_ttl \<le> 600)
      then Inl (Value_error ''Runner heartbeat TTL must be between 15 and 600 seconds'')
      else if \<not> (100000 \<le> poll \<and> poll \<le> microseconds 60)
      then Inl (Value_error ''capacity poll interval must be between 0.1 and 60 seconds'')
      else bind_outcome (dispatch_each x publish heartbeat_ttl poll (due_records (txn_now x) busy limit d) d)
        (\<lambda>(d1, outs, sent). Inr (d1, count_deliveries outs, sent)))"

subsection \<open>Dispatching keeps the invariant\<close>

text \<open>
  A record's dispatch changes at most one run's dispatch columns, the record itself and the
  run's lease; the locale of the invariant asks for nothing more.
\<close>

definition slot_columns :: "run_row \<Rightarrow> uuid \<times> bool \<times> uuid option" where
  "slot_columns r = (r_id r, terminal_status (r_status r), r_pool r)"

lemma slots_ok_columns:
  assumes "slots_ok rows ls" "map slot_columns rows' = map slot_columns rows"
  shows "slots_ok rows' ls"
proof -
  have "lease_ok rows' l" if l: "l \<in> set ls" for l
  proof (cases "active_lease l")
    case True
    have "lease_ok rows l" using assms(1) l by (simp add: slots_ok_def)
    with True obtain r where r: "r \<in> set rows" "r_id r = l_run l" "\<not> terminal_status (r_status r)" "r_pool r = Some (l_pool l)"
      by (auto simp: lease_ok_def)
    then have "slot_columns r \<in> set (map slot_columns rows')"
      unfolding assms(2) by simp
    then obtain r' where "r' \<in> set rows'" "slot_columns r' = slot_columns r" by auto
    with r show ?thesis by (auto simp: lease_ok_def slot_columns_def)
  qed (simp add: lease_ok_def)
  with assms(1) show ?thesis by (simp add: slots_ok_def)
qed

definition undispatched :: "run_row \<Rightarrow> run_row" where
  "undispatched r = r\<lparr>r_dispatch_state := Dispatch_PENDING, r_wait_reason := None, r_dispatched_at := None\<rparr>"

definition dispatch_change :: "run_row \<Rightarrow> run_row \<Rightarrow> bool" where
  "dispatch_change r s \<longleftrightarrow> undispatched s = undispatched r"

lemma undispatched_columns:
  "run_row_ok (undispatched r) = run_row_ok r" "r_id (undispatched r) = r_id r"
  "slot_columns (undispatched r) = slot_columns r" "r_status (undispatched r) = r_status r"
  "r_pool (undispatched r) = r_pool r" "run_changes q (undispatched r) = run_changes q r"
  "run_changes (undispatched r) q = run_changes r q"
  by (simp_all add: undispatched_def run_row_ok_def slot_columns_def run_changes_def)

lemma dispatch_change_row:
  assumes "dispatch_change r s" "run_row_ok r"
  shows "run_row_ok s" "run_changes r s" "r_id s = r_id r" "slot_columns s = slot_columns r"
    "r_status s = r_status r" "r_pool s = r_pool r"
proof -
  have eq: "undispatched s = undispatched r" using assms(1) by (simp add: dispatch_change_def)
  have "run_changes r r" by simp
  then show "run_changes r s" using eq undispatched_columns(6) [of r s] undispatched_columns(6) [of r r] by simp
  show "run_row_ok s" "r_id s = r_id r" "slot_columns s = slot_columns r" "r_status s = r_status r" "r_pool s = r_pool r"
    using eq assms(2) undispatched_columns(1-5) [of s] undispatched_columns(1-5) [of r] by simp_all
qed

lemma dispatch_change_mark:
  "dispatch_change r r" "dispatch_change r (mark_dispatched t r)" "dispatch_change r (mark_waiting w r)"
  "dispatch_change r s \<Longrightarrow> dispatch_change r (mark_dispatched t s)"
  by (simp_all add: dispatch_change_def undispatched_def mark_dispatched_def mark_waiting_def)

lemma store_record_frame [simp]:
  "runs (store_record rec d) = runs d" "run_cases (store_record rec d) = run_cases d"
  "events (store_record rec d) = events d" "leases (store_record rec d) = leases d"
  "pools (store_record rec d) = pools d" "workers (store_record rec d) = workers d"
  by (simp_all add: store_record_def)

lemma outbox_store_record:
  assumes "rec \<in> set (outbox d)" "unique_on o_key (outbox d)" "dispatch_columns rec' = dispatch_columns rec"
    and "outbox d1 = outbox d"
  shows "map dispatch_columns (outbox (store_record rec' d1)) = map dispatch_columns (outbox d)"
proof -
  have "dispatch_columns (if o_key q = o_key rec' then rec' else q) = dispatch_columns q" if "q \<in> set (outbox d)" for q
    using unique_on_eq [OF assms(2) that assms(1)] assms(3) by (auto simp: dispatch_columns_def)
  then show ?thesis
    using assms(4) by (simp add: store_record_def update_row_def update_where_def)
qed

lemma dispatch_step:
  assumes ok: "control_ok d" and uniq: "unique_ok d'" and rec: "rec \<in> set (outbox d)"
    and found: "lookup_row r_id (r_id r) (runs d) = Some r" and ch: "dispatch_change r s"
    and rs: "runs d' = runs (store_run s d)"
    and same: "run_cases d' = run_cases d" "events d' = events d"
    and os: "map dispatch_columns (outbox d') = map dispatch_columns (outbox d)"
    and ls: "slots_ok (runs d) (leases d')"
  shows "control_ok d' \<and> runs_evolve (runs d) (runs d')"
proof -
  have mem: "r \<in> set (runs d)" using lookup_row_SomeD [OF found] by simp
  note row = dispatch_change_row [OF ch control_okD(4) [OF ok mem]]
  have "map slot_columns (runs (store_run s d)) = map slot_columns (runs d)"
    using found row(3,4) control_okD(9) [OF ok] by (intro map_runs_store_run [where r = r]) simp_all
  then have "slots_ok (runs d') (leases d')"
    using slots_ok_columns [OF ls] rs by simp
  moreover have "o_key ` set (outbox d') = o_key ` set (outbox d)"
  proof -
    have "map o_key (outbox d') = map fst (map dispatch_columns (outbox d'))"
      "map o_key (outbox d) = map fst (map dispatch_columns (outbox d))"
      by (simp_all add: dispatch_columns_def comp_def)
    then have "map o_key (outbox d') = map o_key (outbox d)" by (simp only: os)
    then show ?thesis by (metis set_map)
  qed
  moreover have "v_run ` set (events d') \<subseteq> r_id ` set (runs d)" "log_ok (events d')"
    using control_okD(2,3) [OF ok] same(2) by (simp_all add: refs_ok_def)
  ultimately show ?thesis
    using ok uniq found row rs same(1) os
    by (intro control_ok_step [where r = r and s = s]) auto
qed

lemma record_step:
  assumes ok: "control_ok d" and uniq: "unique_ok d'"
    and same: "runs d' = runs d" "run_cases d' = run_cases d" "events d' = events d" "leases d' = leases d"
    and os: "map dispatch_columns (outbox d') = map dispatch_columns (outbox d)"
  shows "control_ok d'"
proof -
  have "o_key ` set (outbox d') = fst ` set (map dispatch_columns (outbox d'))"
    by (force simp: dispatch_columns_def)
  also have "\<dots> = o_key ` set (outbox d)"
    unfolding os by (force simp: dispatch_columns_def)
  finally have keys: "o_key ` set (outbox d') = o_key ` set (outbox d)" .
  have "outbox_key_ok (runs d') (o_key o')" if "o' \<in> set (outbox d')" for o'
  proof -
    from that keys obtain q where "q \<in> set (outbox d)" "o_key q = o_key o'" by (metis imageE imageI)
    with control_okD(10) [OF ok this(1)] same(1) show ?thesis by simp
  qed
  moreover have "has_dispatch_record (outbox d') r" if "r \<in> set (runs d')" for r
  proof (rule has_dispatch_record_columns)
    show "has_dispatch_record (outbox d) r" using control_okD(5) [OF ok] that same(1) by simp
  qed (simp only: os subset_refl)
  ultimately show ?thesis
    using ok uniq control_okD [OF ok] same by (intro control_okI) (simp_all add: refs_ok_def)
qed

lemma pool_wait_Inr: "pool_wait p = Inr pool \<longleftrightarrow> p = Some pool \<and> pl_status pool = Resource_ACTIVE"
  by (auto simp: pool_wait_def split: option.splits)

text \<open>What a pooled run gets: a reason to wait, its own lease again, or a new one.\<close>

lemma dispatch_to_pool_Inr:
  assumes "dispatch_to_pool x ttl rec r pool d = Inr (d1, prep)"
  obtains
    (waiting) reason where "d1 = d" "prep = Wait reason"
  | (held) l where "find (\<lambda>l. l_run l = r_id r \<and> active_lease l) (leases d) = Some l"
      "d1 = d" "prep = Prepared (Some (pl_queue pool)) (Some r) (Some l) False"
  | (taken) snapshot q eligible where "o_payload rec = Queued_payload snapshot q"
      "eligible_workers snapshot (healthy_workers (txn_now x - microseconds ttl) (pl_id pool) d) = Inr eligible"
      "find (\<lambda>l. l_run l = r_id r \<and> active_lease l) (leases d) = None"
      "int (active_leases_of (pl_id pool) d) < effective_capacity pool eligible"
      "d1 = d\<lparr>leases := leases d @ [new_lease x (pl_id pool) (r_id r)]\<rparr>"
      "prep = Prepared (Some (pl_queue pool)) (Some r) (Some (new_lease x (pl_id pool) (r_id r))) False"
proof (cases "\<exists>reason. d1 = d \<and> prep = Wait reason")
  case True
  then show thesis using waiting by blast
next
  case busy: False
  let ?healthy = "healthy_workers (txn_now x - microseconds ttl) (pl_id pool) d"
  obtain snapshot q where payload: "o_payload rec = Queued_payload snapshot q" and some: "?healthy \<noteq> []"
    using assms busy by (cases "o_payload rec") (auto simp: dispatch_to_pool_def Let_def split: if_split_asm)
  then obtain eligible where el: "eligible_workers snapshot ?healthy = Inr eligible"
    using assms busy by (cases "eligible_workers snapshot ?healthy") (auto simp: dispatch_to_pool_def)
  then have slot: "take_slot x pool r eligible d = (d1, prep)"
    using assms payload some by (simp add: dispatch_to_pool_def)
  show thesis
  proof (cases "find (\<lambda>l. l_run l = r_id r \<and> active_lease l) (leases d)")
    case (Some l)
    with slot show thesis by (intro held [of l]) (simp_all add: take_slot_def)
  next
    case None
    with slot busy have "\<not> effective_capacity pool eligible \<le> int (active_leases_of (pl_id pool) d)"
      by (auto simp: take_slot_def split: if_split_asm)
    with slot None payload el show thesis
      by (intro taken [of snapshot q eligible]) (simp_all add: take_slot_def Let_def)
  qed
qed

lemma prepare_Inr:
  assumes "prepare_run_dispatch x ttl rec d = Inr (d1, prep)"
  obtains
    (other) "o_event_type rec \<noteq> Run_queued" "d1 = d" "prep = Prepared None None None False"
  | (ended) r where "lookup_row r_id (o_aggregate rec) (runs d) = Some r" "terminal_status (r_status r)"
      "d1 = store_run (mark_dispatched (txn_now x) r) d"
      "prep = Prepared None (Some (mark_dispatched (txn_now x) r)) None True"
  | (waiting) r reason where "lookup_row r_id (o_aggregate rec) (runs d) = Some r"
      "\<not> terminal_status (r_status r)" "d1 = d" "prep = Wait reason"
  | (unpooled) r where "lookup_row r_id (o_aggregate rec) (runs d) = Some r"
      "\<not> terminal_status (r_status r)" "d1 = d" "prep = Prepared None (Some r) None False"
  | (pooled) r pool where "lookup_row r_id (o_aggregate rec) (runs d) = Some r"
      "\<not> terminal_status (r_status r)" "r_pool r = Some (pl_id pool)"
      "lookup_row pl_id (pl_id pool) (pools d) = Some pool" "pl_status pool = Resource_ACTIVE"
      "dispatch_to_pool x ttl rec r pool d = Inr (d1, prep)"
proof (cases "o_event_type rec = Run_queued")
  case False
  with assms show thesis by (intro other) (simp_all add: prepare_run_dispatch_def)
next
  case queued: True
  then obtain r where r: "lookup_row r_id (o_aggregate rec) (runs d) = Some r"
    using assms by (cases "lookup_row r_id (o_aggregate rec) (runs d)") (simp_all add: prepare_run_dispatch_def)
  show thesis
  proof (cases "terminal_status (r_status r)")
    case True
    with assms queued r show thesis by (intro ended [of r]) (simp_all add: prepare_run_dispatch_def Let_def)
  next
    case live: False
    show thesis
    proof (cases "r_pool r")
      case None
      with assms queued r live show thesis by (intro unpooled [of r]) (simp_all add: prepare_run_dispatch_def)
    next
      case (Some i)
      show thesis
      proof (cases "pool_wait (lookup_row pl_id i (pools d))")
        case (Inl reason)
        with assms queued r live Some show thesis
          by (intro waiting [of r reason]) (simp_all add: prepare_run_dispatch_def)
      next
        case (Inr pool)
        then have "lookup_row pl_id i (pools d) = Some pool" "pl_status pool = Resource_ACTIVE" "pl_id pool = i"
          by (auto simp: pool_wait_Inr dest: lookup_row_SomeD)
        with assms queued r live Some Inr show thesis
          by (intro pooled [of r pool]) (simp_all add: prepare_run_dispatch_def)
      qed
    qed
  qed
qed

text \<open>What one record's dispatch changes for the run \<open>r\<close> it is about.\<close>

definition dispatch_effect :: "outbox_row \<Rightarrow> run_row \<Rightarrow> db \<Rightarrow> db \<Rightarrow> bool" where
  "dispatch_effect rec r d d' \<longleftrightarrow>
     (\<exists>s. dispatch_change r s \<and> runs d' = runs (store_run s d))
     \<and> run_cases d' = run_cases d \<and> events d' = events d
     \<and> (\<exists>rec'. dispatch_columns rec' = dispatch_columns rec \<and> outbox d' = outbox (store_record rec' d))
     \<and> slots_ok (runs d) (leases d')"

lemma dispatch_effectI:
  assumes "dispatch_change r s" "runs d' = runs (store_run s d)" "run_cases d' = run_cases d"
    and "events d' = events d" "dispatch_columns rec' = dispatch_columns rec"
    and "outbox d' = outbox (store_record rec' d)" "slots_ok (runs d) (leases d')"
  shows "dispatch_effect rec r d d'"
  using assms unfolding dispatch_effect_def by blast

lemma slots_ok_take:
  assumes "slots_ok rows ls" "find (\<lambda>l. l_run l = r_id r \<and> active_lease l) ls = None"
    and "r \<in> set rows" "\<not> terminal_status (r_status r)" "r_pool r = Some p"
  shows "slots_ok rows (ls @ [new_lease x p (r_id r)])"
proof -
  have "r_id r \<notin> l_run ` set (filter active_lease ls)"
    using assms(2) by (auto simp: find_None_iff)
  then have "unique_on l_run (filter active_lease (ls @ [new_lease x p (r_id r)]))"
    using assms(1) by (simp add: slots_ok_def row_simps new_lease_def active_lease_def)
  moreover have "lease_ok rows (new_lease x p (r_id r))"
    using assms(3-5) by (auto simp: lease_ok_def new_lease_def)
  ultimately show ?thesis using assms(1) by (simp add: slots_ok_def)
qed

lemma task_for_attempts: "task_for (rec\<lparr>o_attempts := n\<rparr>) = task_for rec"
  by (simp add: task_for_def split: outbox_event_type.split outbox_payload.split)

lemma send_recordE:
  assumes "send_record x publish rec queue run lease d1 = (d', out, sent)"
  obtains
    (sent) t where "task_for rec = Inr t" "publish t queue = None" "out = Delivered" "sent = [t]"
      "d' = deliver_record x (rec\<lparr>o_attempts := Suc (o_attempts rec)\<rparr>) run d1"
  | (refused) message where "out = Refused" "sent = []"
      "d' = refuse_record x message (rec\<lparr>o_attempts := Suc (o_attempts rec)\<rparr>) run lease d1"
  using assms by (auto simp: send_record_def Let_def task_for_attempts split: sum.splits option.splits)

lemma send_effect:
  assumes "send_record x publish rec q (Some r) lease d1 = (d', out, sent)"
    and "runs d1 = runs d" "run_cases d1 = run_cases d" "events d1 = events d" "outbox d1 = outbox d"
    and "slots_ok (runs d) (leases d1)"
  shows "dispatch_effect rec r d d'"
proof -
  let ?tried = "rec\<lparr>o_attempts := Suc (o_attempts rec)\<rparr>"
  have same: "runs (store_run s d1) = runs (store_run s d)" for s
    using assms(2) by (simp add: store_run_def)
  from assms(1) show ?thesis
  proof (cases rule: send_recordE)
    case (sent t)
    show ?thesis
      using assms(3-6) same
      by (intro dispatch_effectI [where s = "mark_dispatched (txn_now x) r"
            and rec' = "?tried\<lparr>o_status := Outbox_PUBLISHED, o_processed_at := Some (txn_now x), o_last_error := None\<rparr>"])
        (simp_all add: sent deliver_record_def store_record_def dispatch_columns_def dispatch_change_mark)
  next
    case (refused message)
    have "slots_ok (runs d) (leases d')"
      using assms(6) slots_ok_release
      by (cases lease) (simp_all add: refused refuse_record_def Let_def)
    then show ?thesis
      using assms(3-5) same
      by (intro dispatch_effectI [where s = "mark_waiting BROKER_PUBLISH_FAILED r"
            and rec' = "?tried\<lparr>o_last_error := Some (Publish_error (take 2000 message)),
              o_available_at := txn_now x + microseconds (backoff_seconds (o_attempts ?tried))\<rparr>"])
        (cases lease; simp add: refused refuse_record_def Let_def store_record_def dispatch_columns_def
          dispatch_change_mark)+
  qed
qed

lemma stored_columns:
  "dispatch_columns rec0 = dispatch_columns rec \<Longrightarrow>
    \<exists>rec'. dispatch_columns rec' = dispatch_columns rec \<and> store_record rec0 d = store_record rec' d"
  by blast

lemma dispatch_record_effect:
  assumes call: "dispatch_record x publish ttl poll rec d = Inr (d', out, sent)" and ok: "control_ok d"
  shows "(\<exists>r. lookup_row r_id (r_id r) (runs d) = Some r \<and> dispatch_effect rec r d d')
     \<or> (\<exists>rec'. dispatch_columns rec' = dispatch_columns rec \<and> runs d' = runs d \<and> run_cases d' = run_cases d
          \<and> events d' = events d \<and> leases d' = leases d \<and> outbox d' = outbox (store_record rec' d))"
proof -
  obtain d1 prep where prep: "prepare_run_dispatch x ttl rec d = Inr (d1, prep)"
    using call unfolding dispatch_record_def by (auto elim: bind_outcome_InrE)
  note call = call [unfolded dispatch_record_def prep bind_outcome_simps prod.case]
  have id: "lookup_row r_id (r_id r) (runs d) = Some r" if "lookup_row r_id i (runs d) = Some r" for i r
    using that lookup_row_SomeD [OF that] by simp
  have waits: "dispatch_effect rec r d (delay_record x poll reason rec d)"
    if "lookup_row r_id (o_aggregate rec) (runs d) = Some r" for r reason
    using control_ok_slots [OF ok]
    by (intro dispatch_effectI [where s = "mark_waiting reason r"
          and rec' = "rec\<lparr>o_last_error := Some (Waiting_for reason), o_available_at := txn_now x + poll\<rparr>"])
      (simp_all add: that delay_record_def Let_def store_record_def dispatch_columns_def dispatch_change_mark)
  have sends: "dispatch_effect rec r d d'"
    if "send_record x publish rec q (Some r) lease d1 = (d', out, sent)" "runs d1 = runs d" "run_cases d1 = run_cases d"
      "events d1 = events d" "outbox d1 = outbox d" "slots_ok (runs d) (leases d1)" for r q lease
    using that by (rule send_effect)
  from prep show ?thesis
  proof (cases rule: prepare_Inr)
    case other
    have "\<exists>rec'. dispatch_columns rec' = dispatch_columns rec \<and> d' = store_record rec' d"
      using call
      by (auto simp: other send_record_def Let_def deliver_record_def refuse_record_def
          split: sum.splits option.splits intro!: stored_columns) (simp_all add: dispatch_columns_def)
    then show ?thesis by auto
  next
    case (ended r)
    have "d' = store_record (rec\<lparr>o_status := Outbox_PUBLISHED, o_processed_at := Some (txn_now x),
        o_last_error := None\<rparr>) (store_run (mark_dispatched (txn_now x) r) d)"
      using call by (simp add: ended(3,4))
    then have "dispatch_effect rec r d d'"
      using control_ok_slots [OF ok]
      by (intro dispatch_effectI [OF dispatch_change_mark(2), where rec' = "rec\<lparr>o_status := Outbox_PUBLISHED,
          o_processed_at := Some (txn_now x), o_last_error := None\<rparr>"])
        (simp_all add: store_record_def dispatch_columns_def)
    with id [OF ended(1)] show ?thesis by blast
  next
    case (waiting r reason)
    then have "dispatch_effect rec r d d'" using call waits [OF waiting(1)] by auto
    with id [OF waiting(1)] show ?thesis by blast
  next
    case (unpooled r)
    then have "dispatch_effect rec r d d'"
      using call sends [of None r None] control_ok_slots [OF ok] by simp
    with id [OF unpooled(1)] show ?thesis by blast
  next
    case (pooled r pool)
    from pooled(6) have "dispatch_effect rec r d d'"
    proof (cases rule: dispatch_to_pool_Inr)
      case (waiting reason)
      then show ?thesis using call waits [OF pooled(1)] by auto
    next
      case (held l)
      then show ?thesis using call sends [of "Some (pl_queue pool)" r "Some l"] control_ok_slots [OF ok] by simp
    next
      case (taken snapshot q eligible)
      have "slots_ok (runs d) (leases d1)"
        using slots_ok_take [OF control_ok_slots [OF ok] taken(3) _ pooled(2,3)] lookup_row_SomeD [OF pooled(1)]
        by (simp add: taken(5))
      then show ?thesis
        using call sends [of "Some (pl_queue pool)" r "Some (new_lease x (pl_id pool) (r_id r))"]
        by (simp add: taken(5,6))
    qed
    with id [OF pooled(1)] show ?thesis by blast
  qed
qed

lemma dispatch_record_service:
  assumes call: "dispatch_record x publish ttl poll rec d = Inr (d', out, sent)" and ok: "control_ok d"
    and uniq: "unique_ok d'" and rec: "rec \<in> set (outbox d)"
  shows "control_ok d' \<and> runs_evolve (runs d) (runs d')"
    and "\<exists>rec'. dispatch_columns rec' = dispatch_columns rec \<and> outbox d' = outbox (store_record rec' d)"
proof -
  have keys: "unique_on o_key (outbox d)"
    using control_okD(1) [OF ok] by (simp add: unique_ok_def unique_runs_def)
  from dispatch_record_effect [OF call ok]
  show "control_ok d' \<and> runs_evolve (runs d) (runs d')"
  proof (elim disjE exE conjE)
    fix r assume r: "lookup_row r_id (r_id r) (runs d) = Some r" and eff: "dispatch_effect rec r d d'"
    obtain s rec' where s: "dispatch_change r s" "runs d' = runs (store_run s d)"
      and rec': "dispatch_columns rec' = dispatch_columns rec" "outbox d' = outbox (store_record rec' d)"
      and rest: "run_cases d' = run_cases d" "events d' = events d" "slots_ok (runs d) (leases d')"
      using eff unfolding dispatch_effect_def by blast
    have "map dispatch_columns (outbox d') = map dispatch_columns (outbox d)"
      using outbox_store_record [OF rec keys rec'(1) refl] rec'(2) by simp
    then show ?thesis by (rule dispatch_step [OF ok uniq rec r s rest(1,2) _ rest(3)])
  next
    fix rec' assume rec': "dispatch_columns rec' = dispatch_columns rec" "outbox d' = outbox (store_record rec' d)"
      and same: "runs d' = runs d" "run_cases d' = run_cases d" "events d' = events d" "leases d' = leases d"
    have "map dispatch_columns (outbox d') = map dispatch_columns (outbox d)"
      using outbox_store_record [OF rec keys rec'(1) refl] rec'(2) by simp
    from record_step [OF ok uniq same this] show ?thesis by (simp add: same(1))
  qed
  show "\<exists>rec'. dispatch_columns rec' = dispatch_columns rec \<and> outbox d' = outbox (store_record rec' d)"
    using dispatch_record_effect [OF call ok] unfolding dispatch_effect_def by blast
qed

lemma dispatch_each_unique: "dispatch_each x publish ttl poll recs d = Inr p \<Longrightarrow> unique_ok d"
  by (cases recs) (auto split: if_split_asm)

lemma dispatch_each_ConsE:
  assumes "dispatch_each x publish ttl poll (rec # recs) d = Inr (d', outs, sent)"
  obtains d1 out more outs' sent' where "dispatch_record x publish ttl poll rec d = Inr (d1, out, more)"
    "dispatch_each x publish ttl poll recs d1 = Inr (d', outs', sent')" "unique_ok d" "unique_ok d1"
    "outs = out # outs'" "sent = more @ sent'"
proof -
  have uniq: "unique_ok d" by (rule dispatch_each_unique [OF assms])
  then have "bind_outcome (dispatch_record x publish ttl poll rec d) (\<lambda>(d1, out, sent).
        bind_outcome (dispatch_each x publish ttl poll recs d1) (\<lambda>(d2, outs, more).
        Inr (d2, out # outs, sent @ more))) = Inr (d', outs, sent)"
    using assms by simp
  then obtain p where p: "dispatch_record x publish ttl poll rec d = Inr p"
    and rest: "(case p of (d1, out, sent) \<Rightarrow> bind_outcome (dispatch_each x publish ttl poll recs d1)
        (\<lambda>(d2, outs, more). Inr (d2, out # outs, sent @ more))) = Inr (d', outs, sent)"
    by (rule bind_outcome_InrE)
  obtain d1 out more where d1: "p = (d1, out, more)" by (cases p)
  obtain q where q: "dispatch_each x publish ttl poll recs d1 = Inr q"
    and eq: "(case q of (d2, outs, sent') \<Rightarrow> Inr (d2, out # outs, more @ sent'))
      = (Inr (d', outs, sent) :: service_error + db \<times> delivery list \<times> task list)"
    using rest unfolding d1 prod.case by (rule bind_outcome_InrE)
  obtain outs' sent' where "q = (d', outs', sent')" "outs = out # outs'" "sent = more @ sent'"
    using eq by (cases q) auto
  show thesis
  proof (rule that)
    show "dispatch_record x publish ttl poll rec d = Inr (d1, out, more)" using p d1 by simp
    show "dispatch_each x publish ttl poll recs d1 = Inr (d', outs', sent')" using q \<open>q = _\<close> by simp
  qed (fact uniq dispatch_each_unique [OF q] \<open>outs = _\<close> \<open>sent = _\<close>)+
qed

definition pending_in :: "outbox_row list \<Rightarrow> db \<Rightarrow> bool" where
  "pending_in recs d \<longleftrightarrow> set recs \<subseteq> set (outbox d) \<and> distinct (map o_key recs)"

lemma pending_in_tail:
  assumes "pending_in (rec # recs) d" "outbox d1 = outbox (store_record rec' d)"
    and "dispatch_columns rec' = dispatch_columns rec"
  shows "pending_in recs d1"
proof -
  have key: "o_key rec' = o_key rec" using assms(3) by (simp add: dispatch_columns_def)
  have other: "o_key rec \<notin> o_key ` set recs" "set recs \<subseteq> set (outbox d)"
    using assms(1) by (simp_all add: pending_in_def)
  have "set recs \<subseteq> set (outbox d1)"
  proof
    fix q assume q: "q \<in> set recs"
    from imageI [OF q, of o_key] have "o_key q \<noteq> o_key rec'"
      unfolding key using other(1) by metis
    with subsetD [OF other(2) q] show "q \<in> set (outbox d1)"
      unfolding assms(2) store_record_def update_row_def by (auto simp: in_set_update_where)
  qed
  with assms(1) show ?thesis by (simp add: pending_in_def)
qed

lemma dispatch_each_service:
  assumes "dispatch_each x publish ttl poll recs d = Inr (d', outs, sent)" "control_ok d" "pending_in recs d"
  shows "control_ok d' \<and> runs_evolve (runs d) (runs d')"
  using assms
proof (induction recs arbitrary: d outs sent)
  case (Cons rec recs)
  obtain d1 out more outs' sent' where call: "dispatch_record x publish ttl poll rec d = Inr (d1, out, more)"
    "dispatch_each x publish ttl poll recs d1 = Inr (d', outs', sent')" "unique_ok d1"
    using Cons.prems(1) by (rule dispatch_each_ConsE)
  have "rec \<in> set (outbox d)" using Cons.prems(3) by (simp add: pending_in_def)
  note step = dispatch_record_service [OF call(1) Cons.prems(2) call(3) this]
  from step(2) have "pending_in recs d1" using pending_in_tail [OF Cons.prems(3)] by blast
  with Cons.IH [OF call(2)] step(1) show ?case by (blast intro: runs_evolve_trans)
qed (simp split: if_split_asm)

lemma due_records_pending:
  assumes "control_ok d"
  shows "pending_in (due_records t busy n d) d" "length (due_records t busy n d) \<le> n"
    "\<forall>rec\<in>set (due_records t busy n d). o_status rec = Outbox_PENDING \<and> o_available_at rec \<le> t \<and> \<not> busy (o_id rec)"
proof -
  have "distinct (map o_key (outbox d))"
    using control_okD(1) [OF assms] by (simp add: unique_ok_def unique_runs_def unique_on_def)
  then show "pending_in (due_records t busy n d) d"
    by (auto simp: pending_in_def due_records_def distinct_map_take distinct_map_sort distinct_map_filter
        dest!: in_set_takeD)
  show "length (due_records t busy n d) \<le> n"
    unfolding due_records_def length_take by (rule min.cobounded2)
qed (auto simp: due_records_def dest!: in_set_takeD)

lemma dispatch_outbox_batch_Inr:
  assumes "dispatch_outbox_batch x publish busy limit ttl poll d = Inr (d', s, sent)"
  obtains outs where "dispatch_each x publish ttl poll (due_records (txn_now x) busy limit d) d = Inr (d', outs, sent)"
    "s = count_deliveries outs" "1 \<le> limit" "15 \<le> ttl"
proof -
  have call: "bind_outcome (dispatch_each x publish ttl poll (due_records (txn_now x) busy limit d) d)
        (\<lambda>(d1, outs, sent). Inr (d1, count_deliveries outs, sent)) = Inr (d', s, sent)" "1 \<le> limit" "15 \<le> ttl"
    using assms by (simp_all add: dispatch_outbox_batch_def split: if_split_asm)
  from call(1) obtain p where "dispatch_each x publish ttl poll (due_records (txn_now x) busy limit d) d = Inr p"
    "(case p of (d1, outs, sent) \<Rightarrow> Inr (d1, count_deliveries outs, sent))
       = (Inr (d', s, sent) :: service_error + db \<times> dispatch_summary \<times> task list)"
    by (rule bind_outcome_InrE)
  with call(2,3) show thesis by (cases p) (auto intro: that)
qed

lemma dispatch_outbox_batch_service:
  assumes "dispatch_outbox_batch x publish busy limit ttl poll d = Inr (d', s, sent)" "control_ok d"
  shows "control_ok d' \<and> runs_evolve (runs d) (runs d')"
  using assms(1)
proof (cases rule: dispatch_outbox_batch_Inr)
  case (1 outs)
  from dispatch_each_service [OF 1(1) assms(2) due_records_pending(1) [OF assms(2)]] show ?thesis .
qed

definition outbox_dispatch :: "db \<Rightarrow> db \<Rightarrow> bool" where
  "outbox_dispatch d d' \<longleftrightarrow>
     (\<exists>x publish busy limit ttl poll s sent. dispatch_outbox_batch x publish busy limit ttl poll d = Inr (d', s, sent))"

interpretation dispatching: run_service outbox_dispatch
  by unfold_locales (auto simp: outbox_dispatch_def dest: dispatch_outbox_batch_service)

subsection \<open>What happens to each record\<close>

definition record_outcome ::
  "txn \<Rightarrow> (task \<Rightarrow> string option \<Rightarrow> string option) \<Rightarrow> instant \<Rightarrow> outbox_row \<Rightarrow> outbox_row \<Rightarrow> delivery
   \<Rightarrow> task list \<Rightarrow> bool" where
  "record_outcome x publish poll rec q out sent \<longleftrightarrow>
     dispatch_columns q = dispatch_columns rec
     \<and> (case out of
          Delivered \<Rightarrow> o_status q = Outbox_PUBLISHED \<and> o_processed_at q = Some (txn_now x)
            \<and> (sent = [] \<or> (\<exists>t queue. sent = [t] \<and> task_for rec = Inr t \<and> publish t queue = None))
        | Refused \<Rightarrow> sent = [] \<and> o_status q = o_status rec
            \<and> o_available_at q = txn_now x + microseconds (backoff_seconds (Suc (o_attempts rec)))
        | Delayed \<Rightarrow> sent = [] \<and> o_status q = o_status rec \<and> o_available_at q = txn_now x + poll)"

lemma send_record_outcome:
  assumes "send_record x publish rec queue run lease d1 = (d', out, sent)"
  shows "\<exists>q. record_outcome x publish poll rec q out sent \<and> outbox d' = outbox (store_record q d1)"
proof -
  let ?tried = "rec\<lparr>o_attempts := Suc (o_attempts rec)\<rparr>"
  from assms show ?thesis
  proof (cases rule: send_recordE)
    case (sent t)
    then show ?thesis
      by (intro exI [of _ "?tried\<lparr>o_status := Outbox_PUBLISHED, o_processed_at := Some (txn_now x), o_last_error := None\<rparr>"])
        (cases run; auto simp: record_outcome_def dispatch_columns_def deliver_record_def store_record_def)
  next
    case (refused message)
    then show ?thesis
      by (intro exI [of _ "?tried\<lparr>o_last_error := Some (Publish_error (take 2000 message)),
              o_available_at := txn_now x + microseconds (backoff_seconds (o_attempts ?tried))\<rparr>"])
        (cases run; cases lease; simp add: record_outcome_def dispatch_columns_def refuse_record_def store_record_def Let_def)
  qed
qed

lemma prepare_outbox:
  assumes "prepare_run_dispatch x ttl rec d = Inr (d1, prep)"
  shows "outbox d1 = outbox d" "pools d1 = pools d"
proof -
  have "outbox d1 = outbox d \<and> pools d1 = pools d"
    using assms
  proof (cases rule: prepare_Inr)
    case (pooled r pool)
    from pooled(6) show ?thesis by (cases rule: dispatch_to_pool_Inr) simp_all
  qed simp_all
  then show "outbox d1 = outbox d" "pools d1 = pools d" by simp_all
qed

lemma dispatch_record_outcome:
  assumes "dispatch_record x publish ttl poll rec d = Inr (d', out, sent)"
  shows "\<exists>q. record_outcome x publish poll rec q out sent \<and> outbox d' = outbox (store_record q d)"
proof -
  obtain d1 prep where prep: "prepare_run_dispatch x ttl rec d = Inr (d1, prep)"
    using assms unfolding dispatch_record_def by (auto elim: bind_outcome_InrE)
  note call = assms [unfolded dispatch_record_def prep bind_outcome_simps prod.case]
  have stored: "outbox (store_record q d1) = outbox (store_record q d)" for q
    by (simp add: store_record_def prepare_outbox [OF prep])
  show ?thesis
  proof (cases prep)
    case (Wait reason)
    have "outbox (delay_record x poll reason rec d1) = outbox (store_record
        (rec\<lparr>o_last_error := Some (Waiting_for reason), o_available_at := txn_now x + poll\<rparr>) d1)"
      by (simp add: delay_record_def Let_def store_record_def split: option.split)
    with call Wait show ?thesis
      by (intro exI [of _ "rec\<lparr>o_last_error := Some (Waiting_for reason), o_available_at := txn_now x + poll\<rparr>"])
        (auto simp: record_outcome_def dispatch_columns_def stored)
  next
    case (Prepared queue run lease skip)
    show ?thesis
    proof (cases skip)
      case True
      with call Prepared show ?thesis
        by (intro exI [of _ "rec\<lparr>o_status := Outbox_PUBLISHED, o_processed_at := Some (txn_now x), o_last_error := None\<rparr>"])
          (auto simp: record_outcome_def dispatch_columns_def stored)
    next
      case False
      with call Prepared have "send_record x publish rec queue run lease d1 = (d', out, sent)" by simp
      from send_record_outcome [OF this, of poll] show ?thesis by (simp add: stored)
    qed
  qed
qed

lemma dispatch_each_outcome:
  assumes "dispatch_each x publish ttl poll recs d = Inr (d', outs, sent)" "pending_in recs d"
  shows "(\<forall>q\<in>set (outbox d). o_key q \<notin> o_key ` set recs \<longrightarrow> q \<in> set (outbox d'))
    \<and> (\<forall>rec\<in>set recs. \<exists>q\<in>set (outbox d'). \<exists>out sent'. record_outcome x publish poll rec q out sent')
    \<and> (\<forall>t\<in>set sent. \<exists>rec\<in>set recs. \<exists>q\<in>set (outbox d'). record_outcome x publish poll rec q Delivered [t])
    \<and> length sent \<le> length recs \<and> length outs = length recs"
  using assms
proof (induction recs arbitrary: d outs sent)
  case (Cons rec recs)
  obtain d1 out more outs' sent' where call: "dispatch_record x publish ttl poll rec d = Inr (d1, out, more)"
    "dispatch_each x publish ttl poll recs d1 = Inr (d', outs', sent')" and outs: "outs = out # outs'" "sent = more @ sent'"
    using Cons.prems(1) by (rule dispatch_each_ConsE)
  obtain q where q: "record_outcome x publish poll rec q out more" "outbox d1 = outbox (store_record q d)"
    using dispatch_record_outcome [OF call(1)] by blast
  have cols: "dispatch_columns q = dispatch_columns rec" using q(1) by (simp add: record_outcome_def)
  then have key: "o_key q = o_key rec" by (simp add: dispatch_columns_def)
  have rec: "rec \<in> set (outbox d)" "o_key rec \<notin> o_key ` set recs"
    using Cons.prems(2) by (simp_all add: pending_in_def)
  have stored: "q \<in> set (outbox d1)" "\<forall>p\<in>set (outbox d). o_key p \<noteq> o_key rec \<longrightarrow> p \<in> set (outbox d1)"
    unfolding q(2) store_record_def update_row_def using rec(1) key by (force simp: in_set_update_where)+
  note IH = Cons.IH [OF call(2) pending_in_tail [OF Cons.prems(2) q(2) cols]]
  have q': "q \<in> set (outbox d')" using IH stored(1) rec(2) key by metis
  have others: "\<forall>p\<in>set (outbox d). o_key p \<notin> o_key ` set (rec # recs) \<longrightarrow> p \<in> set (outbox d')"
    using IH stored(2) by simp
  have mine: "\<forall>t\<in>set more. record_outcome x publish poll rec q Delivered [t]"
    using q(1) by (cases out) (auto simp: record_outcome_def)
  have len: "length more \<le> 1" using q(1) by (cases out) (auto simp: record_outcome_def)
  from others q' q(1) mine len IH show ?case unfolding outs by (auto 0 3)
qed (auto split: if_split_asm)

lemma backoff_bounds: "2 \<le> backoff_seconds (Suc n) \<and> backoff_seconds (Suc n) \<le> 256"
proof -
  have "(2::int) ^ min (Suc n) 8 \<le> 2 ^ 8" by (rule power_increasing) simp_all
  moreover have "(2::int) ^ 1 \<le> 2 ^ min (Suc n) 8" by (rule power_increasing) simp_all
  ultimately show ?thesis by (simp add: backoff_seconds_def)
qed

end
