(* ===== verification/Test_Assets.thy ===== *)
theory Test_Assets
  imports Runner_Pools Run_Creation
begin

section \<open>Projects, targets, environments, baselines\<close>

text \<open>
  \<open>services.py\<close>: \<open>create_project\<close>, \<open>update_project\<close>, \<open>create_target\<close>, \<open>update_target\<close>,
  \<open>environment_document\<close>, \<open>_validate_environment_payload\<close>, \<open>create_environment\<close>,
  \<open>update_environment\<close>, \<open>publish_baseline\<close> and the reads beside them.  The invariant
  \<open>assets_ok\<close> states what these services and the services on runner pools keep together: a
  target or environment is only bound to a pool that serves its type, and the document of an
  environment fits its target.
\<close>

subsection \<open>Projects\<close>

fun record_status_value :: "record_status \<Rightarrow> string" where
  "record_status_value Record_ACTIVE = ''ACTIVE''"
| "record_status_value Record_ARCHIVED = ''ARCHIVED''"

record project_create =
  jc_key :: string
  jc_name :: string
  jc_description :: "string option"

text \<open>The columns' defaults of \<open>ProjectRecord\<close>.\<close>

definition new_project :: "uuid \<Rightarrow> project_create \<Rightarrow> project_row" where
  "new_project i u =
     \<lparr>p_id = i, p_key = jc_key u, p_name = jc_name u, p_description = jc_description u,
      p_status = Record_ACTIVE, p_max_in_flight = 20, p_max_daily = 500, p_run_timeout = 3600,
      p_slo_target = 95, p_slo_window_days = 30, p_warning_drop = 5, p_critical_drop = 10\<rparr>"

definition create_project ::
  "txn \<Rightarrow> project_create \<Rightarrow> uuid \<Rightarrow> db \<Rightarrow> service_error + db \<times> project_row" where
  "create_project x u actor d =
     (let i = txn_uuid x Draw_row;
          project = new_project i u;
          d1 = d\<lparr>projects := projects d @ [project]\<rparr>
      in if \<not> unique_ok d1 then Inl (ResourceConflict ''project key already exists'')
         else
         let d2 = d1\<lparr>members := members d1 @ [\<lparr>m_id = txn_uuid x Draw_member, m_project = i,
                m_user = actor, m_role = PROJECT_ADMIN, m_created_by = actor\<rparr>]\<rparr>;
             d3 = audit x actor ''project.created'' ''project'' i (Some i) [(''key'', JStr (jc_key u))] d2
         in bind_outcome (commit d3) (\<lambda>d4. Inr (d4, project)))"

definition list_projects :: "uuid \<Rightarrow> bool \<Rightarrow> db \<Rightarrow> project_row list" where
  "list_projects user is_system_admin d =
     (if is_system_admin then projects d
      else concat (map (\<lambda>p. map (\<lambda>_. p)
        (filter (\<lambda>m. m_project m = p_id p \<and> m_user m = user) (members d))) (projects d)))"

record project_update =
  ju_name :: "string option"
  ju_description :: "string option option"
  ju_status :: "record_status option"

definition project_details :: "project_row \<Rightarrow> json" where
  "project_details p = JObj [(''name'', JStr (p_name p)), (''description'', json_str (p_description p)),
     (''status'', JStr (record_status_value (p_status p)))]"

definition update_project ::
  "txn \<Rightarrow> uuid \<Rightarrow> project_update \<Rightarrow> uuid \<Rightarrow> db \<Rightarrow> service_error + db \<times> project_row" where
  "update_project x i u actor d =
     bind_outcome (project_or_404 d i) (\<lambda>p.
       let p' = p\<lparr>p_name := given_or (ju_name u) (p_name p),
             p_description := given_or (ju_description u) (p_description p),
             p_status := given_or (ju_status u) (p_status p)\<rparr>;
           d1 = audit x actor ''project.updated'' ''project'' i (Some i)
             [(''before'', project_details p), (''after'', project_details p')]
             (d\<lparr>projects := update_row p_id i (\<lambda>_. p') (projects d)\<rparr>)
       in bind_outcome (commit d1) (\<lambda>d2. Inr (d2, p')))"

subsection \<open>Targets\<close>

definition target_in_project :: "uuid \<Rightarrow> uuid \<Rightarrow> db \<Rightarrow> service_error + target_row" where
  "target_in_project i project d =
     (case lookup_row t_id i (targets d) of
        None \<Rightarrow> Inl (ResourceNotFound ''target not found in project'')
      | Some t \<Rightarrow> if t_project t \<noteq> project then Inl (ResourceNotFound ''target not found in project'') else Inr t)"

text \<open>Truth of an optional string: neither absent nor empty.\<close>

definition truthy :: "string option \<Rightarrow> bool" where
  "truthy s \<longleftrightarrow> s \<noteq> None \<and> s \<noteq> Some []"

record target_create =
  tc_key :: string
  tc_name :: string
  tc_type :: target_type
  tc_browser :: "string option"
  tc_pool :: "uuid option"

definition target_browser :: "target_type \<Rightarrow> string option \<Rightarrow> service_error + string option" where
  "target_browser kind browser =
     (if kind = WEB then
        (let b = (if truthy browser then browser else Some ''chromium'') in
         if b \<notin> {Some ''chromium'', Some ''firefox'', Some ''webkit''}
         then Inl (InvalidRequest ''WEB target browser must be chromium, firefox or webkit'')
         else Inr b)
      else if truthy browser then Inl (InvalidRequest ''browser is only valid for WEB targets'')
      else Inr browser)"

definition create_target ::
  "txn \<Rightarrow> uuid \<Rightarrow> target_create \<Rightarrow> uuid \<Rightarrow> db \<Rightarrow> service_error + db \<times> target_row" where
  "create_target x project u actor d =
     bind_outcome (project_or_404 d project) (\<lambda>_.
     bind_outcome (target_browser (tc_type u) (tc_browser u)) (\<lambda>browser.
     bind_outcome (runner_pool_for_target (tc_pool u) (tc_type u) d) (\<lambda>_.
       let t = \<lparr>t_id = txn_uuid x Draw_row, t_project = project, t_pool = tc_pool u, t_key = tc_key u,
             t_name = tc_name u, t_type = tc_type u, t_browser = browser, t_status = Record_ACTIVE\<rparr>;
           d1 = audit x actor ''target.created'' ''test_target'' (t_id t) (Some project)
             [(''key'', JStr (t_key t)), (''target_type'', JStr (target_type_value (t_type t))),
              (''runner_pool_id'', json_id (t_pool t))]
             (d\<lparr>targets := targets d @ [t]\<rparr>)
       in bind_outcome (commit_unique ''target key already exists in this project'' d1)
            (\<lambda>d2. Inr (d2, t)))))"

record target_update =
  tu_name :: "string option"
  tu_browser :: "string option option"
  tu_status :: "record_status option"
  tu_pool :: "uuid option option"

definition target_details :: "target_row \<Rightarrow> json" where
  "target_details t = JObj [(''name'', JStr (t_name t)), (''browser'', json_str (t_browser t)),
     (''status'', JStr (record_status_value (t_status t))), (''runner_pool_id'', json_id (t_pool t))]"

definition updated_browser :: "target_update \<Rightarrow> target_row \<Rightarrow> service_error + string option" where
  "updated_browser u t =
     (case tu_browser u of
        None \<Rightarrow> Inr (t_browser t)
      | Some browser \<Rightarrow>
          if t_type t \<noteq> WEB \<and> browser \<noteq> None
          then Inl (InvalidRequest ''browser is only valid for WEB targets'')
          else Inr (if truthy browser then browser
                    else if t_type t = WEB then Some ''chromium'' else None))"

text \<open>\<open>"runner_pool_id" in payload.model_fields_set\<close>: the new binding, checked; else the old one.\<close>

definition updated_pool :: "uuid option option \<Rightarrow> uuid option \<Rightarrow> target_type \<Rightarrow> db \<Rightarrow> service_error + uuid option" where
  "updated_pool given old kind d =
     (case given of
        None \<Rightarrow> Inr old
      | Some i \<Rightarrow> bind_outcome (runner_pool_for_target i kind d) (\<lambda>_. Inr i))"

definition update_target ::
  "txn \<Rightarrow> uuid \<Rightarrow> uuid \<Rightarrow> target_update \<Rightarrow> uuid \<Rightarrow> db \<Rightarrow> service_error + db \<times> target_row" where
  "update_target x project i u actor d =
     bind_outcome (project_or_404 d project) (\<lambda>_.
     bind_outcome (target_in_project i project d) (\<lambda>t.
     bind_outcome (updated_browser u t) (\<lambda>browser.
     bind_outcome (updated_pool (tu_pool u) (t_pool t) (t_type t) d) (\<lambda>pool.
       let t' = t\<lparr>t_name := given_or (tu_name u) (t_name t), t_browser := browser,
             t_status := given_or (tu_status u) (t_status t), t_pool := pool\<rparr>;
           d1 = audit x actor ''target.updated'' ''test_target'' i (Some project)
             [(''before'', target_details t), (''after'', target_details t')]
             (d\<lparr>targets := update_row t_id i (\<lambda>_. t') (targets d)\<rparr>)
       in bind_outcome (commit d1) (\<lambda>d2. Inr (d2, t'))))))"

subsection \<open>Environments\<close>

record environment_create =
  ec_key :: string
  ec_name :: string
  ec_web_config :: "web_run_config option"
  ec_variables :: "runtime_variable list"
  ec_secrets :: "secret_binding list"
  ec_pool :: "uuid option"

definition environment_document :: "environment_create \<Rightarrow> config_document" where
  "environment_document u =
     \<lparr>doc_web_config = ec_web_config u, doc_variables = ec_variables u, doc_secrets = ec_secrets u\<rparr>"

definition validate_environment_payload :: "target_type \<Rightarrow> environment_create \<Rightarrow> service_error + unit" where
  "validate_environment_payload kind u =
     (if kind = WEB \<and> ec_web_config u = None
      then Inl (InvalidRequest ''WEB target environment requires web_config'')
      else if kind \<noteq> WEB \<and> ec_web_config u \<noteq> None
      then Inl (InvalidRequest ''web_config is only valid for WEB target environments'')
      else if \<not> distinct (binding_names (ec_variables u) (ec_secrets u))
      then Inl (InvalidRequest ''environment contains duplicate variable binding'')
      else Inr ())"

definition create_environment ::
  "txn \<Rightarrow> uuid \<Rightarrow> uuid \<Rightarrow> environment_create \<Rightarrow> uuid \<Rightarrow> db \<Rightarrow> service_error + db \<times> environment_row" where
  "create_environment x project target u actor d =
     bind_outcome (project_or_404 d project) (\<lambda>_.
     bind_outcome (target_in_project target project d) (\<lambda>t.
     bind_outcome (validate_environment_payload (t_type t) u) (\<lambda>_.
     bind_outcome (runner_pool_for_target (ec_pool u) (t_type t) d) (\<lambda>_.
       let document = environment_document u;
           e = \<lparr>e_id = txn_uuid x Draw_row, e_project = project, e_target = target, e_pool = ec_pool u,
             e_key = ec_key u, e_name = ec_name u, e_document = document,
             e_config_hash = txn_digest x (Hash_environment document), e_status = Record_ACTIVE\<rparr>;
           d1 = audit x actor ''environment.created'' ''environment'' (e_id e) (Some project)
             [(''key'', JStr (e_key e)), (''config_hash'', JStr (e_config_hash e)),
              (''runner_pool_id'', json_id (e_pool e))]
             (d\<lparr>environments := environments d @ [e]\<rparr>)
       in bind_outcome (commit_unique ''environment key already exists for this target'' d1)
            (\<lambda>d2. Inr (d2, e))))))"

record environment_update =
  eu_name :: "string option"
  eu_web_config :: "web_run_config option option"
  eu_variables :: "runtime_variable list option"
  eu_secrets :: "secret_binding list option"
  eu_status :: "record_status option"
  eu_pool :: "uuid option option"

text \<open>
  The merged document goes through \<open>EnvironmentCreate.model_validate\<close>, which validates the
  variables again.
\<close>

definition merged_environment :: "environment_update \<Rightarrow> environment_row \<Rightarrow> service_error + environment_create" where
  "merged_environment u e =
     (let current = e_document e in
      bind_outcome (contract (validate_all reject_secret_like_names
          (given_or (eu_variables u) (doc_variables current)))) (\<lambda>variables.
        Inr \<lparr>ec_key = e_key e, ec_name = (if truthy (eu_name u) then the (eu_name u) else e_name e),
          ec_web_config = given_or (eu_web_config u) (doc_web_config current),
          ec_variables = variables, ec_secrets = given_or (eu_secrets u) (doc_secrets current),
          ec_pool = None\<rparr>))"

definition environment_of_target :: "uuid \<Rightarrow> uuid \<Rightarrow> uuid \<Rightarrow> db \<Rightarrow> service_error + environment_row" where
  "environment_of_target i project target d =
     (case lookup_row e_id i (environments d) of
        None \<Rightarrow> Inl (ResourceNotFound ''environment not found for target'')
      | Some e \<Rightarrow> if e_project e \<noteq> project \<or> e_target e \<noteq> target
          then Inl (ResourceNotFound ''environment not found for target'') else Inr e)"

definition update_environment ::
  "txn \<Rightarrow> uuid \<Rightarrow> uuid \<Rightarrow> uuid \<Rightarrow> environment_update \<Rightarrow> uuid \<Rightarrow> db \<Rightarrow> service_error + db \<times> environment_row" where
  "update_environment x project target i u actor d =
     bind_outcome (project_or_404 d project) (\<lambda>_.
     bind_outcome (target_in_project target project d) (\<lambda>t.
     bind_outcome (environment_of_target i project target d) (\<lambda>e.
     bind_outcome (merged_environment u e) (\<lambda>merged.
     bind_outcome (validate_environment_payload (t_type t) merged) (\<lambda>_.
     bind_outcome (updated_pool (eu_pool u) (e_pool e) (t_type t) d) (\<lambda>pool.
       let document = environment_document merged;
           e' = e\<lparr>e_name := ec_name merged, e_document := document,
             e_config_hash := txn_digest x (Hash_environment document),
             e_status := given_or (eu_status u) (e_status e), e_pool := pool\<rparr>;
           d1 = audit x actor ''environment.updated'' ''environment'' i (Some project)
             [(''key'', JStr (e_key e')), (''previous_config_hash'', JStr (e_config_hash e)),
              (''config_hash'', JStr (e_config_hash e')),
              (''status'', JStr (record_status_value (e_status e'))), (''runner_pool_id'', json_id (e_pool e'))]
             (d\<lparr>environments := update_row e_id i (\<lambda>_. e') (environments d)\<rparr>)
       in bind_outcome (commit d1) (\<lambda>d2. Inr (d2, e'))))))))"

subsection \<open>Baselines\<close>

record baseline_publish =
  bp_baseline :: case_baseline
  bp_digest :: digest

definition new_baseline :: "uuid \<Rightarrow> baseline_status \<Rightarrow> digest \<Rightarrow> case_baseline \<Rightarrow> baseline_row" where
  "new_baseline project status digest b =
     \<lparr>b_id = baseline_id b, b_project = project, b_version = baseline_version b, b_digest = digest,
      b_case_count = int (length (baseline_cases b)),
      b_enabled_count = count_rows case_enabled (baseline_cases b), b_status = status, b_document = b\<rparr>"

definition publish_baseline ::
  "txn \<Rightarrow> uuid \<Rightarrow> baseline_publish \<Rightarrow> uuid \<Rightarrow> db \<Rightarrow> service_error + db \<times> baseline_row \<times> bool" where
  "publish_baseline x project u actor d =
     bind_outcome (project_or_404 d project) (\<lambda>p.
     let b = bp_baseline u in
     if baseline_project_key b \<noteq> p_key p
     then Inl (InvalidRequest ''baseline project_key does not match project'')
     else if txn_digest x (Hash_baseline b) \<noteq> bp_digest u
     then Inl (InvalidRequest ''baseline digest does not match canonical document'')
     else
     case lookup_row (\<lambda>r. (b_project r, b_version r)) (project, baseline_version b) (baselines d) of
       Some r \<Rightarrow>
         if b_id r = baseline_id b \<and> b_digest r = bp_digest u \<and> b_document r = b then Inr (d, r, False)
         else Inl (ResourceConflict ''baseline version is immutable and already published'')
     | None \<Rightarrow>
         (let r = new_baseline project Baseline_RELEASED (bp_digest u) b;
              d1 = audit x actor ''baseline.published'' ''case_baseline'' (b_id r) (Some project)
                [(''version'', JStr (b_version r)), (''digest'', JStr (b_digest r)),
                 (''case_count'', JInt (b_case_count r))]
                (d\<lparr>baselines := baselines d @ [r]\<rparr>)
          in bind_outcome (commit_unique ''baseline ID, version or digest already exists'' d1)
               (\<lambda>d2. Inr (d2, r, True))))"

definition list_baselines :: "uuid \<Rightarrow> db \<Rightarrow> service_error + baseline_row list" where
  "list_baselines project d =
     bind_outcome (project_or_404 d project) (\<lambda>_.
       Inr (filter (\<lambda>b. b_project b = project \<and> b_status b = Baseline_RELEASED) (baselines d)))"

definition get_baseline :: "uuid \<Rightarrow> uuid \<Rightarrow> db \<Rightarrow> service_error + baseline_row" where
  "get_baseline project i d =
     (case lookup_row b_id i (baselines d) of
        None \<Rightarrow> Inl (ResourceNotFound ''baseline not found in project'')
      | Some b \<Rightarrow> if b_project b \<noteq> project then Inl (ResourceNotFound ''baseline not found in project'') else Inr b)"

subsection \<open>The services leave runs alone\<close>

inductive asset_call :: "db \<Rightarrow> db \<Rightarrow> bool" where
  Project_create: "create_project x u actor d = Inr (d', p) \<Longrightarrow> asset_call d d'"
| Project_update: "update_project x i v actor d = Inr (d', p) \<Longrightarrow> asset_call d d'"
| Target_create: "create_target x project tc actor d = Inr (d', t) \<Longrightarrow> asset_call d d'"
| Target_update: "update_target x project i tu actor d = Inr (d', t) \<Longrightarrow> asset_call d d'"
| Environment_create: "create_environment x project target ec actor d = Inr (d', e) \<Longrightarrow> asset_call d d'"
| Environment_update: "update_environment x project target i eu actor d = Inr (d', e) \<Longrightarrow> asset_call d d'"
| Baseline_publish: "publish_baseline x project bp actor d = Inr (d', b, new) \<Longrightarrow> asset_call d d'"

text \<open>Each service, on success: what it read, and the database it commits.\<close>

lemma create_project_Inr:
  assumes "create_project x u actor d = Inr (d', p)"
  shows "p = new_project (txn_uuid x Draw_row) u" "unique_ok d'" "projects d' = projects d @ [p]"
    "members d' = members d @ [\<lparr>m_id = txn_uuid x Draw_member, m_project = p_id p, m_user = actor,
        m_role = PROJECT_ADMIN, m_created_by = actor\<rparr>]"
    "pools d' = pools d" "targets d' = targets d" "environments d' = environments d"
    "same_run_tables d d'"
  using assms unfolding create_project_def Let_def
  by (auto elim!: guard_InrE commit_bind_InrE simp: same_run_tables_def new_project_def simp del: if_split)

lemma update_project_Inr:
  assumes "update_project x i u actor d = Inr (d', p)"
  shows "unique_ok d'" "pools d' = pools d" "targets d' = targets d" "environments d' = environments d"
    "same_run_tables d d'"
  using assms unfolding update_project_def Let_def
  by (auto elim!: bind_outcome_InrE simp: same_run_tables_def commit_Inr_iff)

lemma target_in_project_Inr:
  "target_in_project i project d = Inr t \<Longrightarrow> lookup_row t_id i (targets d) = Some t \<and> t_project t = project \<and> t_id t = i"
  by (auto simp: target_in_project_def dest: lookup_row_SomeD split: option.split_asm if_split_asm)

lemma environment_of_target_Inr:
  "environment_of_target i project target d = Inr e \<Longrightarrow>
     lookup_row e_id i (environments d) = Some e \<and> e_project e = project \<and> e_target e = target \<and> e_id e = i"
  by (auto simp: environment_of_target_def dest: lookup_row_SomeD split: option.split_asm if_split_asm)

lemma create_target_Inr:
  assumes "create_target x project u actor d = Inr (d', t)"
  obtains pool where "target_browser (tc_type u) (tc_browser u) = Inr (t_browser t)"
    "runner_pool_for_target (t_pool t) (t_type t) d = Inr pool" "t_type t = tc_type u"
    "unique_ok d'" "targets d' = targets d @ [t]" "pools d' = pools d" "environments d' = environments d"
    "same_run_tables d d'"
  using assms unfolding create_target_def Let_def
  by (elim commit_unique_bind_InrE bind_outcome_InrE) (auto simp: same_run_tables_def)

lemma update_target_Inr:
  assumes "update_target x project i u actor d = Inr (d', t')"
  obtains t where "lookup_row t_id i (targets d) = Some t" "t_project t = project"
    "updated_browser u t = Inr (t_browser t')" "updated_pool (tu_pool u) (t_pool t) (t_type t) d = Inr (t_pool t')"
    "t_id t' = i" "t_project t' = project" "t_type t' = t_type t"
    "unique_ok d'" "targets d' = update_row t_id i (\<lambda>_. t') (targets d)" "pools d' = pools d"
    "environments d' = environments d" "same_run_tables d d'"
  using assms unfolding update_target_def Let_def
  by (elim commit_bind_InrE bind_outcome_InrE)
    (auto simp: same_run_tables_def dest!: target_in_project_Inr)

lemma create_environment_Inr:
  assumes "create_environment x project target u actor d = Inr (d', e)"
  obtains t pool where "lookup_row t_id target (targets d) = Some t" "t_project t = project"
    "validate_environment_payload (t_type t) u = Inr ()" "e_document e = environment_document u"
    "runner_pool_for_target (e_pool e) (t_type t) d = Inr pool" "e_target e = target" "e_project e = project"
    "unique_ok d'" "environments d' = environments d @ [e]" "pools d' = pools d" "targets d' = targets d"
    "same_run_tables d d'"
  using assms unfolding create_environment_def Let_def
  by (elim commit_unique_bind_InrE bind_outcome_InrE) (auto simp: same_run_tables_def dest!: target_in_project_Inr)

lemma update_environment_Inr:
  assumes "update_environment x project target i u actor d = Inr (d', e')"
  obtains t e merged where "lookup_row t_id target (targets d) = Some t" "t_project t = project"
    "lookup_row e_id i (environments d) = Some e" "e_project e = project" "e_target e = target"
    "merged_environment u e = Inr merged" "validate_environment_payload (t_type t) merged = Inr ()"
    "updated_pool (eu_pool u) (e_pool e) (t_type t) d = Inr (e_pool e')"
    "e_document e' = environment_document merged" "e_target e' = target" "e_project e' = project"
    "unique_ok d'" "environments d' = update_row e_id i (\<lambda>_. e') (environments d)" "pools d' = pools d"
    "targets d' = targets d" "same_run_tables d d'"
  using assms unfolding update_environment_def Let_def
  by (elim commit_bind_InrE bind_outcome_InrE)
    (auto simp: same_run_tables_def dest!: target_in_project_Inr environment_of_target_Inr)

lemma publish_baseline_Inr:
  assumes "publish_baseline x project u actor d = Inr (d', b, new)"
  obtains p where "lookup_row p_id project (projects d) = Some p"
    "baseline_project_key (bp_baseline u) = p_key p" "txn_digest x (Hash_baseline (bp_baseline u)) = bp_digest u"
    "b_document b = bp_baseline u" "b_digest b = bp_digest u" "b_id b = baseline_id (bp_baseline u)"
    "b_project b = project" "b_version b = baseline_version (bp_baseline u)"
    "new \<longrightarrow> unique_ok d' \<and> baselines d' = baselines d @ [b] \<and> b_status b = Baseline_RELEASED"
    "\<not> new \<longrightarrow> d' = d \<and> b \<in> set (baselines d)" "pools d' = pools d"
    "targets d' = targets d" "environments d' = environments d" "same_run_tables d d'"
proof -
  obtain p where p: "project_or_404 d project = Inr p"
    using assms unfolding publish_baseline_def by (rule bind_outcome_InrE)
  note call = assms [unfolded publish_baseline_def p bind_outcome_simps]
  let ?l = "lookup_row (\<lambda>r. (b_project r, b_version r)) (project, baseline_version (bp_baseline u)) (baselines d)"
  from p have p: "lookup_row p_id project (projects d) = Some p" by (simp add: project_or_404_Inr)
  show thesis
  proof (cases ?l)
    case None
    with call p show thesis
      by (intro that [of p])
        (auto simp: Let_def new_baseline_def same_run_tables_def elim!: guard_InrE commit_unique_bind_InrE
          simp del: if_split)
  next
    case (Some r)
    with lookup_row_SomeD [OF Some] call p show thesis
      by (intro that [of p]) (auto simp: Let_def same_run_tables_def split: if_split_asm)
  qed
qed

interpretation asset_services: side_service asset_call
proof
  fix d d' assume "asset_call d d'" and "unique_ok d"
  then show "unique_ok d'"
  proof (cases rule: asset_call.cases)
    case Project_create
    from create_project_Inr(2) [OF this] show ?thesis .
  next
    case Project_update
    from update_project_Inr(1) [OF this] show ?thesis .
  next
    case Baseline_publish
    then show ?thesis by (rule publish_baseline_Inr) (use \<open>unique_ok d\<close> in blast)
  qed (auto elim: create_target_Inr update_target_Inr create_environment_Inr update_environment_Inr)
next
  fix d d' assume "asset_call d d'"
  then show "same_run_tables d d'"
  proof (cases rule: asset_call.cases)
    case Project_create
    from create_project_Inr(8) [OF this] show ?thesis .
  next
    case Project_update
    from update_project_Inr(5) [OF this] show ?thesis .
  qed (auto elim: create_target_Inr update_target_Inr create_environment_Inr update_environment_Inr
      publish_baseline_Inr)
qed

text \<open>
  A published baseline version is immutable.  Publishing succeeds only for the project's key
  and a digest that matches the document; a version that exists is answered with the stored row,
  which then has the same identifier, digest and document, and the database stays as it is.
\<close>

theorem publish_baseline_immutable:
  assumes "publish_baseline x project u actor d = Inr (d', b, new)"
  shows "b_document b = bp_baseline u \<and> b_digest b = txn_digest x (Hash_baseline (bp_baseline u))
    \<and> (\<exists>extra. baselines d' = baselines d @ extra)
    \<and> (\<not> new \<longrightarrow> d' = d) \<and> b \<in> set (baselines d')"
  using assms by (rule publish_baseline_Inr) (cases new; auto)

end
