(* ===== verification/Asset_Bindings.thy ===== *)
theory Asset_Bindings
  imports Test_Assets
begin

section \<open>Bindings between pools, targets and environments\<close>

text \<open>
  The invariant of the asset tables: every pool a target or an environment names exists and
  serves its type, a WEB target has a browser and only a WEB target, and an environment belongs
  to a target of its project with a document that fits the target's type.  The services on
  assets and those on pools keep it together: binding checks the pool, and a pool cannot drop a
  type that is still bound.
\<close>

definition pool_serves :: "pool_row list \<Rightarrow> target_type \<Rightarrow> uuid option \<Rightarrow> bool" where
  "pool_serves ps kind p \<longleftrightarrow>
     (case p of None \<Rightarrow> True | Some i \<Rightarrow> \<exists>pool\<in>set ps. pl_id pool = i \<and> kind \<in> set (pl_target_types pool))"

definition target_ok :: "pool_row list \<Rightarrow> target_row \<Rightarrow> bool" where
  "target_ok ps t \<longleftrightarrow> pool_serves ps (t_type t) (t_pool t) \<and> (t_type t = WEB \<longleftrightarrow> truthy (t_browser t))"

definition document_fits :: "target_type \<Rightarrow> config_document \<Rightarrow> bool" where
  "document_fits kind doc \<longleftrightarrow> (kind = WEB \<longleftrightarrow> doc_web_config doc \<noteq> None)
     \<and> distinct (binding_names (doc_variables doc) (doc_secrets doc))"

definition environment_ok :: "pool_row list \<Rightarrow> target_row list \<Rightarrow> environment_row \<Rightarrow> bool" where
  "environment_ok ps ts e \<longleftrightarrow> (\<exists>t\<in>set ts. t_id t = e_target e \<and> t_project t = e_project e
     \<and> pool_serves ps (t_type t) (e_pool e) \<and> document_fits (t_type t) (e_document e))"

definition assets_ok :: "db \<Rightarrow> bool" where
  "assets_ok d \<longleftrightarrow> (\<forall>t\<in>set (targets d). target_ok (pools d) t)
     \<and> (\<forall>e\<in>set (environments d). environment_ok (pools d) (targets d) e)"

lemma assets_okI:
  assumes "\<And>t. t \<in> set (targets d) \<Longrightarrow> target_ok (pools d) t"
    and "\<And>e. e \<in> set (environments d) \<Longrightarrow> environment_ok (pools d) (targets d) e"
  shows "assets_ok d"
  using assms by (simp add: assets_ok_def)

lemma assets_okD:
  assumes "assets_ok d"
  shows "t \<in> set (targets d) \<Longrightarrow> target_ok (pools d) t"
    "e \<in> set (environments d) \<Longrightarrow> environment_ok (pools d) (targets d) e"
  using assms by (simp_all add: assets_ok_def)

lemma assets_ok_frame:
  "assets_ok d \<Longrightarrow> pools d' = pools d \<Longrightarrow> targets d' = targets d \<Longrightarrow> environments d' = environments d \<Longrightarrow> assets_ok d'"
  by (simp add: assets_ok_def)

subsection \<open>What the checks establish\<close>

lemma pool_serves_None [simp]: "pool_serves ps kind None"
  by (simp add: pool_serves_def)

lemma pool_serves_append: "pool_serves ps kind p \<Longrightarrow> pool_serves (ps @ qs) kind p"
  by (auto simp: pool_serves_def split: option.splits)

lemma runner_pool_for_target_serves:
  "runner_pool_for_target p kind d = Inr pool \<Longrightarrow> pool_serves (pools d) kind p"
  by (auto simp: runner_pool_for_target_def runner_pool_def pool_serves_def outcome_simps
      dest: lookup_row_SomeD split: option.split_asm if_split_asm)

lemma updated_pool_serves:
  "updated_pool given old kind d = Inr p \<Longrightarrow> pool_serves (pools d) kind old \<Longrightarrow> pool_serves (pools d) kind p"
  by (auto simp: updated_pool_def outcome_simps dest: runner_pool_for_target_serves split: option.split_asm)

lemma target_browser_truthy: "target_browser kind b = Inr b' \<Longrightarrow> kind = WEB \<longleftrightarrow> truthy b'"
  by (auto simp: target_browser_def truthy_def Let_def split: if_split_asm)

lemma updated_browser_truthy:
  "updated_browser u t = Inr b \<Longrightarrow> t_type t = WEB \<longleftrightarrow> truthy (t_browser t) \<Longrightarrow> t_type t = WEB \<longleftrightarrow> truthy b"
  by (auto simp: updated_browser_def truthy_def split: option.split_asm if_split_asm)

lemma validated_document_fits:
  "validate_environment_payload kind u = Inr () \<Longrightarrow> document_fits kind (environment_document u)"
  by (auto simp: validate_environment_payload_def document_fits_def environment_document_def split: if_split_asm)

subsection \<open>Every service keeps the invariant\<close>

lemma environment_ok_targets:
  assumes "environment_ok ps ts e"
    and "\<And>t. t \<in> set ts \<Longrightarrow> \<exists>t'\<in>set ts'. t_id t' = t_id t \<and> t_project t' = t_project t \<and> t_type t' = t_type t"
  shows "environment_ok ps ts' e"
  using assms unfolding environment_ok_def by metis

lemma environment_ok_found:
  assumes "lookup_row t_id (e_target e) ts = Some t" "t_project t = e_project e"
    "pool_serves ps (t_type t) (e_pool e)" "document_fits (t_type t) (e_document e)"
  shows "environment_ok ps ts e"
  using lookup_row_SomeD [OF assms(1)] assms(2-) by (auto simp: environment_ok_def)

lemma in_update_row: "x \<in> set (update_row key k (\<lambda>_. new) rows) \<Longrightarrow> x = new \<and> (\<exists>r\<in>set rows. key r = k) \<or> x \<in> set rows \<and> key x \<noteq> k"
  by (auto simp: update_row_def in_set_update_where split: if_split_asm)

lemma update_row_covers:
  assumes "lookup_row key k rows = Some r" "distinct (map key rows)" "x \<in> set rows"
  shows "x = r \<and> new \<in> set (update_row key k (\<lambda>_. new) rows) \<or> x \<in> set (update_row key k (\<lambda>_. new) rows)"
proof (cases "key x = k")
  case True
  with assms lookup_row_SomeD [OF assms(1)] have "x = r"
    by (auto simp: distinct_map dest: inj_onD)
  moreover have "new \<in> set (update_row key k (\<lambda>_. new) rows)"
    using assms(3) True by (force simp: update_row_def in_set_update_where)
  ultimately show ?thesis by simp
next
  case False
  with assms(3) have "x \<in> set (update_row key k (\<lambda>_. new) rows)"
    by (force simp: update_row_def in_set_update_where)
  then show ?thesis by simp
qed

lemma target_update_keeps:
  assumes "assets_ok d" "unique_ok d" "update_target x project i u actor d = Inr (d', t')"
  shows "assets_ok d'"
proof -
  from assms(3) obtain t where t: "lookup_row t_id i (targets d) = Some t" "t_project t = project"
    "updated_browser u t = Inr (t_browser t')" "updated_pool (tu_pool u) (t_pool t) (t_type t) d = Inr (t_pool t')"
    "t_id t' = i" "t_project t' = project" "t_type t' = t_type t"
    "targets d' = update_row t_id i (\<lambda>_. t') (targets d)" "pools d' = pools d"
    "environments d' = environments d"
    by (rule update_target_Inr)
  have "target_ok (pools d) t" using assets_okD(1) [OF assms(1)] lookup_row_SomeD [OF t(1)] by simp
  then have new: "target_ok (pools d) t'"
    using updated_browser_truthy [OF t(3)] updated_pool_serves [OF t(4)] t(7) by (simp add: target_ok_def)
  have "distinct (map t_id (targets d))"
    using assms(2) by (simp add: unique_ok_def unique_assets_def unique_on_def)
  note covers = update_row_covers [OF t(1) this, of _ t']
  show ?thesis
  proof (rule assets_okI)
    show "target_ok (pools d') q" if "q \<in> set (targets d')" for q
      using that in_update_row [of q t_id i t' "targets d"] new assets_okD(1) [OF assms(1)] by (auto simp: t(8,9))
    show "environment_ok (pools d') (targets d') e" if "e \<in> set (environments d')" for e
    proof (rule environment_ok_targets)
      show "environment_ok (pools d') (targets d) e"
        using that assets_okD(2) [OF assms(1)] by (simp add: t(9,10))
      show "\<exists>r\<in>set (targets d'). t_id r = t_id q \<and> t_project r = t_project q \<and> t_type r = t_type q"
        if "q \<in> set (targets d)" for q
        using covers [OF that] t(2,5,6,7,8) lookup_row_SomeD [OF t(1)] by auto
    qed
  qed
qed

lemma environment_update_keeps:
  assumes "assets_ok d" "unique_ok d" "update_environment x project target i u actor d = Inr (d', e')"
  shows "assets_ok d'"
proof -
  from assms(3) obtain t e merged where e: "lookup_row t_id target (targets d) = Some t" "t_project t = project"
    "lookup_row e_id i (environments d) = Some e" "e_project e = project" "e_target e = target"
    "merged_environment u e = Inr merged" "validate_environment_payload (t_type t) merged = Inr ()"
    "updated_pool (eu_pool u) (e_pool e) (t_type t) d = Inr (e_pool e')"
    "e_document e' = environment_document merged" "e_target e' = target" "e_project e' = project"
    "environments d' = update_row e_id i (\<lambda>_. e') (environments d)" "pools d' = pools d"
    "targets d' = targets d"
    by (rule update_environment_Inr)
  have "environment_ok (pools d) (targets d) e"
    using assets_okD(2) [OF assms(1)] lookup_row_SomeD [OF e(3)] by simp
  then obtain q where q: "q \<in> set (targets d)" "t_id q = target" "pool_serves (pools d) (t_type q) (e_pool e)"
    by (auto simp: environment_ok_def e(5))
  have "unique_on t_id (targets d)" using assms(2) by (simp add: unique_ok_def unique_assets_def)
  then have "q = t" using unique_on_eq q(1,2) lookup_row_SomeD [OF e(1)] by metis
  with q(3) have new: "environment_ok (pools d) (targets d) e'"
    using environment_ok_found [of e' "targets d" t "pools d"] updated_pool_serves [OF e(8)]
      validated_document_fits [OF e(7)] e(1,2,9-11) by simp
  show ?thesis
  proof (rule assets_okI)
    show "target_ok (pools d') q" if "q \<in> set (targets d')" for q
      using that assets_okD(1) [OF assms(1)] by (simp add: e(13,14))
    show "environment_ok (pools d') (targets d') q" if "q \<in> set (environments d')" for q
      using that in_update_row [of q e_id i e' "environments d"] new assets_okD(2) [OF assms(1)]
      by (auto simp: e(12-14))
  qed
qed

text \<open>A pool only drops a type that no target is bound to.\<close>

lemma bound_target_typesI:
  "t \<in> set (targets d) \<Longrightarrow> t_pool t = Some i \<Longrightarrow> t_type t \<in> set (bound_target_types i d)"
  "t \<in> set (targets d) \<Longrightarrow> e \<in> set (environments d) \<Longrightarrow> e_pool e = Some i \<Longrightarrow> t_id t = e_target e
    \<Longrightarrow> t_type t \<in> set (bound_target_types i d)"
  by (auto simp: bound_target_types_def)

lemma pool_serves_updated:
  assumes found: "lookup_row pl_id i ps = Some pool" and "distinct (map pl_id ps)"
    and "pl_id new = i" and serves: "pool_serves ps kind p"
    and "p = Some i \<Longrightarrow> kind \<in> set (pl_target_types pool) \<Longrightarrow> kind \<in> set (pl_target_types new)"
  shows "pool_serves (update_row pl_id i (\<lambda>_. new) ps) kind p"
proof (cases p)
  case (Some j)
  with serves obtain q where q: "q \<in> set ps" "pl_id q = j" "kind \<in> set (pl_target_types q)"
    by (auto simp: pool_serves_def)
  from update_row_covers [OF found assms(2) q(1), of new] show ?thesis
    using q Some assms(3,5) lookup_row_SomeD [OF found] by (auto simp: pool_serves_def)
qed simp

lemma pool_update_keeps:
  assumes "assets_ok d" "unique_ok d" "update_runner_pool x ttl i u actor d = Inr (d', v)"
  shows "assets_ok d'"
proof -
  from assms(3) obtain pool where p: "lookup_row pl_id i (pools d) = Some pool"
    "pools d' = update_row pl_id i (\<lambda>_. apply_pool_update u pool) (pools d)"
    "pp_target_types u = None \<or> set (bound_target_types i d) \<subseteq> set (pl_target_types (apply_pool_update u pool))"
    "targets d' = targets d" "environments d' = environments d"
    by (rule update_runner_pool_Inr)
  have types: "kind \<in> set (pl_target_types (apply_pool_update u pool))"
    if "kind \<in> set (bound_target_types i d)" "kind \<in> set (pl_target_types pool)" for kind
    using p(3) that by (auto simp: apply_pool_update_def)
  have "distinct (map pl_id (pools d))"
    using assms(2) by (simp add: unique_ok_def unique_runners_def unique_on_def)
  note serves = pool_serves_updated [OF p(1) this, of "apply_pool_update u pool"]
  have id: "pl_id (apply_pool_update u pool) = i" using lookup_row_SomeD [OF p(1)] by simp
  show ?thesis
  proof (rule assets_okI)
    show "target_ok (pools d') t" if "t \<in> set (targets d')" for t
      using assets_okD(1) [OF assms(1), of t] that serves [OF id, of "t_type t" "t_pool t"]
        types [OF bound_target_typesI(1), of t] by (auto simp: target_ok_def p(2,4))
    show "environment_ok (pools d') (targets d') e" if e: "e \<in> set (environments d')" for e
    proof -
      obtain t where t: "t \<in> set (targets d)" "t_id t = e_target e" "t_project t = e_project e"
        "pool_serves (pools d) (t_type t) (e_pool e)" "document_fits (t_type t) (e_document e)"
        using assets_okD(2) [OF assms(1), of e] e by (auto simp: environment_ok_def p(5))
      have "pool_serves (pools d') (t_type t) (e_pool e)"
        unfolding p(2) by (rule serves [OF id t(4)])
          (use types bound_target_typesI(2) [OF t(1)] e t(2) in \<open>auto simp: p(5)\<close>)
      with t show ?thesis by (auto simp: environment_ok_def p(4))
    qed
  qed
qed

lemma asset_call_keeps:
  assumes "asset_call d d'" "unique_ok d" "assets_ok d"
  shows "assets_ok d'"
  using assms(1)
proof (cases rule: asset_call.cases)
  case Project_create
  from create_project_Inr(5-7) [OF this] show ?thesis using assets_ok_frame [OF assms(3)] by simp
next
  case Project_update
  from update_project_Inr(2-4) [OF this] show ?thesis using assets_ok_frame [OF assms(3)] by simp
next
  case (Target_create x project tc actor t)
  then obtain pool where t: "target_browser (tc_type tc) (tc_browser tc) = Inr (t_browser t)"
    "runner_pool_for_target (t_pool t) (t_type t) d = Inr pool" "t_type t = tc_type tc"
    "targets d' = targets d @ [t]" "pools d' = pools d" "environments d' = environments d"
    by (rule create_target_Inr)
  have "target_ok (pools d) t"
    using runner_pool_for_target_serves [OF t(2)] target_browser_truthy [OF t(1)] t(3) by (simp add: target_ok_def)
  then show ?thesis
    using assms(3) by (auto simp: assets_ok_def environment_ok_def t(4-6))
next
  case Target_update
  then show ?thesis by (rule target_update_keeps [OF assms(3,2)])
next
  case (Environment_create x project target ec actor e)
  then obtain t pool where e: "lookup_row t_id target (targets d) = Some t" "t_project t = project"
    "validate_environment_payload (t_type t) ec = Inr ()" "e_document e = environment_document ec"
    "runner_pool_for_target (e_pool e) (t_type t) d = Inr pool" "e_target e = target" "e_project e = project"
    "environments d' = environments d @ [e]" "pools d' = pools d" "targets d' = targets d"
    by (rule create_environment_Inr)
  have "environment_ok (pools d) (targets d) e"
    using environment_ok_found [of e "targets d" t "pools d"] e(1,2,4,6,7)
      runner_pool_for_target_serves [OF e(5)] validated_document_fits [OF e(3)] by simp
  then show ?thesis using assms(3) by (auto simp: assets_ok_def e(8-10))
next
  case Environment_update
  then show ?thesis by (rule environment_update_keeps [OF assms(3,2)])
next
  case Baseline_publish
  then show ?thesis by (rule publish_baseline_Inr) (use assets_ok_frame [OF assms(3)] in simp)
qed

lemma pool_call_keeps:
  assumes "pool_call d d'" "unique_ok d" "assets_ok d"
  shows "assets_ok d'"
  using assms(1)
proof (cases rule: pool_call.cases)
  case Pool_create
  note c = create_runner_pool_Inr [OF this]
  show ?thesis
    using assms(3) pool_serves_append
    by (fastforce simp: assets_ok_def target_ok_def environment_ok_def c(2,5,6))
next
  case Pool_update
  then show ?thesis by (rule pool_update_keeps [OF assms(3,2)])
next
  case Pool_heartbeat
  from heartbeat_Inr(2-4) [OF this] show ?thesis using assets_ok_frame [OF assms(3)] by simp
next
  case Pool_worker
  from update_runner_worker_Inr(2-4) [OF this] show ?thesis using assets_ok_frame [OF assms(3)] by simp
qed

subsection \<open>The invariant and what it is good for\<close>

text \<open>
  C19: bindings stay consistent.  Every service on projects, targets, environments, baselines,
  runner pools and workers keeps the invariant of the asset tables: bound pools exist and serve
  the bound type, and an environment's document fits the type of its target.
\<close>

theorem bindings_preserved:
  assumes "asset_call d d' \<or> pool_call d d'" and "unique_ok d" and "assets_ok d"
  shows "assets_ok d'"
  using assms asset_call_keeps pool_call_keeps by blast

lemma demo_assets_ok: "assets_ok demo_db"
  by (simp add: assets_ok_def demo_db_def target_ok_def environment_ok_def pool_serves_def truthy_def
      document_fits_def binding_names_def)

theorem bindings_preserved_witness:
  "\<exists>d' v. update_runner_pool (demo_txn 1000 700) 45 60 \<lparr>pp_name = None, pp_description = None,
       pp_target_types = Some [WEB, APP], pp_max_concurrency = Some 4, pp_status = Some Resource_DRAINING\<rparr> 2 demo_db
       = Inr (d', v) \<and> assets_ok d'"
proof -
  let ?u = "\<lparr>pp_name = None, pp_description = None, pp_target_types = Some [WEB, APP],
    pp_max_concurrency = Some 4, pp_status = Some Resource_DRAINING\<rparr>"
  have "succeeds (update_runner_pool (demo_txn 1000 700) 45 60 ?u 2 demo_db)" by code_simp
  then obtain d' v where call: "update_runner_pool (demo_txn 1000 700) 45 60 ?u 2 demo_db = Inr (d', v)"
    by (auto simp: succeeds_iff)
  then have "pool_call demo_db d'" by (rule Pool_update)
  with bindings_preserved [of demo_db d'] call demo_assets_ok control_okD(1) [OF demo_ok]
  show ?thesis by blast
qed

lemma resolve_target_Inr:
  "resolve_target q project d = Inr t \<Longrightarrow> t \<in> set (targets d) \<and> t_id t = rq_target q \<and> t_project t = project"
  by (auto simp: resolve_target_def dest: lookup_row_SomeD split: option.split_asm if_split_asm)

lemma resolve_environment_Inr:
  "resolve_environment q project t d = Inr e \<Longrightarrow> e \<in> set (environments d) \<and> e_project e = project \<and> e_target e = t_id t"
  by (auto simp: resolve_environment_def dest: lookup_row_SomeD split: option.split_asm if_split_asm)

text \<open>
  A run is sent to a pool that can serve it.  On consistent asset tables a created run names
  no pool or an existing one whose target types include the type in the run's snapshot, and the
  environment it uses has a web configuration exactly when the target is a WEB target.
\<close>

theorem created_run_is_served:
  assumes "create_run x q key actor ab ap sch due d = Inr (d', r, True)"
    and "unique_ok d" and "assets_ok d"
  shows "pool_serves (pools d) (snap_target_type (r_snapshot r)) (r_pool r)
    \<and> (\<exists>e\<in>set (environments d). e_id e = r_environment r
        \<and> (snap_target_type (r_snapshot r) = WEB \<longleftrightarrow> doc_web_config (e_document e) \<noteq> None))"
  using assms(1)
proof (cases rule: create_run_Inr)
  case (queued project pl chain qr)
  note plan = plan_run_Inr [OF queued(4)]
  let ?t = "plan_target pl" and ?e = "plan_environment pl"
  have t: "?t \<in> set (targets d)" "t_id ?t = rq_target q" using resolve_target_Inr [OF plan(1)] by simp_all
  have e: "?e \<in> set (environments d)" "e_target ?e = t_id ?t" using resolve_environment_Inr [OF plan(2)] by simp_all
  obtain s where s: "s \<in> set (targets d)" "t_id s = t_id ?t" "pool_serves (pools d) (t_type s) (e_pool ?e)"
    "document_fits (t_type s) (e_document ?e)"
    using assets_okD(2) [OF assms(3) e(1)] e(2) by (auto simp: environment_ok_def)
  have "unique_on t_id (targets d)" using assms(2) by (simp add: unique_ok_def unique_assets_def)
  then have "s = ?t" using unique_on_eq s(1,2) t(1) by metis
  moreover have "target_ok (pools d) ?t" using assets_okD(1) [OF assms(3) t(1)] .
  ultimately have "pool_serves (pools d) (t_type ?t) (effective_pool ?e ?t)"
    using s(3) by (auto simp: effective_pool_def target_ok_def split: option.split)
  moreover have "r_pool r = effective_pool ?e ?t" "r_environment r = e_id ?e"
    "snap_target_type (r_snapshot r) = t_type ?t"
    using queued(2) by (simp_all add: queued_by_def new_run_def queued(6) queue_arguments_def snapshot_of_def Let_def)
  ultimately show ?thesis
    using e(1) s(4) \<open>s = ?t\<close> by (auto simp: document_fits_def)
qed simp

theorem created_run_is_served_witness:
  "\<exists>d' r. create_run (demo_txn 1000 200) demo_request ''key'' 2 [Baseline_RELEASED] [Package_ACTIVE]
       None None demo_db = Inr (d', r, True)
     \<and> pool_serves (pools demo_db) (snap_target_type (r_snapshot r)) (r_pool r)"
proof -
  obtain d' r where call: "create_run (demo_txn 1000 200) demo_request ''key'' 2 [Baseline_RELEASED]
      [Package_ACTIVE] None None demo_db = Inr (d', r, True)"
    using demo_creates by (rule created_runE)
  with created_run_is_served [OF call control_okD(1) [OF demo_ok] demo_assets_ok] show ?thesis by blast
qed

text \<open>
  The browser of a target is checked when it is created and not when it is updated: an update
  stores a browser that a creation refuses.
\<close>

lemma update_target_accepts_any_browser:
  "target_browser WEB (Some ''opera'') = Inl (InvalidRequest ''WEB target browser must be chromium, firefox or webkit'')
   \<and> (\<exists>u d' t'. update_target (demo_txn 1000 700) 10 20 u 2 demo_db = Inr (d', t') \<and> t_browser t' = Some ''opera'')"
proof
  show "target_browser WEB (Some ''opera'') = Inl (InvalidRequest ''WEB target browser must be chromium, firefox or webkit'')"
    by (simp add: target_browser_def Let_def truthy_def)
  let ?u = "\<lparr>tu_name = None, tu_browser = Some (Some ''opera''), tu_status = None, tu_pool = None\<rparr>"
  have "case update_target (demo_txn 1000 700) 10 20 ?u 2 demo_db of
      Inl _ \<Rightarrow> False | Inr (d', t') \<Rightarrow> t_browser t' = Some ''opera''"
    by code_simp
  then show "\<exists>u d' t'. update_target (demo_txn 1000 700) 10 20 u 2 demo_db = Inr (d', t') \<and> t_browser t' = Some ''opera''"
    by (intro exI [of _ ?u]) (auto split: sum.splits)
qed

end
