(* ===== verification/Automation_Packages.thy ===== *)
theory Automation_Packages
  imports Asset_Bindings
begin

section \<open>Automation packages and their supply chain\<close>

text \<open>
  \<open>services.py\<close>: \<open>create_automation_package\<close>, \<open>record_automation_package_supply_chain_verification\<close>,
  \<open>activate_automation_package\<close>, \<open>deprecate_automation_package\<close> and \<open>revoke_automation_package\<close>, and
  the report model's validator in \<open>schemas.py\<close>.  A package is ACTIVE only after a verified
  report and a passed full regression, and no report changes a package unless a verifier's
  envelope is used up with it.
\<close>

subsection \<open>Creating a package\<close>

record package_create =
  ac_name :: string
  ac_version :: string
  ac_digest :: digest
  ac_runner_type :: runner_type
  ac_image_repository :: string
  ac_supersedes :: "uuid option"

text \<open>
  \<open>ac_supersedes\<close> is a field of \<open>AutomationPackageDraftCreate\<close> only; it is \<open>None\<close> for the base
  class, as in the source.
\<close>

fun runner_type_value :: "runner_type \<Rightarrow> string" where
  "runner_type_value WEB_PLAYWRIGHT = ''WEB_PLAYWRIGHT''"
| "runner_type_value ANDROID_APPIUM = ''ANDROID_APPIUM''"

fun package_status_value :: "package_status \<Rightarrow> string" where
  "package_status_value Package_DRAFT = ''DRAFT''"
| "package_status_value Package_ACTIVE = ''ACTIVE''"
| "package_status_value Package_DEPRECATED = ''DEPRECATED''"
| "package_status_value Package_REVOKED = ''REVOKED''"

fun chain_status_value :: "supply_chain_status \<Rightarrow> string" where
  "chain_status_value Chain_LEGACY = ''LEGACY''"
| "chain_status_value Chain_PENDING = ''PENDING''"
| "chain_status_value Chain_VERIFIED = ''VERIFIED''"
| "chain_status_value Chain_REJECTED = ''REJECTED''"

fun package_runner :: "target_type \<Rightarrow> runner_type option" where
  "package_runner WEB = Some WEB_PLAYWRIGHT"
| "package_runner APP = Some ANDROID_APPIUM"
| "package_runner API = None"

definition check_supersedes ::
  "package_create \<Rightarrow> uuid \<Rightarrow> uuid \<Rightarrow> db \<Rightarrow> service_error + unit" where
  "check_supersedes u project target d =
     (case ac_supersedes u of
        None \<Rightarrow> Inr ()
      | Some i \<Rightarrow>
          (case lookup_row k_id i (packages d) of
             None \<Rightarrow> Inl (InvalidRequest ''supersedes_id must reference the same target and package name'')
           | Some k \<Rightarrow>
               if k_project k \<noteq> project \<or> k_target k \<noteq> target \<or> k_name k \<noteq> ac_name u
               then Inl (InvalidRequest ''supersedes_id must reference the same target and package name'')
               else if k_status k = Package_REVOKED
               then Inl (ResourceConflict ''a revoked automation package cannot be superseded'')
               else Inr ()))"

definition new_package :: "uuid \<Rightarrow> uuid \<Rightarrow> uuid \<Rightarrow> package_create \<Rightarrow> package_status \<Rightarrow> package_row" where
  "new_package i project target u status =
     \<lparr>k_id = i, k_project = project, k_target = target, k_name = ac_name u, k_version = ac_version u,
      k_digest = ac_digest u, k_runner_type = ac_runner_type u, k_image_repository = ac_image_repository u,
      k_status = status, k_supersedes = ac_supersedes u, k_validated_run = None, k_activated_by = None,
      k_activated_at = None, k_reason = None,
      k_chain_status = (if status = Package_DRAFT then Chain_PENDING else Chain_LEGACY),
      k_verification = None, k_verified_at = None\<rparr>"

definition create_automation_package ::
  "txn \<Rightarrow> uuid \<Rightarrow> uuid \<Rightarrow> package_create \<Rightarrow> uuid \<Rightarrow> package_status \<Rightarrow> db
    \<Rightarrow> service_error + db \<times> package_row" where
  "create_automation_package x project target u actor status d =
     bind_outcome (project_or_404 d project) (\<lambda>_.
     bind_outcome (target_in_project target project d) (\<lambda>t.
     if package_runner (t_type t) \<noteq> Some (ac_runner_type u)
     then Inl (InvalidRequest ''{} targets require a {} package'')
     else
     bind_outcome (check_supersedes u project target d) (\<lambda>_.
       let k = new_package (txn_uuid x Draw_row) project target u status;
           d1 = audit x actor
             (if status = Package_DRAFT then ''automation_package.draft_created'' else ''automation_package.created'')
             ''automation_package'' (k_id k) (Some project)
             [(''name'', JStr (k_name k)), (''version'', JStr (k_version k)), (''digest'', JStr (k_digest k)),
              (''runner_type'', JStr (runner_type_value (k_runner_type k))),
              (''image_repository'', JStr (k_image_repository k)),
              (''status'', JStr (package_status_value (k_status k))),
              (''supply_chain_status'', JStr (chain_status_value (k_chain_status k))),
              (''supersedes_id'', json_id (k_supersedes k))]
             (d\<lparr>packages := packages d @ [k]\<rparr>)
       in bind_outcome (commit_unique ''automation package version already exists for target'' d1)
            (\<lambda>d2. Inr (d2, k)))))"

subsection \<open>Verification reports\<close>

text \<open>The validator of \<open>AutomationPackageSupplyChainVerificationCreate\<close>.\<close>

definition verified_outcome_requires_all_checks :: "chain_report \<Rightarrow> service_error + chain_report" where
  "verified_outcome_requires_all_checks r =
     (if rep_outcome r = Outcome_VERIFIED
         \<and> \<not> (rep_signature_verified r \<and> rep_log_verified r \<and> rep_provenance_verified r \<and> rep_sbom_verified r)
      then Inl (Value_error ''VERIFIED supply-chain outcome requires every check to pass'')
      else if rep_outcome r = Outcome_REJECTED \<and> rep_reason r = None
      then Inl (Value_error ''REJECTED supply-chain outcome requires a reason'')
      else Inr r)"

text \<open>\<open>SupplyChainVerifierPrincipal\<close>: the authenticated service and its signed envelope.\<close>

record verifier_principal =
  vp_actor :: uuid
  vp_verifier :: string
  vp_credential :: string
  vp_algorithm :: envelope_algorithm
  vp_workload :: "string option"
  vp_fingerprint :: "digest option"
  vp_nonce :: string
  vp_issued_at :: instant
  vp_request_digest :: digest
  vp_signature_digest :: digest

record chain_policy =
  cp_policy_version :: string
  cp_verifiers :: "string list"
  cp_issuers :: "string list"
  cp_identities :: "string list"
  cp_builders :: "string list"
  cp_repositories :: "string list"

definition policy_values :: "chain_policy \<Rightarrow> chain_report \<Rightarrow> (string \<times> string list) list" where
  "policy_values p r =
     [(rep_verifier r, cp_verifiers p), (rep_certificate_issuer r, cp_issuers p),
      (rep_certificate_identity r, cp_identities p), (rep_builder_id r, cp_builders p),
      (rep_source_repository r, cp_repositories p)]"

definition admit_report :: "chain_policy \<Rightarrow> chain_report \<Rightarrow> service_error + unit" where
  "admit_report p r =
     (if rep_outcome r \<noteq> Outcome_VERIFIED then Inr ()
      else if \<exists>(value, allowed)\<in>set (policy_values p r). allowed = []
      then Inl (ResourceConflict ''supply-chain admission policy is not configured for {}'')
      else if \<exists>(value, allowed)\<in>set (policy_values p r). value \<notin> set allowed
      then Inl (InvalidRequest ''supply-chain report is not allowed by policy for {}'')
      else Inr ())"

definition envelope_for :: "txn \<Rightarrow> package_row \<Rightarrow> uuid \<Rightarrow> verifier_principal \<Rightarrow> envelope_row" where
  "envelope_for x k verification v =
     \<lparr>env_id = txn_uuid x (Draw_outbox (k_id k)), env_project = k_project k, env_target = k_target k,
      env_package = k_id k, env_verification = verification, env_verifier = vp_verifier v,
      env_credential = vp_credential v, env_algorithm = vp_algorithm v, env_workload = vp_workload v,
      env_fingerprint = vp_fingerprint v, env_nonce = vp_nonce v, env_issued_at = vp_issued_at v,
      env_received_at = txn_now x, env_request_digest = vp_request_digest v,
      env_signature_digest = vp_signature_digest v\<rparr>"

fun algorithm_value :: "envelope_algorithm \<Rightarrow> string" where
  "algorithm_value HMAC_SHA256 = ''HMAC-SHA256''"
| "algorithm_value ED25519 = ''ED25519''"

fun algorithm_profile :: "envelope_algorithm \<Rightarrow> string" where
  "algorithm_profile HMAC_SHA256 = ''testops-supply-chain-envelope-v1''"
| "algorithm_profile ED25519 = ''testops-supply-chain-envelope-v2''"

definition principal_details :: "verifier_principal \<Rightarrow> (string \<times> json) list" where
  "principal_details v =
     [(''credential_id'', JStr (vp_credential v)),
      (''envelope_profile'', JStr (algorithm_profile (vp_algorithm v))),
      (''signature_algorithm'', JStr (algorithm_value (vp_algorithm v))),
      (''workload_identity'', json_str (vp_workload v)), (''key_fingerprint'', json_str (vp_fingerprint v)),
      (''envelope_nonce'', JStr (vp_nonce v)), (''request_digest'', JStr (vp_request_digest v)),
      (''signature_digest'', JStr (vp_signature_digest v))]"

fun outcome_status :: "verification_outcome \<Rightarrow> supply_chain_status" where
  "outcome_status Outcome_VERIFIED = Chain_VERIFIED"
| "outcome_status Outcome_REJECTED = Chain_REJECTED"

definition store_package :: "package_row \<Rightarrow> db \<Rightarrow> db" where
  "store_package k d = d\<lparr>packages := update_row k_id (k_id k) (\<lambda>_. k) (packages d)\<rparr>"

definition report_details :: "verification_row \<Rightarrow> (string \<times> json) list" where
  "report_details s =
     (let r = sv_report s in
      [(''verification_id'', JId (sv_id s)), (''report_digest'', JStr (sv_report_digest s)),
       (''policy_version'', JStr (rep_policy_version r)), (''verifier'', JStr (rep_verifier r)),
       (''image_digest'', JStr (rep_image_digest r)),
       (''signature_bundle_digest'', JStr (rep_signature_bundle r)),
       (''provenance_digest'', JStr (rep_provenance r)), (''sbom_digest'', JStr (rep_sbom r)),
       (''certificate_issuer'', JStr (rep_certificate_issuer r)),
       (''certificate_identity'', JStr (rep_certificate_identity r)),
       (''builder_id'', JStr (rep_builder_id r)), (''source_repository'', JStr (rep_source_repository r)),
       (''source_revision'', JStr (rep_source_revision r)),
       (''outcome'', JStr (chain_status_value (outcome_status (rep_outcome r)))),
       (''reason'', json_str (rep_reason r))])"

text \<open>A report that is already stored: only the envelope is used up.\<close>

definition repeat_report ::
  "txn \<Rightarrow> package_row \<Rightarrow> verification_row \<Rightarrow> verifier_principal \<Rightarrow> db \<Rightarrow> service_error + db \<times> verification_row \<times> bool" where
  "repeat_report x k s v d =
     (let d1 = audit x (vp_actor v) ''automation_package.supply_chain_report_idempotent'' ''automation_package''
            (k_id k) (Some (k_project k))
            ([(''verification_id'', JId (sv_id s)), (''report_digest'', JStr (sv_report_digest s)),
              (''verifier'', JStr (vp_verifier v))] @ principal_details v)
            (d\<lparr>envelopes := envelopes d @ [envelope_for x k (sv_id s) v]\<rparr>)
      in bind_outcome (commit_unique ''supply-chain verifier envelope was already used'' d1)
           (\<lambda>d2. Inr (d2, s, False)))"

definition new_verification :: "txn \<Rightarrow> package_row \<Rightarrow> chain_report \<Rightarrow> verification_row" where
  "new_verification x k r =
     \<lparr>sv_id = txn_uuid x Draw_row, sv_project = k_project k, sv_target = k_target k, sv_package = k_id k,
      sv_report = r, sv_report_digest = txn_digest x (Hash_chain_report (k_id k) r),
      sv_verified_at = txn_now x\<rparr>"

definition judged_package :: "package_row \<Rightarrow> verification_row \<Rightarrow> package_row" where
  "judged_package k s =
     k\<lparr>k_chain_status := outcome_status (rep_outcome (sv_report s)), k_verification := Some (sv_id s),
       k_verified_at := Some (sv_verified_at s)\<rparr>"

definition store_report ::
  "txn \<Rightarrow> package_row \<Rightarrow> chain_report \<Rightarrow> verifier_principal \<Rightarrow> db \<Rightarrow> service_error + db \<times> verification_row \<times> bool" where
  "store_report x k r v d =
     (let s = new_verification x k r;
          d1 = d\<lparr>verifications := verifications d @ [s]\<rparr>
      in if \<not> unique_ok d1 then Inl Integrity_error
         else
         let d2 = store_package (judged_package k s) (d1\<lparr>envelopes := envelopes d1 @ [envelope_for x k (sv_id s) v]\<rparr>);
             d3 = audit x (vp_actor v)
               (if rep_outcome r = Outcome_VERIFIED then ''automation_package.supply_chain_verified''
                else ''automation_package.supply_chain_rejected'')
               ''automation_package'' (k_id k) (Some (k_project k)) (report_details s @ principal_details v) d2
         in bind_outcome (commit_unique ''supply-chain verifier envelope was already used'' d3)
              (\<lambda>d4. Inr (d4, s, True)))"

definition record_automation_package_supply_chain_verification ::
  "txn \<Rightarrow> chain_policy \<Rightarrow> uuid \<Rightarrow> uuid \<Rightarrow> uuid \<Rightarrow> chain_report \<Rightarrow> verifier_principal \<Rightarrow> db
    \<Rightarrow> service_error + db \<times> verification_row \<times> bool" where
  "record_automation_package_supply_chain_verification x policy project target package r v d =
     bind_outcome (get_automation_package project target package d) (\<lambda>k.
     if rep_verifier r \<noteq> vp_verifier v
     then Inl (InvalidRequest ''supply-chain report verifier does not match the authenticated service identity'')
     else if lookup_row (\<lambda>e. (env_credential e, env_nonce e)) (vp_credential v, vp_nonce v) (envelopes d) \<noteq> None
     then Inl (ResourceConflict ''supply-chain verifier envelope nonce was already used'')
     else if rep_image_digest r \<noteq> k_digest k
     then Inl (InvalidRequest ''supply-chain report image_digest does not match the package'')
     else if rep_policy_version r \<noteq> cp_policy_version policy
     then Inl (InvalidRequest ''supply-chain report policy_version is not current'')
     else
     bind_outcome (admit_report policy r) (\<lambda>_.
       case lookup_row (\<lambda>s. (sv_package s, sv_report_digest s))
           (package, txn_digest x (Hash_chain_report package r)) (verifications d) of
         Some s \<Rightarrow> repeat_report x k s v d
       | None \<Rightarrow> store_report x k r v d))"

subsection \<open>Activation, deprecation, revocation\<close>

definition validation_run_for ::
  "uuid \<Rightarrow> uuid \<Rightarrow> package_row \<Rightarrow> uuid \<Rightarrow> db \<Rightarrow> service_error + run_row" where
  "validation_run_for project target k i d =
     (case lookup_row r_id i (runs d) of
        None \<Rightarrow> Inl (InvalidRequest ''validation_run_id does not validate this automation package'')
      | Some r \<Rightarrow>
          if r_project r \<noteq> project \<or> r_target r \<noteq> target \<or> r_package r \<noteq> k_id k
          then Inl (InvalidRequest ''validation_run_id does not validate this automation package'')
          else if r_status r \<noteq> PASSED \<or> r_result_digest r = None
          then Inl (ResourceConflict ''automation package validation Run must finish PASSED'')
          else Inr r)"

definition full_regression_of :: "run_row \<Rightarrow> db \<Rightarrow> service_error + unit" where
  "full_regression_of r d =
     (case lookup_row b_id (r_baseline r) (baselines d) of
        None \<Rightarrow> Inl (ResourceConflict ''automation package validation requires a RELEASED baseline'')
      | Some b \<Rightarrow>
          if b_status b \<noteq> Baseline_RELEASED
          then Inl (ResourceConflict ''automation package validation requires a RELEASED baseline'')
          else bind_outcome (contract (parse_baseline (b_document b))) (\<lambda>baseline.
            if r_case_count r \<noteq> count_rows case_enabled (baseline_cases baseline)
            then Inl (ResourceConflict ''automation package activation requires a full enabled-case regression'')
            else Inr ()))"

definition activate_automation_package ::
  "txn \<Rightarrow> uuid \<Rightarrow> uuid \<Rightarrow> uuid \<Rightarrow> uuid \<Rightarrow> uuid \<Rightarrow> db \<Rightarrow> service_error + db \<times> package_row" where
  "activate_automation_package x project target package run actor d =
     bind_outcome (get_automation_package project target package d) (\<lambda>k.
     if k_status k = Package_ACTIVE \<and> k_validated_run k = Some run then Inr (d, k)
     else if k_status k \<noteq> Package_DRAFT
     then Inl (ResourceConflict ''only a DRAFT automation package can be activated'')
     else if k_chain_status k \<noteq> Chain_VERIFIED
     then Inl (ResourceConflict ''automation package must pass supply-chain verification before activation'')
     else
     bind_outcome (validation_run_for project target k run d) (\<lambda>r.
     bind_outcome (full_regression_of r d) (\<lambda>_.
       let k' = k\<lparr>k_status := Package_ACTIVE, k_validated_run := Some run, k_activated_by := Some actor,
             k_activated_at := Some (txn_now x), k_reason := None\<rparr>;
           d1 = audit x actor ''automation_package.activated'' ''automation_package'' (k_id k) (Some project)
             [(''validation_run_id'', JId run), (''digest'', JStr (k_digest k)), (''version'', JStr (k_version k))]
             (store_package k' d)
       in bind_outcome (commit d1) (\<lambda>d2. Inr (d2, k')))))"

definition change_package_status ::
  "txn \<Rightarrow> package_row \<Rightarrow> package_status \<Rightarrow> string \<Rightarrow> string \<Rightarrow> uuid \<Rightarrow> db \<Rightarrow> service_error + db \<times> package_row" where
  "change_package_status x k status reason action actor d =
     (let k' = k\<lparr>k_status := status, k_reason := Some reason\<rparr>;
          d1 = audit x actor action ''automation_package'' (k_id k) (Some (k_project k))
            [(''reason'', JStr reason), (''version'', JStr (k_version k))] (store_package k' d)
      in bind_outcome (commit d1) (\<lambda>d2. Inr (d2, k')))"

definition deprecate_automation_package ::
  "txn \<Rightarrow> uuid \<Rightarrow> uuid \<Rightarrow> uuid \<Rightarrow> string \<Rightarrow> uuid \<Rightarrow> db \<Rightarrow> service_error + db \<times> package_row" where
  "deprecate_automation_package x project target package reason actor d =
     bind_outcome (get_automation_package project target package d) (\<lambda>k.
     if k_status k = Package_DEPRECATED \<and> k_reason k = Some reason then Inr (d, k)
     else if k_status k \<noteq> Package_ACTIVE
     then Inl (ResourceConflict ''only an ACTIVE automation package can be deprecated'')
     else if \<exists>s\<in>set (schedules d). s_package s = k_id k \<and> s_status s = Schedule_ACTIVE
     then Inl (ResourceConflict ''automation package is still used by an ACTIVE regression schedule'')
     else change_package_status x k Package_DEPRECATED reason ''automation_package.deprecated'' actor d)"

definition revoke_automation_package ::
  "txn \<Rightarrow> uuid \<Rightarrow> uuid \<Rightarrow> uuid \<Rightarrow> string \<Rightarrow> uuid \<Rightarrow> db \<Rightarrow> service_error + db \<times> package_row" where
  "revoke_automation_package x project target package reason actor d =
     bind_outcome (get_automation_package project target package d) (\<lambda>k.
     if k_status k = Package_REVOKED \<and> k_reason k = Some reason then Inr (d, k)
     else if k_status k = Package_REVOKED
     then Inl (ResourceConflict ''automation package is already revoked'')
     else change_package_status x k Package_REVOKED reason ''automation_package.revoked'' actor d)"

subsection \<open>What the services commit\<close>

inductive package_call :: "db \<Rightarrow> db \<Rightarrow> bool" where
  Package_create: "create_automation_package x project target u actor status d = Inr (d', k) \<Longrightarrow> package_call d d'"
| Package_report: "record_automation_package_supply_chain_verification x policy project target i r v d
    = Inr (d', s, new) \<Longrightarrow> package_call d d'"
| Package_activate: "activate_automation_package x project target i run actor d = Inr (d', k) \<Longrightarrow> package_call d d'"
| Package_deprecate: "deprecate_automation_package x project target i reason actor d = Inr (d', k) \<Longrightarrow> package_call d d'"
| Package_revoke: "revoke_automation_package x project target i reason actor d = Inr (d', k) \<Longrightarrow> package_call d d'"

lemma get_automation_package_Inr:
  "get_automation_package project target i d = Inr k \<Longrightarrow>
     k \<in> set (packages d) \<and> k_id k = i \<and> k_project k = project \<and> k_target k = target"
  by (auto simp: get_automation_package_def outcome_simps dest: find_SomeD)

lemma store_package_frame [simp]:
  "packages (store_package k d) = update_row k_id (k_id k) (\<lambda>_. k) (packages d)"
  "verifications (store_package k d) = verifications d"
  "envelopes (store_package k d) = envelopes d"
  "runs (store_package k d) = runs d"
  "run_cases (store_package k d) = run_cases d"
  "events (store_package k d) = events d"
  "outbox (store_package k d) = outbox d"
  "leases (store_package k d) = leases d"
  by (simp_all add: store_package_def)

lemma create_automation_package_Inr:
  assumes "create_automation_package x project target u actor status d = Inr (d', k)"
  obtains t where "k = new_package (txn_uuid x Draw_row) project target u status"
    "lookup_row t_id target (targets d) = Some t" "t_project t = project"
    "package_runner (t_type t) = Some (ac_runner_type u)"
    "unique_ok d'" "packages d' = packages d @ [k]" "verifications d' = verifications d" "same_run_tables d d'"
  using assms unfolding create_automation_package_def Let_def
  by (elim commit_unique_bind_InrE bind_outcome_InrE guard_InrE)
    (auto simp: same_run_tables_def dest!: target_in_project_Inr)

lemma repeat_report_Inr:
  assumes "repeat_report x k s v d = Inr (d', s', new)"
  shows "unique_ok d'" "packages d' = packages d" "verifications d' = verifications d" "s' = s" "\<not> new"
    "envelopes d' = envelopes d @ [envelope_for x k (sv_id s) v]" "same_run_tables d d'"
  using assms unfolding repeat_report_def Let_def
  by (auto elim!: commit_unique_bind_InrE simp: same_run_tables_def)

lemma store_report_Inr:
  assumes "store_report x k r v d = Inr (d', s, new)"
  shows "unique_ok d'" "packages d' = update_row k_id (k_id k) (\<lambda>_. judged_package k s) (packages d)"
    "verifications d' = verifications d @ [s]" "s = new_verification x k r" "new"
    "envelopes d' = envelopes d @ [envelope_for x k (sv_id s) v]" "same_run_tables d d'"
  using assms unfolding store_report_def Let_def
  by (auto elim!: commit_unique_bind_InrE guard_InrE simp: same_run_tables_def judged_package_def simp del: if_split)

lemma record_report_Inr:
  assumes "record_automation_package_supply_chain_verification x policy project target i r v d = Inr (d', s, new)"
  obtains k where "k \<in> set (packages d)" "k_id k = i" "rep_verifier r = vp_verifier v"
    "lookup_row (\<lambda>e. (env_credential e, env_nonce e)) (vp_credential v, vp_nonce v) (envelopes d) = None"
    "rep_image_digest r = k_digest k" "rep_policy_version r = cp_policy_version policy"
    "admit_report policy r = Inr ()"
    "repeat_report x k s v d = Inr (d', s, new) \<or> store_report x k r v d = Inr (d', s, new)"
proof -
  obtain k where k: "get_automation_package project target i d = Inr k"
    using assms unfolding record_automation_package_supply_chain_verification_def by (rule bind_outcome_InrE)
  note call = assms [unfolded record_automation_package_supply_chain_verification_def k bind_outcome_simps]
  show thesis
    using call
  proof (elim guard_InrE bind_outcome_InrE)
    fix u assume checks: "\<not> rep_verifier r \<noteq> vp_verifier v" "\<not> rep_image_digest r \<noteq> k_digest k"
      "\<not> lookup_row (\<lambda>e. (env_credential e, env_nonce e)) (vp_credential v, vp_nonce v) (envelopes d) \<noteq> None"
      "\<not> rep_policy_version r \<noteq> cp_policy_version policy" "admit_report policy r = Inr u"
      and last: "(case lookup_row (\<lambda>s. (sv_package s, sv_report_digest s))
           (i, txn_digest x (Hash_chain_report i r)) (verifications d) of
         Some s \<Rightarrow> repeat_report x k s v d | None \<Rightarrow> store_report x k r v d) = Inr (d', s, new)"
    from last have "repeat_report x k s v d = Inr (d', s, new) \<or> store_report x k r v d = Inr (d', s, new)"
      by (cases "lookup_row (\<lambda>s. (sv_package s, sv_report_digest s))
           (i, txn_digest x (Hash_chain_report i r)) (verifications d)") (use repeat_report_Inr(4) in fastforce)+
    with checks get_automation_package_Inr [OF k] show thesis by (intro that [of k]) simp_all
  qed
qed

lemma change_package_status_Inr:
  assumes "change_package_status x k status reason action actor d = Inr (d', k')"
  shows "unique_ok d'" "k' = k\<lparr>k_status := status, k_reason := Some reason\<rparr>"
    "packages d' = update_row k_id (k_id k) (\<lambda>_. k') (packages d)" "verifications d' = verifications d"
    "same_run_tables d d'"
  using assms unfolding change_package_status_def Let_def
  by (auto elim!: commit_bind_InrE simp: same_run_tables_def)

lemma activate_Inr:
  assumes "activate_automation_package x project target i run actor d = Inr (d', k')"
  obtains (again) "d' = d" "k' \<in> set (packages d)" "k_status k' = Package_ACTIVE" "k_validated_run k' = Some run"
  | (activated) k r where "k \<in> set (packages d)" "k_id k = i" "k_status k = Package_DRAFT" "k_chain_status k = Chain_VERIFIED"
    "validation_run_for project target k run d = Inr r" "full_regression_of r d = Inr ()"
    "k' = k\<lparr>k_status := Package_ACTIVE, k_validated_run := Some run, k_activated_by := Some actor,
       k_activated_at := Some (txn_now x), k_reason := None\<rparr>"
    "unique_ok d'" "packages d' = update_row k_id i (\<lambda>_. k') (packages d)" "verifications d' = verifications d"
    "same_run_tables d d'"
proof -
  obtain k where k: "get_automation_package project target i d = Inr k"
    using assms unfolding activate_automation_package_def by (rule bind_outcome_InrE)
  note call = assms [unfolded activate_automation_package_def k bind_outcome_simps]
  note get = get_automation_package_Inr [OF k]
  show thesis
  proof (cases "k_status k = Package_ACTIVE \<and> k_validated_run k = Some run")
    case True
    with call get again show thesis by simp
  next
    case False
    from call [unfolded if_not_P [OF False] Let_def] show thesis
      by (elim guard_InrE bind_outcome_InrE commit_bind_InrE)
        (rule activated [of k], use get in \<open>auto simp: same_run_tables_def commit_Inr_iff\<close>)
  qed
qed

lemma deprecate_Inr:
  assumes "deprecate_automation_package x project target i reason actor d = Inr (d', k')"
  obtains (again) "d' = d"
  | (changed) k where "k \<in> set (packages d)" "k_status k = Package_ACTIVE"
    "change_package_status x k Package_DEPRECATED reason ''automation_package.deprecated'' actor d = Inr (d', k')"
  using assms unfolding deprecate_automation_package_def
  by (auto elim!: bind_outcome_InrE dest!: get_automation_package_Inr split: if_split_asm)

lemma revoke_Inr:
  assumes "revoke_automation_package x project target i reason actor d = Inr (d', k')"
  obtains (again) "d' = d"
  | (changed) k where "k \<in> set (packages d)" "k_status k \<noteq> Package_REVOKED"
    "change_package_status x k Package_REVOKED reason ''automation_package.revoked'' actor d = Inr (d', k')"
  using assms unfolding revoke_automation_package_def
  by (auto elim!: bind_outcome_InrE dest!: get_automation_package_Inr split: if_split_asm)

lemma package_call_commits:
  assumes "package_call d d'"
  shows "same_run_tables d d' \<and> (unique_ok d \<longrightarrow> unique_ok d')"
  using assms
proof (cases rule: package_call.cases)
  case Package_create
  then show ?thesis by (rule create_automation_package_Inr) simp
next
  case Package_report
  then show ?thesis
    by (rule record_report_Inr) (auto dest: repeat_report_Inr(1,7) store_report_Inr(1,7))
next
  case Package_activate
  then show ?thesis by (cases rule: activate_Inr) simp_all
next
  case Package_deprecate
  then show ?thesis by (cases rule: deprecate_Inr) (use change_package_status_Inr(1,5) in simp_all)
next
  case Package_revoke
  then show ?thesis by (cases rule: revoke_Inr) (use change_package_status_Inr(1,5) in simp_all)
qed

interpretation package_services: side_service package_call
  by unfold_locales (simp_all add: package_call_commits)

subsection \<open>Evidence\<close>

text \<open>
  A package that counts as verified is backed by a stored VERIFIED report about itself and its
  own image digest.
\<close>

definition evidence_ok :: "verification_row list \<Rightarrow> package_row \<Rightarrow> bool" where
  "evidence_ok vs k \<longleftrightarrow> (k_chain_status k = Chain_VERIFIED \<longrightarrow>
     (\<exists>v\<in>set vs. k_verification k = Some (sv_id v) \<and> sv_package v = k_id k
        \<and> rep_outcome (sv_report v) = Outcome_VERIFIED \<and> rep_image_digest (sv_report v) = k_digest k))"

definition packages_ok :: "db \<Rightarrow> bool" where
  "packages_ok d \<longleftrightarrow> (\<forall>k\<in>set (packages d). evidence_ok (verifications d) k)"

lemma packages_ok_update:
  assumes "packages_ok d" "packages d' = update_row k_id i (\<lambda>_. k') (packages d)" "evidence_ok (verifications d') k'"
    "set (verifications d) \<subseteq> set (verifications d')"
  shows "packages_ok d'"
proof -
  have "evidence_ok (verifications d') k" if "k \<in> set (packages d')" for k
    using that in_update_row [of k k_id i k' "packages d"] assms by (auto simp: packages_ok_def evidence_ok_def)
  then show ?thesis by (simp add: packages_ok_def)
qed

lemma change_package_status_evidence:
  assumes "change_package_status x k status reason action actor d = Inr (d', k')" "k \<in> set (packages d)" "packages_ok d"
  shows "packages_ok d'"
proof -
  note c = change_package_status_Inr [OF assms(1)]
  have "evidence_ok (verifications d') k'"
    using assms(2,3) by (auto simp: packages_ok_def evidence_ok_def c(2,4))
  then show ?thesis by (rule packages_ok_update [OF assms(3) c(3)]) (simp add: c(4))
qed

text \<open>
  C17: a verified package has its evidence.  Every service on packages keeps, for each package
  whose supply chain is VERIFIED, a stored report that says VERIFIED about that package and about
  its image digest.
\<close>

theorem package_evidence_preserved:
  assumes "package_call d d'" and "packages_ok d"
  shows "packages_ok d'"
  using assms(1)
proof (cases rule: package_call.cases)
  case Package_create
  then show ?thesis
    by (rule create_automation_package_Inr)
      (use assms(2) in \<open>simp add: packages_ok_def evidence_ok_def new_package_def\<close>)
next
  case (Package_report x policy project target i r v s new)
  then obtain k where k: "k \<in> set (packages d)" "rep_image_digest r = k_digest k"
    "repeat_report x k s v d = Inr (d', s, new) \<or> store_report x k r v d = Inr (d', s, new)"
    by (rule record_report_Inr)
  from k(3) show ?thesis
  proof
    assume "repeat_report x k s v d = Inr (d', s, new)"
    from repeat_report_Inr(2,3) [OF this] assms(2) show ?thesis by (simp add: packages_ok_def)
  next
    assume "store_report x k r v d = Inr (d', s, new)"
    note st = store_report_Inr [OF this]
    have "evidence_ok (verifications d') (judged_package k s)"
      using k(2) by (cases "rep_outcome r") (simp_all add: evidence_ok_def judged_package_def st(3,4) new_verification_def)
    then show ?thesis by (rule packages_ok_update [OF assms(2) st(2)]) (auto simp: st(3))
  qed
next
  case (Package_activate x project target i run actor k)
  then show ?thesis
  proof (cases rule: activate_Inr)
    case (activated q r)
    have "evidence_ok (verifications d') k"
      using assms(2) activated(1) by (auto simp: packages_ok_def evidence_ok_def activated(7,10))
    then show ?thesis by (rule packages_ok_update [OF assms(2) activated(9)]) (simp add: activated(10))
  qed (use assms(2) in simp)
next
  case Package_deprecate
  then show ?thesis
    by (cases rule: deprecate_Inr) (use assms(2) change_package_status_evidence in blast)+
next
  case Package_revoke
  then show ?thesis
    by (cases rule: revoke_Inr) (use assms(2) change_package_status_evidence in blast)+
qed

subsection \<open>The same installation with a draft package\<close>

definition demo_draft :: package_row where
  "demo_draft = new_package 51 10 20 \<lparr>ac_name = ''pkg'', ac_version = ''2'', ac_digest = ''kd2'',
     ac_runner_type = WEB_PLAYWRIGHT, ac_image_repository = ''img'', ac_supersedes = Some 50\<rparr> Package_DRAFT"

definition demo_draft_db :: db where
  "demo_draft_db = demo_db\<lparr>packages := packages demo_db @ [demo_draft]\<rparr>"

definition demo_report :: "verification_outcome \<Rightarrow> chain_report" where
  "demo_report outcome = \<lparr>rep_outcome = outcome, rep_policy_version = ''p1'', rep_verifier = ''cosign'',
     rep_image_digest = ''kd2'', rep_signature_bundle = ''s'', rep_provenance = ''v'', rep_sbom = ''o'',
     rep_signature_verified = True, rep_log_verified = True, rep_provenance_verified = True,
     rep_sbom_verified = True, rep_certificate_issuer = ''iss'', rep_certificate_identity = ''id'',
     rep_builder_id = ''bld'', rep_source_repository = ''src'', rep_source_revision = ''r1'',
     rep_reason = Some ''checked''\<rparr>"

definition demo_policy :: chain_policy where
  "demo_policy = \<lparr>cp_policy_version = ''p1'', cp_verifiers = [''cosign''], cp_issuers = [''iss''],
     cp_identities = [''id''], cp_builders = [''bld''], cp_repositories = [''src'']\<rparr>"

definition demo_principal :: "string \<Rightarrow> verifier_principal" where
  "demo_principal nonce = \<lparr>vp_actor = 9, vp_verifier = ''cosign'', vp_credential = ''cred'',
     vp_algorithm = HMAC_SHA256, vp_workload = None, vp_fingerprint = None, vp_nonce = nonce,
     vp_issued_at = microseconds 1000, vp_request_digest = ''q'', vp_signature_digest = ''s''\<rparr>"

lemma demo_draft_ok: "packages_ok demo_draft_db"
  by (simp add: packages_ok_def evidence_ok_def demo_draft_db_def demo_db_def demo_draft_def new_package_def)

abbreviation demo_reports :: "service_error + db \<times> verification_row \<times> bool" where
  "demo_reports \<equiv> record_automation_package_supply_chain_verification (demo_txn 1000 300) demo_policy 10 20 51
     (demo_report Outcome_VERIFIED) (demo_principal ''n1'') demo_draft_db"

lemma demo_report_stored:
  "case demo_reports of Inl _ \<Rightarrow> False | Inr (d', s, new) \<Rightarrow> new
     \<and> map k_chain_status (packages d') = [Chain_LEGACY, Chain_VERIFIED]"
  by code_simp

theorem package_evidence_preserved_witness:
  "\<exists>d' s. demo_reports = Inr (d', s, True) \<and> map k_chain_status (packages d') = [Chain_LEGACY, Chain_VERIFIED]
     \<and> packages_ok d'"
proof -
  obtain d' s where call: "demo_reports = Inr (d', s, True)"
    and "map k_chain_status (packages d') = [Chain_LEGACY, Chain_VERIFIED]"
    using demo_report_stored by (auto split: sum.splits)
  with package_evidence_preserved [OF Package_report [OF call] demo_draft_ok] show ?thesis by auto
qed

end
