(* ===== verification/Package_Lifecycle.thy ===== *)
theory Package_Lifecycle
  imports Automation_Packages
begin

section \<open>The life of an automation package\<close>

text \<open>
  What the services of \<open>Automation_Packages\<close> guarantee about one package over its life: the
  order of its statuses, what an activation rests on, the reference a verified package hands to
  its runs, and the single use of a verifier's envelope.
\<close>

subsection \<open>Statuses\<close>

definition package_moves :: "package_status \<Rightarrow> package_status \<Rightarrow> bool" where
  "package_moves s s' \<longleftrightarrow> s' = s \<or> s' = Package_REVOKED
     \<or> (s = Package_DRAFT \<and> s' = Package_ACTIVE) \<or> (s = Package_ACTIVE \<and> s' = Package_DEPRECATED)"

definition same_package :: "package_row \<Rightarrow> package_row \<Rightarrow> bool" where
  "same_package k k' \<longleftrightarrow> k_id k' = k_id k \<and> k_project k' = k_project k \<and> k_target k' = k_target k
     \<and> k_name k' = k_name k \<and> k_version k' = k_version k \<and> k_digest k' = k_digest k
     \<and> k_runner_type k' = k_runner_type k \<and> k_image_repository k' = k_image_repository k
     \<and> k_supersedes k' = k_supersedes k"

lemma same_package_refl [simp]: "same_package k k"
  by (simp add: same_package_def)

lemma package_moves_refl [simp]: "package_moves s s"
  by (simp add: package_moves_def)

lemma package_step:
  assumes "packages d' = update_row k_id (k_id q) (\<lambda>_. q') (packages d)" "unique_ok d" "q \<in> set (packages d)"
    and "same_package q q'" "package_moves (k_status q) (k_status q')" "k \<in> set (packages d)"
  shows "\<exists>k'\<in>set (packages d'). same_package k k' \<and> package_moves (k_status k) (k_status k')"
proof -
  have ids: "distinct (map k_id (packages d))"
    using assms(2) by (simp add: unique_ok_def unique_packages_def unique_on_def)
  have found: "lookup_row k_id (k_id q) (packages d) = Some q"
    using lookup_row_unique [OF ids assms(3)] .
  from update_row_covers [OF found ids assms(6), of q'] show ?thesis
    unfolding assms(1) using assms(4,5) same_package_refl package_moves_refl by metis
qed

lemma change_package_status_step:
  assumes "change_package_status x q status reason action actor d = Inr (d', q')" "unique_ok d" "q \<in> set (packages d)"
    and "package_moves (k_status q) status" "k \<in> set (packages d)"
  shows "\<exists>k'\<in>set (packages d'). same_package k k' \<and> package_moves (k_status k) (k_status k')"
proof -
  note c = change_package_status_Inr [OF assms(1)]
  have "same_package q q'" "k_status q' = status" by (simp_all add: c(2) same_package_def)
  with assms(4) show ?thesis by (intro package_step [OF c(3) assms(2,3) _ _ assms(5)]) simp_all
qed

text \<open>
  Packages are immutable and their statuses only move forward.  No service removes a package or changes its
  identity (name, version, image repository and digest, runner, target); a status moves from
  DRAFT to ACTIVE to DEPRECATED, or to REVOKED, and REVOKED is final.
\<close>

theorem package_lifecycle:
  assumes "package_call d d'" and "unique_ok d" and "k \<in> set (packages d)"
  shows "\<exists>k'\<in>set (packages d'). same_package k k' \<and> package_moves (k_status k) (k_status k')"
  using assms(1)
proof (cases rule: package_call.cases)
  case Package_create
  then show ?thesis by (rule create_automation_package_Inr) (use assms(3) in force)
next
  case (Package_report x policy project target i r v s new)
  then obtain q where q: "q \<in> set (packages d)"
    "repeat_report x q s v d = Inr (d', s, new) \<or> store_report x q r v d = Inr (d', s, new)"
    by (rule record_report_Inr)
  from q(2) show ?thesis
  proof
    assume "repeat_report x q s v d = Inr (d', s, new)"
    from repeat_report_Inr(2) [OF this] assms(3) show ?thesis by force
  next
    assume "store_report x q r v d = Inr (d', s, new)"
    from store_report_Inr(2) [OF this] show ?thesis
      by (rule package_step [OF _ assms(2) q(1) _ _ assms(3)]) (simp_all add: same_package_def judged_package_def)
  qed
next
  case (Package_activate x project target i run actor k')
  then show ?thesis
  proof (cases rule: activate_Inr)
    case (activated q r)
    from activated(9) [folded activated(2)] show ?thesis
      by (rule package_step [OF _ assms(2) activated(1) _ _ assms(3)])
        (simp_all add: same_package_def activated(3,7) package_moves_def)
  qed (use assms(3) in force)
next
  case Package_deprecate
  then show ?thesis
  proof (cases rule: deprecate_Inr)
    case (changed q)
    from changed(3) show ?thesis
      by (rule change_package_status_step [OF _ assms(2) changed(1) _ assms(3)]) (simp add: package_moves_def changed(2))
  qed (use assms(3) in force)
next
  case Package_revoke
  then show ?thesis
  proof (cases rule: revoke_Inr)
    case (changed q)
    from changed(3) show ?thesis
      by (rule change_package_status_step [OF _ assms(2) changed(1) _ assms(3)]) (simp add: package_moves_def)
  qed (use assms(3) in force)
qed

theorem package_lifecycle_witness:
  "\<exists>d' k. deprecate_automation_package (demo_txn 1000 300) 10 20 50 ''old'' 2 demo_db = Inr (d', k)
     \<and> k_status k = Package_DEPRECATED
     \<and> (\<exists>k'\<in>set (packages d'). same_package (hd (packages demo_db)) k')"
proof -
  have "case deprecate_automation_package (demo_txn 1000 300) 10 20 50 ''old'' 2 demo_db of
      Inl _ \<Rightarrow> False | Inr (d', k) \<Rightarrow> k_status k = Package_DEPRECATED"
    by code_simp
  then obtain d' k where call: "deprecate_automation_package (demo_txn 1000 300) 10 20 50 ''old'' 2 demo_db = Inr (d', k)"
    and "k_status k = Package_DEPRECATED"
    by (auto split: sum.splits)
  moreover have "hd (packages demo_db) \<in> set (packages demo_db)" by (simp add: demo_db_def)
  ultimately show ?thesis
    using package_lifecycle [OF Package_deprecate [OF call] control_okD(1) [OF demo_ok]] by auto
qed

subsection \<open>Activation\<close>

text \<open>
  C18: a package is activated only on evidence.  When an activation changes the package, it was a
  DRAFT with a VERIFIED supply chain, and the named run of that very package in the same project
  and target finished PASSED with a recorded result, on a RELEASED baseline, with as many cases
  as the baseline has enabled ones.
\<close>

theorem activation_needs_passed_regression:
  assumes "activate_automation_package x project target i run actor d = Inr (d', k')" and "d' \<noteq> d"
  shows "k_status k' = Package_ACTIVE \<and> k_validated_run k' = Some run
    \<and> (\<exists>k\<in>set (packages d). k_id k = i \<and> k_status k = Package_DRAFT \<and> k_chain_status k = Chain_VERIFIED)
    \<and> (\<exists>r b doc. lookup_row r_id run (runs d) = Some r \<and> r_project r = project \<and> r_target r = target
        \<and> r_package r = i \<and> r_status r = PASSED \<and> r_result_digest r \<noteq> None
        \<and> lookup_row b_id (r_baseline r) (baselines d) = Some b \<and> b_status b = Baseline_RELEASED
        \<and> parse_baseline (b_document b) = Inr doc \<and> r_case_count r = count_rows case_enabled (baseline_cases doc))"
  using assms(1)
proof (cases rule: activate_Inr)
  case (activated k r)
  have "lookup_row r_id run (runs d) = Some r \<and> r_project r = project \<and> r_target r = target
      \<and> r_package r = i \<and> r_status r = PASSED \<and> r_result_digest r \<noteq> None"
    using activated(2,5) by (auto simp: validation_run_for_def split: option.split_asm if_split_asm)
  moreover have "\<exists>b doc. lookup_row b_id (r_baseline r) (baselines d) = Some b \<and> b_status b = Baseline_RELEASED
      \<and> parse_baseline (b_document b) = Inr doc \<and> r_case_count r = count_rows case_enabled (baseline_cases doc)"
    using activated(6) by (auto simp: full_regression_of_def outcome_simps split: option.split_asm if_split_asm)
  ultimately show ?thesis using activated(1-4,7) by auto
qed (use assms(2) in simp)

definition demo_passed_db :: db where
  "demo_passed_db = demo_draft_db\<lparr>
     packages := [demo_draft\<lparr>k_chain_status := Chain_VERIFIED\<rparr>],
     runs := [(demo_run PASSED)\<lparr>r_package := 51, r_result_digest := Some ''tp''\<rparr>]\<rparr>"

theorem activation_needs_passed_regression_witness:
  "\<exists>d' k. activate_automation_package (demo_txn 1000 300) 10 20 51 200 2 demo_passed_db = Inr (d', k)
     \<and> k_status k = Package_ACTIVE"
proof -
  have "case activate_automation_package (demo_txn 1000 300) 10 20 51 200 2 demo_passed_db of
      Inl _ \<Rightarrow> False | Inr (d', k) \<Rightarrow> length (audit_log d') = 1"
    by code_simp
  then obtain d' k where call: "activate_automation_package (demo_txn 1000 300) 10 20 51 200 2 demo_passed_db = Inr (d', k)"
    and "length (audit_log d') = 1"
    by (auto split: sum.splits)
  moreover have "audit_log demo_passed_db = []"
    by (simp add: demo_passed_db_def demo_draft_db_def demo_db_def empty_db_def)
  ultimately have "d' \<noteq> demo_passed_db" by auto
  from activation_needs_passed_regression [OF call this] call show ?thesis by auto
qed

subsection \<open>References for runs\<close>

text \<open>
  A verified package can always be run.  With consistent evidence, the supply-chain reference
  that goes into a run's snapshot exists for every verified package, carries the stored report's
  digest and is never refused as inconsistent.
\<close>

theorem verified_package_has_reference:
  assumes "unique_ok d" and "packages_ok d" and "k \<in> set (packages d)" and "k_chain_status k = Chain_VERIFIED"
  shows "\<exists>ref v. automation_package_supply_chain_ref k d = Inr (Some ref) \<and> v \<in> set (verifications d)
    \<and> k_verification k = Some (sv_id v) \<and> sc_report_digest ref = sv_report_digest v"
proof -
  obtain v where v: "v \<in> set (verifications d)" "k_verification k = Some (sv_id v)" "sv_package v = k_id k"
    "rep_outcome (sv_report v) = Outcome_VERIFIED" "rep_image_digest (sv_report v) = k_digest k"
    using assms(2-4) by (auto simp: packages_ok_def evidence_ok_def)
  have "lookup_row sv_id (sv_id v) (verifications d) = Some v"
    using assms(1) v(1) by (intro lookup_row_unique) (simp_all add: unique_ok_def unique_packages_def unique_on_def)
  with v assms(4) show ?thesis by (auto simp: automation_package_supply_chain_ref_def Let_def)
qed

definition demo_verification :: verification_row where
  "demo_verification = new_verification (demo_txn 1000 300) demo_draft (demo_report Outcome_VERIFIED)"

definition demo_verified_db :: db where
  "demo_verified_db = demo_draft_db\<lparr>packages := [judged_package demo_draft demo_verification],
     verifications := [demo_verification]\<rparr>"

subsection \<open>Envelopes\<close>

lemma lookup_row_append_key: "key x = k \<Longrightarrow> lookup_row key k (xs @ [x]) \<noteq> None"
  by (simp add: lookup_row_append lookup_row_Cons split: option.split)

text \<open>
  An envelope is used once.  After a report was accepted, new or repeated, every further call
  with the same credential and nonce is refused, whatever package, report or policy it carries.
\<close>

theorem envelope_used_once:
  assumes "record_automation_package_supply_chain_verification x policy project target i r v d = Inr (d', s, new)"
    and "vp_credential v' = vp_credential v" and "vp_nonce v' = vp_nonce v"
  shows "\<exists>e. record_automation_package_supply_chain_verification x' policy' project' target' i' r' v' d' = Inl e"
proof -
  from assms(1) obtain k where "repeat_report x k s v d = Inr (d', s, new) \<or> store_report x k r v d = Inr (d', s, new)"
    by (rule record_report_Inr)
  then have "envelopes d' = envelopes d @ [envelope_for x k (sv_id s) v]"
    by (auto dest: repeat_report_Inr(6) store_report_Inr(6))
  then have used: "lookup_row (\<lambda>e. (env_credential e, env_nonce e)) (vp_credential v', vp_nonce v') (envelopes d') \<noteq> None"
    using assms(2,3) by (simp add: lookup_row_append_key envelope_for_def del: lookup_row_append)
  show ?thesis
  proof (cases "record_automation_package_supply_chain_verification x' policy' project' target' i' r' v' d'")
    case (Inr a)
    obtain d'' s' new' where "a = (d'', s', new')" by (cases a)
    with Inr have "record_automation_package_supply_chain_verification x' policy' project' target' i' r' v' d'
        = Inr (d'', s', new')" by simp
    then show ?thesis by (rule record_report_Inr) (use used in simp)
  qed simp
qed

theorem envelope_used_once_witness:
  "\<exists>d' s e. demo_reports = Inr (d', s, True)
     \<and> record_automation_package_supply_chain_verification (demo_txn 2000 400) demo_policy 10 20 51
         (demo_report Outcome_REJECTED) (demo_principal ''n1'') d' = Inl e"
proof -
  obtain d' s where call: "demo_reports = Inr (d', s, True)"
    using demo_report_stored by (auto split: sum.splits)
  from envelope_used_once [OF call refl refl] call show ?thesis by auto
qed

end
