(* ===== verification/Run_Lifecycle.thy ===== *)
theory Run_Lifecycle
  imports Run_Invariant
begin

section \<open>The life of a run, abstractly\<close>

text \<open>
  What the whole system promises about runs, without tables, leases, events and records: a map
  from run identifiers to lives, where a life is the status, the recorded result and the
  cancellation flag.  Runs are born queued, move along the transition table, record one result
  that agrees with their status, and are never forgotten.  \<open>runs_evolve\<close>, which every service
  keeps, refines it.
\<close>

record run_life =
  life_status :: run_status
  life_result :: "run_result option"
  life_cancel :: bool

type_synonym lives = "uuid \<Rightarrow> run_life option"

inductive life_step :: "lives \<Rightarrow> lives \<Rightarrow> bool" where
  Born: "m i = None \<Longrightarrow>
    life_step m (m(i \<mapsto> \<lparr>life_status = QUEUED, life_result = None, life_cancel = False\<rparr>))"
| Moves: "m i = Some l \<Longrightarrow> t \<in> set (allowed_run_transitions (life_status l)) \<Longrightarrow>
    life_step m (m(i \<mapsto> l\<lparr>life_status := t\<rparr>))"
| Records: "m i = Some l \<Longrightarrow> life_result l = None \<Longrightarrow> terminal_status (life_status l) \<Longrightarrow>
    res_status doc = life_status l \<Longrightarrow> life_step m (m(i \<mapsto> l\<lparr>life_result := Some doc\<rparr>))"
| Cancels: "m i = Some l \<Longrightarrow> life_step m (m(i \<mapsto> l\<lparr>life_cancel := True\<rparr>))"

definition life_of :: "run_row \<Rightarrow> run_life" where
  "life_of r = \<lparr>life_status = r_status r, life_result = r_result r, life_cancel = r_cancel_requested r\<rparr>"

definition lives_of :: "run_row list \<Rightarrow> lives" where
  "lives_of rows i = map_option life_of (lookup_row r_id i rows)"

subsection \<open>Steps of the abstract machine\<close>

lemma life_step_grows: "life_step m m' \<Longrightarrow> m i \<noteq> None \<Longrightarrow> m' i \<noteq> None"
  by (cases rule: life_step.cases) auto

lemma life_steps_grow: "life_step\<^sup>*\<^sup>* m m' \<Longrightarrow> m i \<noteq> None \<Longrightarrow> m' i \<noteq> None"
  by (induction rule: rtranclp_induct) (auto dest: life_step_grows)

text \<open>Steps on other runs do not depend on a run that exists beside them.\<close>

lemma life_step_beside:
  assumes "life_step m m'" "m' i = None"
  shows "life_step (m(i \<mapsto> l)) (m'(i \<mapsto> l))"
  using assms(1)
proof (cases rule: life_step.cases)
  case (Born j)
  with assms(2) have "j \<noteq> i" by auto
  with life_step.Born [of "m(i \<mapsto> l)" j] Born show ?thesis by (simp add: fun_upd_twist)
next
  case (Moves j k t)
  with assms(2) have "j \<noteq> i" by auto
  with life_step.Moves [of "m(i \<mapsto> l)" j k t] Moves show ?thesis by (simp add: fun_upd_twist)
next
  case (Records j k doc)
  with assms(2) have "j \<noteq> i" by auto
  with life_step.Records [of "m(i \<mapsto> l)" j k doc] Records show ?thesis by (simp add: fun_upd_twist)
next
  case (Cancels j k)
  with assms(2) have "j \<noteq> i" by auto
  with life_step.Cancels [of "m(i \<mapsto> l)" j k] Cancels show ?thesis by (simp add: fun_upd_twist)
qed

lemma life_steps_beside:
  assumes "life_step\<^sup>*\<^sup>* m m'" "m' i = None"
  shows "life_step\<^sup>*\<^sup>* (m(i \<mapsto> l)) (m'(i \<mapsto> l))"
  using assms
proof (induction rule: rtranclp_induct)
  case (step y z)
  from life_step_grows [OF step.hyps(2)] step.prems have "y i = None" by blast
  with step.IH life_step_beside [OF step.hyps(2) step.prems] show ?case
    by (meson rtranclp.rtrancl_into_rtrancl)
qed simp

lemma life_moves:
  assumes "m i = Some l" "run_moves (life_status l) t"
  shows "life_step\<^sup>*\<^sup>* m (m(i \<mapsto> l\<lparr>life_status := t\<rparr>))"
  using assms(2) unfolding run_moves_def
proof (induction rule: rtranclp_induct)
  case base
  from assms(1) have "m(i \<mapsto> l\<lparr>life_status := life_status l\<rparr>) = m" by (intro ext) simp
  then show ?case by simp
next
  case (step t u)
  have "life_step (m(i \<mapsto> l\<lparr>life_status := t\<rparr>)) ((m(i \<mapsto> l\<lparr>life_status := t\<rparr>))(i \<mapsto> l\<lparr>life_status := t\<rparr>\<lparr>life_status := u\<rparr>))"
    using step.hyps(2) by (intro life_step.Moves) (simp_all add: run_transition_def)
  then have "life_step (m(i \<mapsto> l\<lparr>life_status := t\<rparr>)) (m(i \<mapsto> l\<lparr>life_status := u\<rparr>))" by simp
  with step.IH show ?case using rtranclp.rtrancl_into_rtrancl [of life_step] by blast
qed

lemma life_records:
  assumes "m i = Some l" "life_result l = None" "doc = None \<or> (\<exists>d. doc = Some d \<and> res_status d = life_status l \<and> terminal_status (life_status l))"
  shows "life_step\<^sup>*\<^sup>* m (m(i \<mapsto> l\<lparr>life_result := doc\<rparr>))"
proof (cases doc)
  case None
  with assms(1,2) have "m(i \<mapsto> l\<lparr>life_result := doc\<rparr>) = m" by (intro ext) simp
  then show ?thesis by simp
next
  case (Some d)
  with assms show ?thesis by (auto intro!: r_into_rtranclp life_step.Records)
qed

lemma life_cancels:
  assumes "m i = Some l" "life_cancel l \<Longrightarrow> flag"
  shows "life_step\<^sup>*\<^sup>* m (m(i \<mapsto> l\<lparr>life_cancel := flag\<rparr>))"
proof (cases "flag = life_cancel l")
  case True
  with assms(1) have "m(i \<mapsto> l\<lparr>life_cancel := flag\<rparr>) = m" by (intro ext) simp
  then show ?thesis by simp
next
  case False
  with assms have "flag" by auto
  with assms(1) show ?thesis by (auto intro: life_step.Cancels)
qed

text \<open>A life that changes as the services let it: flag, status, then the result.\<close>

lemma life_changes:
  assumes "m i = Some l" "run_moves (life_status l) t" "life_cancel l \<Longrightarrow> flag"
    "life_result l = None \<or> doc = life_result l"
    "\<And>d. doc = Some d \<Longrightarrow> res_status d = t \<and> terminal_status t"
  shows "life_step\<^sup>*\<^sup>* m (m(i \<mapsto> \<lparr>life_status = t, life_result = doc, life_cancel = flag\<rparr>))"
proof -
  let ?l1 = "l\<lparr>life_cancel := flag\<rparr>"
  let ?l2 = "?l1\<lparr>life_status := t\<rparr>"
  have "life_step\<^sup>*\<^sup>* m (m(i \<mapsto> ?l1))" using assms(1,3) by (rule life_cancels)
  also have "life_step\<^sup>*\<^sup>* (m(i \<mapsto> ?l1)) ((m(i \<mapsto> ?l1))(i \<mapsto> ?l2))"
    by (rule life_moves) (use assms(2) in simp_all)
  finally have two: "life_step\<^sup>*\<^sup>* m (m(i \<mapsto> ?l2))" by simp
  have "life_step\<^sup>*\<^sup>* (m(i \<mapsto> ?l2)) ((m(i \<mapsto> ?l2))(i \<mapsto> ?l2\<lparr>life_result := doc\<rparr>))"
  proof (cases "life_result l = None")
    case True
    with assms(5) show ?thesis by (intro life_records) (cases doc; simp)+
  next
    case False
    with assms(4) show ?thesis by simp
  qed
  with two have "life_step\<^sup>*\<^sup>* m ((m(i \<mapsto> ?l2))(i \<mapsto> ?l2\<lparr>life_result := doc\<rparr>))" by (rule rtranclp_trans)
  moreover have "?l2\<lparr>life_result := doc\<rparr> = \<lparr>life_status = t, life_result = doc, life_cancel = flag\<rparr>"
    by (cases l) simp
  ultimately show ?thesis by (simp only: fun_upd_upd)
qed

subsection \<open>The tables refine it\<close>

lemma lives_of_Nil: "lives_of [] = (\<lambda>_. None)"
  by (simp add: lives_of_def fun_eq_iff)

lemma lives_of_Cons: "lives_of (r # rows) = (lives_of rows)(r_id r \<mapsto> life_of r)"
  by (simp add: lives_of_def fun_eq_iff lookup_row_Cons)

lemma lives_of_snoc: "r_id r \<notin> r_id ` set rows \<Longrightarrow> lives_of (rows @ [r]) = (lives_of rows)(r_id r \<mapsto> life_of r)"
  by (induction rows) (auto simp: lives_of_Nil lives_of_Cons)

lemma lives_of_fresh: "i \<notin> r_id ` set rows \<longleftrightarrow> lives_of rows i = None"
  by (simp add: lives_of_def lookup_row_None_iff)

lemma changed_life:
  assumes "run_changes r r'" "run_row_ok r" "run_row_ok r'" "m (r_id r) = Some (life_of r)"
  shows "life_step\<^sup>*\<^sup>* m (m(r_id r \<mapsto> life_of r'))"
proof -
  have "life_step\<^sup>*\<^sup>* m (m(r_id r \<mapsto> \<lparr>life_status = r_status r', life_result = r_result r', life_cancel = r_cancel_requested r'\<rparr>))"
  proof (rule life_changes [where l = "life_of r"])
    show "m (r_id r) = Some (life_of r)" by (rule assms(4))
    show "run_moves (life_status (life_of r)) (r_status r')" "life_cancel (life_of r) \<Longrightarrow> r_cancel_requested r'"
      using assms(1) by (simp_all add: life_of_def run_changes_def)
    show "life_result (life_of r) = None \<or> r_result r' = life_result (life_of r)"
      using assms(1,2) by (cases "r_result r") (simp_all add: life_of_def run_changes_def run_row_ok_def)
    show "res_status doc = r_status r' \<and> terminal_status (r_status r')" if "r_result r' = Some doc" for doc
    proof -
      from assms(3) have "\<forall>doc. r_result r' = Some doc \<longrightarrow>
          r_status r' = res_status doc \<and> terminal_status (r_status r') \<and> res_run_id doc = r_id r'"
        unfolding run_row_ok_def by (elim conjE)
      with that show ?thesis by metis
    qed
  qed
  then show ?thesis by (simp only: life_of_def [of r'])
qed

lemma lives_of_changed:
  assumes "list_all2 run_changes rows rows'" "distinct (map r_id rows)"
    "\<And>r. r \<in> set rows \<Longrightarrow> run_row_ok r" "\<And>r. r \<in> set rows' \<Longrightarrow> run_row_ok r"
  shows "life_step\<^sup>*\<^sup>* (lives_of rows) (lives_of rows') \<and> r_id ` set rows' = r_id ` set rows"
  using assms
proof (induction rule: list_all2_induct)
  case (Cons r rs r' rs')
  have ids: "r_id ` set rs' = r_id ` set rs" and IH: "life_step\<^sup>*\<^sup>* (lives_of rs) (lives_of rs')"
    using Cons by simp_all
  have same: "r_id r' = r_id r" using Cons.hyps(1) by (simp add: run_changes_def)
  have "lives_of rs' (r_id r) = None"
    using Cons.prems(1) ids by (simp flip: lives_of_fresh)
  then have "life_step\<^sup>*\<^sup>* (lives_of (r # rs)) ((lives_of rs')(r_id r \<mapsto> life_of r))"
    unfolding lives_of_Cons by (rule life_steps_beside [OF IH])
  also have "life_step\<^sup>*\<^sup>* \<dots> (((lives_of rs')(r_id r \<mapsto> life_of r))(r_id r \<mapsto> life_of r'))"
    by (rule changed_life [OF Cons.hyps(1)]) (use Cons.prems in simp_all)
  finally have "life_step\<^sup>*\<^sup>* (lives_of (r # rs)) (lives_of (r' # rs'))"
    unfolding lives_of_Cons same by simp
  with same ids show ?case by simp
qed simp

lemma queued_reaches_all: "run_moves QUEUED s"
proof -
  have p: "run_moves QUEUED PREPARING" and r: "run_moves PREPARING RUNNING" by (simp_all add: run_moves_step)
  have "run_moves RUNNING s \<or> s \<in> {QUEUED, PREPARING}"
    by (cases s) (simp_all add: run_moves_step)
  then show ?thesis using run_moves_trans [OF p] run_moves_trans [OF run_moves_trans [OF p r]] p by auto
qed

lemma born_lives:
  assumes "distinct (map r_id (rows @ new))" "\<And>r. r \<in> set new \<Longrightarrow> run_row_ok r"
  shows "life_step\<^sup>*\<^sup>* (lives_of rows) (lives_of (rows @ new))"
  using assms
proof (induction new arbitrary: rows)
  case (Cons r new)
  let ?m = "lives_of rows" and ?b = "\<lparr>life_status = QUEUED, life_result = None, life_cancel = False\<rparr>"
  have fresh: "r_id r \<notin> r_id ` set rows" using Cons.prems(1) by auto
  then have "?m (r_id r) = None" by (simp flip: lives_of_fresh)
  then have "life_step\<^sup>*\<^sup>* ?m (?m(r_id r \<mapsto> ?b))" by (simp add: life_step.Born r_into_rtranclp)
  also have "life_step\<^sup>*\<^sup>* (?m(r_id r \<mapsto> ?b)) ((?m(r_id r \<mapsto> ?b))(r_id r \<mapsto> life_of r))"
    unfolding life_of_def
    by (rule life_changes [where l = ?b])
      (use Cons.prems(2) [of r] queued_reaches_all in \<open>auto simp: run_row_ok_def\<close>)
  also have "(?m(r_id r \<mapsto> ?b))(r_id r \<mapsto> life_of r) = lives_of (rows @ [r])"
    by (simp add: lives_of_snoc [OF fresh])
  also have "life_step\<^sup>*\<^sup>* (lives_of (rows @ [r])) (lives_of ((rows @ [r]) @ new))"
    using Cons.prems by (intro Cons.IH) simp_all
  finally show ?case by simp
qed simp

lemma evolution_refines:
  assumes "runs_evolve (runs d) (runs d')" "control_ok d" "control_ok d'"
  shows "life_step\<^sup>*\<^sup>* (lives_of (runs d)) (lives_of (runs d'))"
proof -
  obtain old new where d': "runs d' = old @ new" and old: "list_all2 run_changes (runs d) old"
    using assms(1) by (auto simp: runs_evolve_def)
  have ids: "distinct (map r_id (runs d))" "distinct (map r_id (old @ new))"
    using control_okD(9) [OF assms(2)] control_okD(9) [OF assms(3)] by (simp_all add: unique_on_def d')
  have "life_step\<^sup>*\<^sup>* (lives_of (runs d)) (lives_of old)"
    using lives_of_changed [OF old ids(1)] control_okD(4) [OF assms(2)] control_okD(4) [OF assms(3)] by (simp add: d')
  also have "life_step\<^sup>*\<^sup>* (lives_of old) (lives_of (runs d'))"
    unfolding d' by (rule born_lives [OF ids(2)]) (use control_okD(4) [OF assms(3)] in \<open>simp add: d'\<close>)
  finally show ?thesis .
qed

text \<open>
  C16: a run ends after at most three changes of status, and can always end.  No sequence of
  allowed transitions is longer than three, and from wherever it stops a final status is
  reachable.
\<close>

theorem run_ends_within_three_steps:
  assumes "((\<lambda>s t. t \<in> set (allowed_run_transitions s)) ^^ n) s t"
  shows "n \<le> 3 \<and> (\<exists>u. run_moves t u \<and> terminal_status u)"
proof -
  have "(\<lambda>s t. t \<in> set (allowed_run_transitions s)) = run_transition"
    by (intro ext) (simp add: run_transition_def)
  with assms have "(run_transition ^^ n) s t" by simp
  then show ?thesis
    using run_machine.at_most_last run_machine.can_finish unfolding run_moves_def by blast
qed

theorem run_ends_within_three_steps_witness:
  "((\<lambda>s t. t \<in> set (allowed_run_transitions s)) ^^ 3) QUEUED PASSED \<and> (3::nat) \<le> 3"
proof -
  have "((\<lambda>s t. t \<in> set (allowed_run_transitions s)) ^^ 3) QUEUED PASSED"
    unfolding numeral_3_eq_3 relpowp.simps(2)
    by (intro relcomppI [of _ _ RUNNING] relcomppI [of _ _ PREPARING] relcomppI [of _ _ QUEUED]) simp_all
  with run_ends_within_three_steps [OF this] show ?thesis by simp
qed

end
