(* ===== verification/Python_Text.thy ===== *)
theory Python_Text
  imports Capabilities
begin

section \<open>Functions of Python on text\<close>

text \<open>
  The functions of the standard library on strings that several components use: \<open>int\<close> of a
  string (white space, sign, underscores), decimal rendering, \<open>split\<close>, \<open>partition\<close> and \<open>join\<close>.
  White space is that of ASCII.
\<close>

text \<open>\<open>s.split(sep, limit)\<close> for one separator character.\<close>

fun split_max :: "nat \<Rightarrow> char \<Rightarrow> string \<Rightarrow> string list" where
  "split_max 0 sep s = [s]"
| "split_max (Suc n) sep s =
     (case dropWhile (\<lambda>c. c \<noteq> sep) s of
        [] \<Rightarrow> [s]
      | _ # rest \<Rightarrow> takeWhile (\<lambda>c. c \<noteq> sep) s # split_max n sep rest)"

definition digit_value :: "char \<Rightarrow> int option" where
  "digit_value c = (let n = of_char c :: int in if 48 \<le> n \<and> n \<le> 57 then Some (n - 48) else None)"

text \<open>The digits of \<open>int(s)\<close>: single underscores are allowed between two digits.\<close>

fun parse_digits :: "int \<Rightarrow> bool \<Rightarrow> string \<Rightarrow> int option" where
  "parse_digits acc after_digit [] = (if after_digit then Some acc else None)"
| "parse_digits acc after_digit (c # cs) =
     (case digit_value c of
        Some v \<Rightarrow> parse_digits (acc * 10 + v) True cs
      | None \<Rightarrow> if c = CHR ''_'' \<and> after_digit then parse_digits acc False cs else None)"

definition parse_int :: "string \<Rightarrow> int option" where
  "parse_int s =
     (case strip s of
        [] \<Rightarrow> None
      | c # cs \<Rightarrow>
          if c = CHR ''-'' then map_option uminus (parse_digits 0 False cs)
          else if c = CHR ''+'' then parse_digits 0 False cs
          else parse_digits 0 False (c # cs))"

definition digit_char :: "nat \<Rightarrow> char" where
  "digit_char n = char_of (48 + n mod 10)"

fun decimal :: "nat \<Rightarrow> string" where
  "decimal n = (if n < 10 then [digit_char n] else decimal (n div 10) @ [digit_char (n mod 10)])"

declare decimal.simps [simp del]

text \<open>The last \<open>k\<close> digits of a number in a base, most significant first; \<open>UUID.hex\<close> and \<open>str(UUID)\<close>.\<close>

fun fixed_digits :: "int \<Rightarrow> nat \<Rightarrow> int \<Rightarrow> string" where
  "fixed_digits base 0 n = []"
| "fixed_digits base (Suc k) n = fixed_digits base k (n div base) @ [''0123456789abcdef'' ! nat (n mod base)]"

definition uuid_hex :: "uuid \<Rightarrow> string" where
  "uuid_hex i = fixed_digits 16 32 (int i)"

definition uuid_text :: "uuid \<Rightarrow> string" where
  "uuid_text i =
     (let h = uuid_hex i
      in take 8 h @ ''-'' @ take 4 (drop 8 h) @ ''-'' @ take 4 (drop 12 h) @ ''-'' @ take 4 (drop 16 h) @ ''-'' @ drop 20 h)"

text \<open>\<open>s.split(sep)\<close>, \<open>s.split()\<close>, \<open>sep.join(words)\<close> and \<open>s.partition(sep)\<close> for one character.\<close>

fun split_on :: "char \<Rightarrow> string \<Rightarrow> string list" where
  "split_on sep [] = [[]]"
| "split_on sep (c # cs) =
     (if c = sep then [] # split_on sep cs
      else case split_on sep cs of [] \<Rightarrow> [[c]] | w # ws \<Rightarrow> (c # w) # ws)"

function words :: "string \<Rightarrow> string list" where
  "words s =
     (case dropWhile is_space s of
        [] \<Rightarrow> []
      | c # cs \<Rightarrow> takeWhile (\<lambda>c. \<not> is_space c) (c # cs) # words (dropWhile (\<lambda>c. \<not> is_space c) (c # cs)))"
  by pat_completeness auto

lemma dropWhile_head:
  assumes "dropWhile P s = c # cs"
  shows "\<not> P c" "length cs < length s"
proof -
  show "\<not> P c" using assms hd_dropWhile [of P s] by simp
  have "length (dropWhile P s) \<le> length s" by (rule length_dropWhile_le)
  with assms show "length cs < length s" by simp
qed

termination words
proof (relation "measure length")
  fix s c cs assume "dropWhile is_space s = c # cs"
  note head = dropWhile_head [OF this]
  have "length (dropWhile (\<lambda>c. \<not> is_space c) cs) \<le> length cs" by (rule length_dropWhile_le)
  with head show "(dropWhile (\<lambda>c. \<not> is_space c) (c # cs), s) \<in> measure length" by simp
qed simp

declare words.simps [simp del]

fun join :: "char \<Rightarrow> string list \<Rightarrow> string" where
  "join sep [] = []"
| "join sep [w] = w"
| "join sep (w # v # ws) = w @ sep # join sep (v # ws)"

definition partition_at :: "char \<Rightarrow> string \<Rightarrow> string \<times> bool \<times> string" where
  "partition_at sep s = (takeWhile (\<lambda>c. c \<noteq> sep) s, sep \<in> set s, tl (dropWhile (\<lambda>c. c \<noteq> sep) s))"

lemma split_max_field:
  assumes "sep \<notin> set a"
  shows "split_max (Suc n) sep (a @ sep # s) = a # split_max n sep s"
proof -
  have "dropWhile (\<lambda>c. c \<noteq> sep) (a @ sep # s) = sep # s" "takeWhile (\<lambda>c. c \<noteq> sep) (a @ sep # s) = a"
    using assms by (auto simp: dropWhile_append takeWhile_append)
  then show ?thesis by simp
qed

lemma words_no_space: "w \<in> set (words s) \<Longrightarrow> w \<noteq> [] \<and> (\<forall>c\<in>set w. \<not> is_space c)"
proof (induction s rule: words.induct)
  case (1 s)
  show ?case
  proof (cases "dropWhile is_space s")
    case Nil
    with 1(2) show ?thesis by (simp add: words.simps)
  next
    case (Cons c cs)
    note head = dropWhile_head [OF Cons]
    from 1(2) Cons consider "w = takeWhile (\<lambda>c. \<not> is_space c) (c # cs)"
      | "w \<in> set (words (dropWhile (\<lambda>c. \<not> is_space c) (c # cs)))"
      by (auto simp: words.simps [of s])
    then show ?thesis
    proof cases
      case 1
      with head show ?thesis by (auto dest: set_takeWhileD)
    next
      case 2
      from "1.IH" [OF Cons this] show ?thesis .
    qed
  qed
qed

lemma words_Nil [simp]: "words [] = []"
  by (simp add: words.simps)

lemma words_space: "is_space c \<Longrightarrow> words (c # s) = words s"
  by (simp add: words.simps [of "c # s"] words.simps [of s])

lemma words_word:
  assumes "w \<noteq> []" "\<forall>c\<in>set w. \<not> is_space c"
  shows "words w = [w]" "is_space sep \<Longrightarrow> words (w @ sep # s) = w # words s"
proof -
  obtain a v where w: "w = a # v" "\<not> is_space a" using assms by (cases w) auto
  have "takeWhile (\<lambda>c. \<not> is_space c) v = v" "dropWhile (\<lambda>c. \<not> is_space c) v = []"
    using assms(2) w by (auto simp: takeWhile_eq_all_conv dropWhile_eq_Nil_conv)
  then have "takeWhile (\<lambda>c. \<not> is_space c) v = v" "words (dropWhile (\<lambda>c. \<not> is_space c) v) = []"
    by (simp_all only: words_Nil)
  with w(2) show "words w = [w]" unfolding w(1) by (simp add: words.simps [of "a # v"])
  assume sep: "is_space sep"
  have "takeWhile (\<lambda>c. \<not> is_space c) (w @ sep # s) = w" "dropWhile (\<lambda>c. \<not> is_space c) (w @ sep # s) = sep # s"
    using assms(2) sep by (auto simp: takeWhile_append dropWhile_append)
  with w sep show "words (w @ sep # s) = w # words s"
    by (simp add: words.simps [of "a # v @ sep # s"] words_space)
qed

lemma words_join:
  assumes "is_space sep" "\<forall>w\<in>set ws. w \<noteq> [] \<and> (\<forall>c\<in>set w. \<not> is_space c)"
  shows "words (join sep ws) = ws"
  using assms(2)
proof (induction ws rule: induct_list012)
  case (3 w v ws)
  then show ?case using words_word(2) [of w sep] assms(1) by simp
qed (simp_all add: words_word)

lemma split_on_join:
  assumes "ws \<noteq> []" "\<forall>w\<in>set ws. sep \<notin> set w"
  shows "split_on sep (join sep ws) = ws"
proof -
  have word: "sep \<notin> set w \<Longrightarrow> split_on sep w = [w]" for w by (induction w) auto
  have "sep \<notin> set w \<Longrightarrow> split_on sep (w @ sep # s) = w # split_on sep s" for w s by (induction w) auto
  with assms word show ?thesis by (induction ws rule: induct_list012) auto
qed

end
