(* ===== verification/Security.thy ===== *)
theory Security
  imports Python_Text "HOL-Library.Word"
begin

unbundle bit_operations_syntax

section \<open>Passwords and tokens\<close>

text \<open>
  \<open>security.py\<close>: hashing and verifying passwords.  The functions of the standard library it
  uses are written out: UTF-8 for the characters of \<open>char\<close>, URL-safe base 64 with CPython's
  lenient decoder (\<open>binascii.a2b_base64\<close>).  The key derivation \<open>hashlib.scrypt\<close> is an
  argument \<open>kdf password salt n r p dklen\<close>; what the code relies on is that it returns
  \<open>dklen\<close> bytes (\<open>kdf_length\<close>), and it is not called with \<open>dklen = 0\<close>, where it raises
  \<open>ValueError\<close>.
\<close>

type_synonym byte = "8 word"

type_synonym kdf = "byte list \<Rightarrow> byte list \<Rightarrow> int \<Rightarrow> int \<Rightarrow> int \<Rightarrow> nat \<Rightarrow> byte list"

subsection \<open>Text\<close>

definition utf8 :: "string \<Rightarrow> byte list" where
  "utf8 s = concat (map (\<lambda>c. let n = of_char c :: nat in
     if n < 128 then [word_of_nat n]
     else [word_of_nat (192 + n div 64), word_of_nat (128 + n mod 64)]) s)"

subsection \<open>URL-safe base 64\<close>

definition alphabet :: string where
  "alphabet = ''ABCDEFGHIJKLMNOPQRSTUVWXYZabcdefghijklmnopqrstuvwxyz0123456789-_''"

definition sextet_char :: "byte \<Rightarrow> char" where
  "sextet_char v = alphabet ! unat v"

text \<open>The four digits of three bytes.\<close>

definition sextet1 :: "byte \<Rightarrow> byte" where "sextet1 a = drop_bit 2 a"
definition sextet2 :: "byte \<Rightarrow> byte \<Rightarrow> byte" where "sextet2 a b = push_bit 4 (a AND mask 2) OR drop_bit 4 b"
definition sextet3 :: "byte \<Rightarrow> byte \<Rightarrow> byte" where "sextet3 b c = push_bit 2 (b AND mask 4) OR drop_bit 6 c"
definition sextet4 :: "byte \<Rightarrow> byte" where "sextet4 c = c AND mask 6"

fun urlsafe_b64encode :: "byte list \<Rightarrow> string" where
  "urlsafe_b64encode [] = []"
| "urlsafe_b64encode [a] = map sextet_char [sextet1 a, sextet2 a 0] @ ''==''"
| "urlsafe_b64encode [a, b] = map sextet_char [sextet1 a, sextet2 a b, sextet3 b 0] @ ''=''"
| "urlsafe_b64encode (a # b # c # rest) =
     map sextet_char [sextet1 a, sextet2 a b, sextet3 b c, sextet4 c] @ urlsafe_b64encode rest"

definition encode :: "byte list \<Rightarrow> string" where
  "encode bs = rev (dropWhile (\<lambda>c. c = CHR ''='') (rev (urlsafe_b64encode bs)))"

text \<open>
  The decoder's table after \<open>urlsafe_b64decode\<close> has translated \<open>-_\<close> to \<open>+/\<close>: both spellings
  of the last two digits are read.
\<close>

definition char_sextet :: "char \<Rightarrow> byte option" where
  "char_sextet c =
     (let n = of_char c :: nat in
      if 65 \<le> n \<and> n \<le> 90 then Some (word_of_nat (n - 65))
      else if 97 \<le> n \<and> n \<le> 122 then Some (word_of_nat (n - 71))
      else if 48 \<le> n \<and> n \<le> 57 then Some (word_of_nat (n + 4))
      else if c = CHR ''-'' \<or> c = CHR ''+'' then Some 62
      else if c = CHR ''_'' \<or> c = CHR ''/'' then Some 63
      else None)"

text \<open>
  \<open>binascii.a2b_base64\<close> in its default mode: \<open>quad\<close> digits of the current group have been read,
  \<open>left\<close> holds the bits not yet written.  Other characters are skipped, a complete padding
  ends the input, and an incomplete group at the end is \<open>binascii.Error\<close>.
\<close>

fun a2b_base64 :: "nat \<Rightarrow> byte \<Rightarrow> nat \<Rightarrow> string \<Rightarrow> byte list option" where
  "a2b_base64 quad left pads [] = (if quad = 0 then Some [] else None)"
| "a2b_base64 quad left pads (c # cs) =
     (if c = CHR ''='' then
        (if quad \<ge> 2 \<and> quad + Suc pads \<ge> 4 then Some []
         else a2b_base64 quad left (if quad \<ge> 2 then Suc pads else pads) cs)
      else case char_sextet c of
        None \<Rightarrow> a2b_base64 quad left pads cs
      | Some v \<Rightarrow>
          if quad = 0 then a2b_base64 1 v 0 cs
          else if quad = 1 then
            map_option (Cons (push_bit 2 left OR drop_bit 4 v)) (a2b_base64 2 (v AND mask 4) 0 cs)
          else if quad = 2 then
            map_option (Cons (push_bit 4 left OR drop_bit 2 v)) (a2b_base64 3 (v AND mask 2) 0 cs)
          else map_option (Cons (push_bit 6 left OR v)) (a2b_base64 0 0 0 cs))"

definition is_ascii :: "string \<Rightarrow> bool" where
  "is_ascii s \<longleftrightarrow> list_all (\<lambda>c. (of_char c :: nat) < 128) s"

text \<open>\<open>"=" * (-len(value) % 4)\<close>, then the decoder; text that is not ASCII is \<open>ValueError\<close>.\<close>

definition decode :: "string \<Rightarrow> byte list option" where
  "decode s =
     (if is_ascii s
      then a2b_base64 0 0 0 (s @ replicate (nat (- int (length s) mod 4)) (CHR ''=''))
      else None)"

subsection \<open>Passwords\<close>

definition SCRYPT_N :: int where "SCRYPT_N = 2 ^ 14"
definition SCRYPT_R :: int where "SCRYPT_R = 8"
definition SCRYPT_P :: int where "SCRYPT_P = 1"
definition SCRYPT_DKLEN :: nat where "SCRYPT_DKLEN = 32"

definition encoded_hash :: "byte list \<Rightarrow> byte list \<Rightarrow> string" where
  "encoded_hash salt derived =
     ''scrypt$'' @ decimal (nat SCRYPT_N) @ ''$'' @ decimal (nat SCRYPT_R) @ ''$'' @ decimal (nat SCRYPT_P)
       @ ''$'' @ encode salt @ ''$'' @ encode derived"

text \<open>The 16 random bytes of the salt are an argument.\<close>

definition hash_password :: "kdf \<Rightarrow> byte list \<Rightarrow> string \<Rightarrow> string" where
  "hash_password kdf salt password =
     encoded_hash salt (kdf (utf8 password) salt SCRYPT_N SCRYPT_R SCRYPT_P SCRYPT_DKLEN)"

definition DUMMY_PASSWORD_HASH :: "kdf \<Rightarrow> string" where
  "DUMMY_PASSWORD_HASH kdf = hash_password kdf (utf8 ''testops-dummy-salt'') ''not-a-real-password''"

definition verify_password :: "kdf \<Rightarrow> string \<Rightarrow> string \<Rightarrow> bool" where
  "verify_password kdf password encoded =
     (case split_max 5 (CHR ''$'') encoded of
        [scheme, raw_n, raw_r, raw_p, raw_salt, raw_expected] \<Rightarrow>
          scheme = ''scrypt''
          \<and> parse_int raw_n = Some SCRYPT_N \<and> parse_int raw_r = Some SCRYPT_R
          \<and> parse_int raw_p = Some SCRYPT_P
          \<and> (case (decode raw_expected, decode raw_salt) of
               (Some expected, Some salt) \<Rightarrow>
                 expected \<noteq> []
                 \<and> kdf (utf8 password) salt SCRYPT_N SCRYPT_R SCRYPT_P (length expected) = expected
             | _ \<Rightarrow> False)
      | _ \<Rightarrow> False)"

text \<open>A session token is 32 random bytes, an argument.\<close>

definition issue_session_token :: "byte list \<Rightarrow> string" where
  "issue_session_token random = encode random"

subsection \<open>Decoding inverts encoding\<close>

lemma alphabet_table:
  "map char_sextet alphabet = map (\<lambda>n. Some (word_of_nat n)) [0..<64]"
  "list_all (\<lambda>c. c \<noteq> CHR ''='' \<and> c \<noteq> CHR ''$'' \<and> (of_char c :: nat) < 128) alphabet"
  by (simp_all add: alphabet_def char_sextet_def upt_rec)

lemma length_alphabet: "length alphabet = 64"
  by (simp add: alphabet_def)

lemma sextet_char:
  assumes "unat v < 64"
  shows "char_sextet (sextet_char v) = Some v" "sextet_char v \<noteq> CHR ''=''" "sextet_char v \<noteq> CHR ''$''"
    "(of_char (sextet_char v) :: nat) < 128"
proof -
  have "map char_sextet alphabet ! unat v = map (\<lambda>n. Some (word_of_nat n)) [0..<64] ! unat v"
    by (simp only: alphabet_table)
  with assms show "char_sextet (sextet_char v) = Some v" by (simp add: sextet_char_def length_alphabet)
  have "sextet_char v \<in> set alphabet" using assms by (simp add: sextet_char_def length_alphabet)
  with alphabet_table(2) show "sextet_char v \<noteq> CHR ''=''" "sextet_char v \<noteq> CHR ''$''"
    "(of_char (sextet_char v) :: nat) < 128"
    unfolding list_all_iff by blast+
qed

lemma byte_eqI:
  fixes v w :: byte
  assumes "bit v 0 = bit w 0" "bit v 1 = bit w 1" "bit v 2 = bit w 2" "bit v 3 = bit w 3"
    "bit v 4 = bit w 4" "bit v 5 = bit w 5" "bit v 6 = bit w 6" "bit v 7 = bit w 7"
  shows "v = w"
proof (rule bit_word_eqI)
  fix n assume "n < LENGTH(8)"
  then have "n = 0 \<or> n = 1 \<or> n = 2 \<or> n = 3 \<or> n = 4 \<or> n = 5 \<or> n = 6 \<or> n = 7" by auto
  with assms show "bit v n = bit w n" by blast
qed

lemma bit_outside_byte [simp]: "8 \<le> n \<Longrightarrow> \<not> bit (v :: byte) n"
  by (auto dest: bit_imp_le_length)

lemmas sextet_defs = sextet1_def sextet2_def sextet3_def sextet4_def

lemma sextet_less:
  assumes "take_bit 6 v = (v :: byte)"
  shows "unat v < 64"
proof -
  have "unat v = take_bit 6 (unat v)" using assms by (metis unsigned_take_bit_eq)
  moreover have "take_bit 6 (unat v) < 2 ^ 6" by (rule take_bit_nat_less_exp)
  ultimately show ?thesis by simp
qed

lemma sextets_less [simp]:
  "unat (sextet1 a) < 64" "unat (sextet2 a b) < 64" "unat (sextet3 b c) < 64" "unat (sextet4 c) < 64"
proof -
  have "take_bit 6 (sextet1 a) = sextet1 a" "take_bit 6 (sextet2 a b) = sextet2 a b"
    "take_bit 6 (sextet3 b c) = sextet3 b c" "take_bit 6 (sextet4 c) = sextet4 c"
    unfolding sextet_defs by (rule byte_eqI; simp add: bit_simps)+
  then show "unat (sextet1 a) < 64" "unat (sextet2 a b) < 64" "unat (sextet3 b c) < 64" "unat (sextet4 c) < 64"
    by (simp_all add: sextet_less)
qed

text \<open>The decoder puts the bytes of a group together again.\<close>

lemma group_bytes:
  "push_bit 2 (sextet1 a) OR drop_bit 4 (sextet2 a b) = a"
  "push_bit 4 (sextet2 a b AND mask 4) OR drop_bit 2 (sextet3 b c) = b"
  "push_bit 6 (sextet3 b c AND mask 2) OR sextet4 c = c"
  unfolding sextet_defs by (rule byte_eqI; simp add: bit_simps)+

lemma decode_group:
  "a2b_base64 0 left pads (urlsafe_b64encode bs) = Some bs"
proof (induction bs arbitrary: left pads rule: urlsafe_b64encode.induct)
  case (4 a b c rest)
  then show ?case by (simp add: sextet_char group_bytes del: push_bit_and)
qed (simp_all add: sextet_char group_bytes group_bytes(1) [where b = 0] group_bytes(2) [where c = 0] del: push_bit_and)

lemma rstrip_append:
  "xs \<noteq> [] \<Longrightarrow> \<not> P (last xs) \<Longrightarrow> rev (dropWhile P (rev (xs @ ys))) = xs @ rev (dropWhile P (rev ys))"
  by (cases xs rule: rev_cases) (auto simp: dropWhile_append)

lemma encode_simps [simp]:
  "encode [] = []"
  "encode [a] = map sextet_char [sextet1 a, sextet2 a 0]"
  "encode [a, b] = map sextet_char [sextet1 a, sextet2 a b, sextet3 b 0]"
  "encode (a # b # c # rest) = map sextet_char [sextet1 a, sextet2 a b, sextet3 b c, sextet4 c] @ encode rest"
proof -
  show "encode (a # b # c # rest) = map sextet_char [sextet1 a, sextet2 a b, sextet3 b c, sextet4 c] @ encode rest"
    unfolding encode_def urlsafe_b64encode.simps by (rule rstrip_append) (simp_all add: sextet_char)
qed (simp_all add: encode_def sextet_char)

lemma padded_encode:
  "encode bs @ replicate (nat (- int (length (encode bs)) mod 4)) (CHR ''='') = urlsafe_b64encode bs"
proof (induction bs rule: urlsafe_b64encode.induct)
  case (4 a b c rest)
  have "- int (length (encode (a # b # c # rest))) mod 4 = - int (length (encode rest)) mod 4"
    by (simp add: mod_simps) presburger
  with 4 show ?case by simp
qed (simp_all add: numeral_eq_Suc)

lemma encode_chars: "c \<in> set (encode bs) \<Longrightarrow> c \<noteq> CHR ''$'' \<and> (of_char c :: nat) < 128"
  by (induction bs rule: urlsafe_b64encode.induct) (auto simp: sextet_char)

lemma decode_encode: "decode (encode bs) = Some bs"
  by (auto simp: decode_def padded_encode decode_group is_ascii_def list_all_iff dest: encode_chars)

subsection \<open>Verifying a stored hash\<close>

lemma dollar_free: "CHR ''$'' \<notin> set (encode bs)"
  using encode_chars by blast

lemma scrypt_fields:
  "decimal (nat SCRYPT_N) = ''16384''" "decimal (nat SCRYPT_R) = ''8''" "decimal (nat SCRYPT_P) = ''1''"
  by (simp_all add: SCRYPT_N_def SCRYPT_R_def SCRYPT_P_def decimal.simps digit_char_def char_of_def bit_Suc_0_iff)

lemma scrypt_numbers:
  "parse_int ''16384'' = Some SCRYPT_N" "parse_int ''8'' = Some SCRYPT_R" "parse_int ''1'' = Some SCRYPT_P"
  by (simp_all add: SCRYPT_N_def SCRYPT_R_def SCRYPT_P_def parse_int_def strip_def is_space_def digit_value_def)

lemma split_encoded_hash:
  "split_max 5 (CHR ''$'') (encoded_hash salt derived) =
     [''scrypt'', ''16384'', ''8'', ''1'', encode salt, encode derived]"
proof -
  have "encoded_hash salt derived = ''scrypt'' @ CHR ''$'' # ''16384'' @ CHR ''$'' # ''8'' @ CHR ''$'' # ''1''
      @ CHR ''$'' # encode salt @ CHR ''$'' # encode derived"
    by (simp add: encoded_hash_def scrypt_fields)
  moreover have "(5 :: nat) = Suc (Suc (Suc (Suc (Suc 0))))" by simp
  ultimately show ?thesis
    by (simp only: split_max_field dollar_free split_max.simps(1) list.set char.inject simp_thms insert_iff
        empty_iff not_False_eq_True)
qed

definition kdf_length :: "kdf \<Rightarrow> bool" where
  "kdf_length kdf \<longleftrightarrow> (\<forall>password salt n r p dklen. length (kdf password salt n r p dklen) = dklen)"

lemma verify_hash_iff:
  assumes "kdf_length kdf"
  shows "verify_password kdf password (hash_password kdf salt original) \<longleftrightarrow>
      kdf (utf8 password) salt SCRYPT_N SCRYPT_R SCRYPT_P SCRYPT_DKLEN
        = kdf (utf8 original) salt SCRYPT_N SCRYPT_R SCRYPT_P SCRYPT_DKLEN"
proof -
  define key where "key = kdf (utf8 original) salt SCRYPT_N SCRYPT_R SCRYPT_P SCRYPT_DKLEN"
  have "length key = 32" using assms by (simp add: key_def kdf_length_def SCRYPT_DKLEN_def)
  then have "key \<noteq> []" by auto
  with \<open>length key = 32\<close> show ?thesis
    unfolding verify_password_def hash_password_def key_def [symmetric] split_encoded_hash
    by (simp add: scrypt_numbers decode_encode SCRYPT_DKLEN_def)
qed

text \<open>
  C20: a password is accepted by its own hash and by no other key.  Whatever the salt, the stored
  text splits into its six fields and decodes to the very salt and derived key it was written
  with, so \<open>verify_password\<close> accepts a password exactly when the key derived from it with the
  stored salt is the stored key; in particular it accepts the password that was hashed.
\<close>

theorem password_roundtrip:
  assumes "kdf_length kdf"
  shows "(verify_password kdf password (hash_password kdf salt original) \<longleftrightarrow>
      kdf (utf8 password) salt SCRYPT_N SCRYPT_R SCRYPT_P SCRYPT_DKLEN
        = kdf (utf8 original) salt SCRYPT_N SCRYPT_R SCRYPT_P SCRYPT_DKLEN)
    \<and> verify_password kdf original (hash_password kdf salt original)
    \<and> decode (encode salt) = Some salt"
  by (simp add: verify_hash_iff [OF assms] decode_encode)

definition demo_kdf :: kdf where
  "demo_kdf password salt n r p dklen = take dklen (password @ salt @ replicate dklen 0)"

lemma demo_kdf_length: "kdf_length demo_kdf"
  by (auto simp: kdf_length_def demo_kdf_def min_def)

theorem password_roundtrip_witness:
  "verify_password demo_kdf ''correct horse'' (hash_password demo_kdf [7, 255, 0] ''correct horse'')
    \<and> \<not> verify_password demo_kdf ''correct hose'' (hash_password demo_kdf [7, 255, 0] ''correct horse'')"
  using password_roundtrip [OF demo_kdf_length, of "''correct hose''" "[7, 255, 0]" "''correct horse''"]
  by (simp add: demo_kdf_def SCRYPT_DKLEN_def utf8_def)

end
