(* ===== verification/Identity.thy ===== *)
theory Identity
  imports Test_Assets Run_Emails Security
begin

section \<open>Users, sessions and project members\<close>

text \<open>
  \<open>identity.py\<close>: the bearer sessions (\<open>current_principal\<close>), the permissions of a project role
  (\<open>authorize_project\<close>), bootstrap, users, login, logout, password resets, revocation of sessions
  and project members.  The random bytes of salts and tokens are arguments; a token's SHA-256
  is the transaction's digest of its text.  The invariant \<open>identity_ok\<close> states what these
  services keep between them: once there is a user there is an active administrator, a live
  session belongs to an active user, and every project has an administrator.
\<close>

subsection \<open>Principals and permissions\<close>

record principal =
  pr_user :: uuid
  pr_session :: uuid
  pr_username :: string
  pr_display_name :: string
  pr_role :: system_role

definition is_system_admin :: "principal \<Rightarrow> bool" where
  "is_system_admin p \<longleftrightarrow> pr_role p = SYSTEM_ADMIN"

fun PROJECT_PERMISSIONS :: "project_role \<Rightarrow> string list" where
  "PROJECT_PERMISSIONS VIEWER = [''project:read'', ''baseline:read'', ''run:read'']"
| "PROJECT_PERMISSIONS TESTER = [''project:read'', ''baseline:read'', ''run:read'', ''run:create'', ''run:cancel'',
     ''change:read'', ''change:create'', ''change:edit'', ''change:submit'']"
| "PROJECT_PERMISSIONS REVIEWER = [''project:read'', ''baseline:read'', ''run:read'', ''change:read'', ''change:review'']"
| "PROJECT_PERMISSIONS PROJECT_ADMIN = [''*'']"

definition session_token_hash :: "txn \<Rightarrow> string \<Rightarrow> string" where
  "session_token_hash x token = txn_digest x (Hash_text token)"

text \<open>The join of the session's row with its user's; \<open>authorization.partition(" ")\<close>.\<close>

definition session_with_user :: "(auth_session_row \<Rightarrow> bool) \<Rightarrow> db \<Rightarrow> (auth_session_row \<times> user_row) option" where
  "session_with_user wanted d =
     (case find wanted (auth_sessions d) of
        None \<Rightarrow> None
      | Some s \<Rightarrow> map_option (Pair s) (lookup_row u_id (as_user s) (users d)))"

definition bearer_token :: "string option \<Rightarrow> service_error + string" where
  "bearer_token authorization =
     (case authorization of
        None \<Rightarrow> Inl (AuthenticationRequired ''Bearer authentication is required'')
      | Some header \<Rightarrow>
          (let scheme = takeWhile (\<lambda>c. c \<noteq> CHR '' '') header;
               rest = dropWhile (\<lambda>c. c \<noteq> CHR '' '') header;
               token = strip (tl rest)
           in if rest = [] \<or> casefold scheme \<noteq> ''bearer'' \<or> token = []
              then Inl (AuthenticationRequired ''Bearer authentication is required'')
              else Inr token))"

definition live_session :: "instant \<Rightarrow> auth_session_row \<Rightarrow> user_row \<Rightarrow> bool" where
  "live_session now s u \<longleftrightarrow> as_revoked_at s = None \<and> now < as_expires_at s \<and> u_status u = User_ACTIVE"

definition current_principal :: "txn \<Rightarrow> string option \<Rightarrow> db \<Rightarrow> service_error + principal" where
  "current_principal x authorization d =
     bind_outcome (bearer_token authorization) (\<lambda>token.
       case session_with_user (\<lambda>s. as_token_hash s = session_token_hash x token) d of
         None \<Rightarrow> Inl (AuthenticationRequired ''invalid or expired session'')
       | Some (s, u) \<Rightarrow>
           if live_session (txn_now x) s u
           then Inr \<lparr>pr_user = u_id u, pr_session = as_id s, pr_username = u_username u,
             pr_display_name = u_display_name u, pr_role = u_role u\<rparr>
           else Inl (AuthenticationRequired ''invalid or expired session''))"

definition require_system_admin :: "principal \<Rightarrow> service_error + unit" where
  "require_system_admin p =
     (if is_system_admin p then Inr ()
      else Inl (PermissionDenied ''system administrator permission is required''))"

definition membership :: "uuid \<Rightarrow> uuid \<Rightarrow> db \<Rightarrow> member_row option" where
  "membership project user d = lookup_row (\<lambda>m. (m_project m, m_user m)) (project, user) (members d)"

definition authorize_project :: "principal \<Rightarrow> uuid \<Rightarrow> string \<Rightarrow> db \<Rightarrow> service_error + project_role option" where
  "authorize_project p project permission d =
     (if is_system_admin p then Inr None
      else case membership project (pr_user p) d of
        None \<Rightarrow> Inl (PermissionDenied ''project membership is required'')
      | Some m \<Rightarrow>
          if ''*'' \<notin> set (PROJECT_PERMISSIONS (m_role m)) \<and> permission \<notin> set (PROJECT_PERMISSIONS (m_role m))
          then Inl (PermissionDenied ''project permission is required: {}'')
          else Inr (Some (m_role m)))"

subsection \<open>Users\<close>

fun system_role_value :: "system_role \<Rightarrow> string" where
  "system_role_value USER = ''USER''"
| "system_role_value SYSTEM_ADMIN = ''SYSTEM_ADMIN''"

fun user_status_value :: "user_status \<Rightarrow> string" where
  "user_status_value User_ACTIVE = ''ACTIVE''"
| "user_status_value User_DISABLED = ''DISABLED''"

record user_create =
  uc_username :: string
  uc_display_name :: string
  uc_password :: string
  uc_role :: system_role

definition new_user :: "kdf \<Rightarrow> byte list \<Rightarrow> uuid \<Rightarrow> user_create \<Rightarrow> user_row" where
  "new_user kdf salt i u =
     \<lparr>u_id = i, u_username = uc_username u, u_display_name = uc_display_name u,
      u_password_hash = hash_password kdf salt (uc_password u), u_role = uc_role u, u_status = User_ACTIVE\<rparr>"

text \<open>
  \<open>hmac.compare_digest\<close> on two strings raises \<open>TypeError\<close> unless both are ASCII; the request
  then fails like on a \<open>ValueError\<close>.
\<close>

definition check_bootstrap_token :: "string option \<Rightarrow> string option \<Rightarrow> service_error + unit" where
  "check_bootstrap_token provided configured =
     (if \<not> truthy configured then Inl (BootstrapUnavailable ''administrator bootstrap is not configured'')
      else case (provided, configured) of
        (Some p, Some c) \<Rightarrow>
          if \<not> is_ascii p \<or> \<not> is_ascii c then Inl (Value_error ''comparing strings with non-ASCII characters'')
          else if p \<noteq> c then Inl (AuthenticationRequired ''invalid bootstrap token'')
          else Inr ()
      | _ \<Rightarrow> Inl (AuthenticationRequired ''invalid bootstrap token''))"

definition bootstrap_admin ::
  "txn \<Rightarrow> kdf \<Rightarrow> byte list \<Rightarrow> user_create \<Rightarrow> string option \<Rightarrow> string option \<Rightarrow> db \<Rightarrow> service_error + db \<times> user_row" where
  "bootstrap_admin x kdf salt u provided configured d =
     bind_outcome (check_bootstrap_token provided configured) (\<lambda>_.
     if users d \<noteq> [] then Inl (ResourceConflict ''administrator bootstrap is already complete'')
     else
     let user = new_user kdf salt (txn_uuid x Draw_row) (u\<lparr>uc_role := SYSTEM_ADMIN\<rparr>);
         d1 = d\<lparr>settings := settings d @ [\<lparr>st_key = ''identity.bootstrapped'',
                st_value = [(''completed_by'', JId (u_id user)), (''username'', JStr (u_username user))]\<rparr>],
              users := users d @ [user]\<rparr>;
         d2 = audit x (u_id user) ''identity.admin_bootstrapped'' ''user'' (u_id user) None
           [(''username'', JStr (u_username user))] d1
     in bind_outcome (commit_unique ''administrator bootstrap is already complete'' d2) (\<lambda>d3. Inr (d3, user)))"

definition create_user ::
  "txn \<Rightarrow> kdf \<Rightarrow> byte list \<Rightarrow> user_create \<Rightarrow> principal \<Rightarrow> db \<Rightarrow> service_error + db \<times> user_row" where
  "create_user x kdf salt u p d =
     bind_outcome (require_system_admin p) (\<lambda>_.
       let user = new_user kdf salt (txn_uuid x Draw_row) u;
           d1 = audit x (pr_user p) ''identity.user_created'' ''user'' (u_id user) None
             [(''username'', JStr (u_username user)), (''system_role'', JStr (system_role_value (u_role user)))]
             (d\<lparr>users := users d @ [user]\<rparr>)
       in bind_outcome (commit_unique ''username already exists'' d1) (\<lambda>d2. Inr (d2, user)))"

subsection \<open>Login and logout\<close>

text \<open>\<open>moment + timedelta(hours=...)\<close>.\<close>

definition hours :: "int \<Rightarrow> instant" where
  "hours n = microseconds (3600 * n)"

text \<open>The stored hash, or a fixed one where there is no active user to compare with.\<close>

definition password_is_valid :: "kdf \<Rightarrow> string \<Rightarrow> user_row option \<Rightarrow> bool" where
  "password_is_valid kdf password user =
     verify_password kdf password
       (case user of
          None \<Rightarrow> DUMMY_PASSWORD_HASH kdf
        | Some u \<Rightarrow> if u_status u = User_ACTIVE then u_password_hash u else DUMMY_PASSWORD_HASH kdf)"

definition new_session :: "txn \<Rightarrow> uuid \<Rightarrow> string \<Rightarrow> instant \<Rightarrow> auth_session_row" where
  "new_session x user token expires =
     \<lparr>as_id = txn_uuid x Draw_row, as_user = user, as_token_hash = session_token_hash x token,
      as_expires_at = expires, as_created_at = txn_now x, as_revoked_at = None\<rparr>"

definition authenticate ::
  "txn \<Rightarrow> kdf \<Rightarrow> byte list \<Rightarrow> int \<Rightarrow> string \<Rightarrow> string \<Rightarrow> db \<Rightarrow> service_error + db \<times> user_row \<times> string \<times> instant" where
  "authenticate x kdf random ttl username password d =
     (let user = lookup_row u_username username (users d);
          valid = password_is_valid kdf password user
      in case user of
        None \<Rightarrow> Inl (AuthenticationRequired ''invalid username or password'')
      | Some u \<Rightarrow>
          if u_status u \<noteq> User_ACTIVE \<or> \<not> valid
          then Inl (AuthenticationRequired ''invalid username or password'')
          else
          let token = issue_session_token random;
              expires = txn_now x + hours ttl;
              s = new_session x (u_id u) token expires;
              d1 = audit x (u_id u) ''identity.session_created'' ''auth_session'' (as_id s) None
                [(''expires_at'', JTime expires)] (d\<lparr>auth_sessions := auth_sessions d @ [s]\<rparr>)
          in bind_outcome (commit d1) (\<lambda>d2. Inr (d2, u, token, expires)))"

definition revoke_session :: "instant \<Rightarrow> uuid \<Rightarrow> db \<Rightarrow> db" where
  "revoke_session now i d =
     d\<lparr>auth_sessions := update_row as_id i (\<lambda>s. s\<lparr>as_revoked_at := Some now\<rparr>) (auth_sessions d)\<rparr>"

definition logout :: "txn \<Rightarrow> principal \<Rightarrow> db \<Rightarrow> service_error + db" where
  "logout x p d =
     (case lookup_row as_id (pr_session p) (auth_sessions d) of
        None \<Rightarrow> Inr d
      | Some s \<Rightarrow>
          if as_revoked_at s \<noteq> None then Inr d
          else commit (audit x (pr_user p) ''identity.session_revoked'' ''auth_session'' (pr_session p) None []
            (revoke_session (txn_now x) (pr_session p) d)))"

subsection \<open>Changing users\<close>

definition active_admin :: "user_row \<Rightarrow> bool" where
  "active_admin u \<longleftrightarrow> u_role u = SYSTEM_ADMIN \<and> u_status u = User_ACTIVE"

definition ensure_admin_remains ::
  "user_row \<Rightarrow> system_role \<Rightarrow> user_status \<Rightarrow> db \<Rightarrow> service_error + unit" where
  "ensure_admin_remains u role status d =
     (if \<not> active_admin u \<or> role = SYSTEM_ADMIN \<and> status = User_ACTIVE then Inr ()
      else if count_rows active_admin (users d) \<le> 1
      then Inl (ResourceConflict ''system must keep at least one active system administrator'')
      else Inr ())"

definition revoke_user_sessions :: "instant \<Rightarrow> uuid \<Rightarrow> db \<Rightarrow> db \<times> int" where
  "revoke_user_sessions now user d =
     (let unrevoked = (\<lambda>s. as_user s = user \<and> as_revoked_at s = None)
      in (d\<lparr>auth_sessions := update_where unrevoked (\<lambda>s. s\<lparr>as_revoked_at := Some now\<rparr>) (auth_sessions d)\<rparr>,
          count_rows unrevoked (auth_sessions d)))"

record user_update =
  uu_display_name :: "string option"
  uu_role :: "system_role option"
  uu_status :: "user_status option"

definition user_details :: "user_row \<Rightarrow> json" where
  "user_details u = JObj [(''display_name'', JStr (u_display_name u)),
     (''system_role'', JStr (system_role_value (u_role u))), (''status'', JStr (user_status_value (u_status u)))]"

definition apply_user_update :: "user_update \<Rightarrow> user_row \<Rightarrow> user_row" where
  "apply_user_update u user =
     user\<lparr>u_display_name := given_or (uu_display_name u) (u_display_name user),
       u_role := given_or (uu_role u) (u_role user), u_status := given_or (uu_status u) (u_status user)\<rparr>"

definition store_user :: "user_row \<Rightarrow> db \<Rightarrow> db" where
  "store_user u d = d\<lparr>users := update_row u_id (u_id u) (\<lambda>_. u) (users d)\<rparr>"

definition update_user ::
  "txn \<Rightarrow> uuid \<Rightarrow> user_update \<Rightarrow> principal \<Rightarrow> db \<Rightarrow> service_error + db \<times> user_row" where
  "update_user x i u p d =
     bind_outcome (require_system_admin p) (\<lambda>_.
     bind_outcome (require_row (ResourceNotFound ''user not found'') (lookup_row u_id i (users d))) (\<lambda>user.
     let user' = apply_user_update u user in
     if i = pr_user p \<and> \<not> active_admin user'
     then Inl (ResourceConflict ''current administrator cannot demote or disable itself'')
     else
     bind_outcome (ensure_admin_remains user (u_role user') (u_status user') d) (\<lambda>_.
       let d1 = store_user user' d;
           (d2, revoked) = (if u_status user' = User_DISABLED then revoke_user_sessions (txn_now x) i d1 else (d1, 0));
           d3 = audit x (pr_user p) ''identity.user_updated'' ''user'' i None
             [(''before'', user_details user), (''after'', user_details user'),
              (''revoked_sessions'', JInt revoked)] d2
       in bind_outcome (commit d3) (\<lambda>d4. Inr (d4, user')))))"

definition reset_user_password ::
  "txn \<Rightarrow> kdf \<Rightarrow> byte list \<Rightarrow> uuid \<Rightarrow> string \<Rightarrow> principal \<Rightarrow> db \<Rightarrow> service_error + db \<times> user_row" where
  "reset_user_password x kdf salt i password p d =
     bind_outcome (require_system_admin p) (\<lambda>_.
     bind_outcome (require_row (ResourceNotFound ''user not found'') (lookup_row u_id i (users d))) (\<lambda>user.
     if u_role user = SYSTEM_ADMIN \<and> length password < 12
     then Inl (InvalidRequest ''System Admin password must contain at least 12 characters'')
     else
     let user' = user\<lparr>u_password_hash := hash_password kdf salt password\<rparr>;
         (d1, revoked) = revoke_user_sessions (txn_now x) i (store_user user' d);
         d2 = audit x (pr_user p) ''identity.password_reset'' ''user'' i None
           [(''revoked_sessions'', JInt revoked)] d1
     in bind_outcome (commit d2) (\<lambda>d3. Inr (d3, user'))))"

definition revoke_managed_session ::
  "txn \<Rightarrow> uuid \<Rightarrow> principal \<Rightarrow> db \<Rightarrow> service_error + db \<times> auth_session_row \<times> user_row" where
  "revoke_managed_session x i p d =
     bind_outcome (require_system_admin p) (\<lambda>_.
       case session_with_user (\<lambda>s. as_id s = i) d of
         None \<Rightarrow> Inl (ResourceNotFound ''session not found'')
       | Some (s, u) \<Rightarrow>
           if as_revoked_at s \<noteq> None then Inr (d, s, u)
           else
           let d1 = audit x (pr_user p) ''identity.session_revoked_by_admin'' ''auth_session'' i None
                 [(''user_id'', JId (u_id u))] (revoke_session (txn_now x) i d)
           in bind_outcome (commit d1) (\<lambda>d2. Inr (d2, s\<lparr>as_revoked_at := Some (txn_now x)\<rparr>, u)))"

subsection \<open>Project members\<close>

fun project_role_value :: "project_role \<Rightarrow> string" where
  "project_role_value VIEWER = ''VIEWER''"
| "project_role_value TESTER = ''TESTER''"
| "project_role_value REVIEWER = ''REVIEWER''"
| "project_role_value PROJECT_ADMIN = ''PROJECT_ADMIN''"

definition project_admin_of :: "uuid \<Rightarrow> member_row \<Rightarrow> bool" where
  "project_admin_of project m \<longleftrightarrow> m_project m = project \<and> m_role m = PROJECT_ADMIN"

definition keep_project_admin :: "uuid \<Rightarrow> bool \<Rightarrow> db \<Rightarrow> service_error + unit" where
  "keep_project_admin project loses_admin d =
     (if loses_admin \<and> count_rows (project_admin_of project) (members d) \<le> 1
      then Inl (ResourceConflict ''project must keep at least one project administrator'')
      else Inr ())"

definition active_user :: "uuid \<Rightarrow> db \<Rightarrow> service_error + user_row" where
  "active_user i d =
     (case lookup_row u_id i (users d) of
        None \<Rightarrow> Inl (ResourceNotFound ''active user not found'')
      | Some u \<Rightarrow> if u_status u \<noteq> User_ACTIVE then Inl (ResourceNotFound ''active user not found'') else Inr u)"

definition store_member ::
  "txn \<Rightarrow> uuid \<Rightarrow> uuid \<Rightarrow> project_role \<Rightarrow> principal \<Rightarrow> db \<Rightarrow> service_error + db \<times> member_row \<times> string" where
  "store_member x project user role p d =
     (case membership project user d of
        None \<Rightarrow>
          (let m = \<lparr>m_id = txn_uuid x Draw_member, m_project = project, m_user = user, m_role = role,
                 m_created_by = pr_user p\<rparr>
           in Inr (d\<lparr>members := members d @ [m]\<rparr>, m, ''project.member_added''))
      | Some m \<Rightarrow>
          bind_outcome (keep_project_admin project (m_role m = PROJECT_ADMIN \<and> role \<noteq> PROJECT_ADMIN) d) (\<lambda>_.
            let m' = m\<lparr>m_role := role\<rparr>
            in Inr (d\<lparr>members := update_row m_id (m_id m) (\<lambda>_. m') (members d)\<rparr>, m', ''project.member_role_changed'')))"

definition upsert_project_member ::
  "txn \<Rightarrow> uuid \<Rightarrow> uuid \<Rightarrow> project_role \<Rightarrow> principal \<Rightarrow> db \<Rightarrow> service_error + db \<times> member_row \<times> user_row" where
  "upsert_project_member x project user role p d =
     bind_outcome (authorize_project p project ''member:manage'' d) (\<lambda>_.
     bind_outcome (project_or_404 d project) (\<lambda>_.
     bind_outcome (active_user user d) (\<lambda>u.
     bind_outcome (store_member x project user role p d) (\<lambda>(d1, m, action).
       let d2 = audit x (pr_user p) action ''project_member'' (m_id m) (Some project)
             [(''user_id'', JId user), (''role'', JStr (project_role_value (m_role m)))] d1
       in bind_outcome (commit d2) (\<lambda>d3. Inr (d3, m, u))))))"

definition remove_project_member ::
  "txn \<Rightarrow> uuid \<Rightarrow> uuid \<Rightarrow> principal \<Rightarrow> db \<Rightarrow> service_error + db" where
  "remove_project_member x project user p d =
     bind_outcome (authorize_project p project ''member:manage'' d) (\<lambda>_.
     bind_outcome (require_row (ResourceNotFound ''project member not found'') (membership project user d)) (\<lambda>m.
     bind_outcome (keep_project_admin project (m_role m = PROJECT_ADMIN) d) (\<lambda>_.
       commit (audit x (pr_user p) ''project.member_removed'' ''project_member'' (m_id m) (Some project)
         [(''user_id'', JId user), (''role'', JStr (project_role_value (m_role m)))]
         (d\<lparr>members := filter (\<lambda>n. m_id n \<noteq> m_id m) (members d)\<rparr>)))))"

subsection \<open>What the services commit\<close>

text \<open>
  One call of a service.  The routes pass the principal that \<open>current_principal\<close> read from the
  request's header in the same session.
\<close>

inductive identity_call :: "db \<Rightarrow> db \<Rightarrow> bool" where
  Bootstrap: "bootstrap_admin x kdf salt u provided configured d = Inr (d', user) \<Longrightarrow> identity_call d d'"
| User_create: "create_user x kdf salt u p d = Inr (d', user)
    \<Longrightarrow> current_principal x authorization d = Inr p \<Longrightarrow> identity_call d d'"
| Login: "authenticate x kdf random ttl username password d = Inr (d', user, token, expires) \<Longrightarrow> identity_call d d'"
| Logout: "logout x p d = Inr d'
    \<Longrightarrow> current_principal x authorization d = Inr p \<Longrightarrow> identity_call d d'"
| User_update: "update_user x i v p d = Inr (d', user)
    \<Longrightarrow> current_principal x authorization d = Inr p \<Longrightarrow> identity_call d d'"
| Password_reset: "reset_user_password x kdf salt i password p d = Inr (d', user)
    \<Longrightarrow> current_principal x authorization d = Inr p \<Longrightarrow> identity_call d d'"
| Session_revoke: "revoke_managed_session x i p d = Inr (d', s, user)
    \<Longrightarrow> current_principal x authorization d = Inr p \<Longrightarrow> identity_call d d'"
| Member_upsert: "upsert_project_member x project i role p d = Inr (d', m, user)
    \<Longrightarrow> current_principal x authorization d = Inr p \<Longrightarrow> identity_call d d'"
| Member_remove: "remove_project_member x project i p d = Inr d'
    \<Longrightarrow> current_principal x authorization d = Inr p \<Longrightarrow> identity_call d d'"
| Project_opened: "create_project x pc (pr_user p) d = Inr (d', project) \<Longrightarrow> current_principal x authorization d = Inr p
    \<Longrightarrow> identity_call d d'"

lemma bootstrap_admin_Inr:
  assumes "bootstrap_admin x kdf salt u provided configured d = Inr (d', user)"
  shows "users d = []" "users d' = [user]" "active_admin user" "auth_sessions d' = auth_sessions d"
    "projects d' = projects d" "members d' = members d" "unique_ok d'" "same_run_tables d d'"
  using assms unfolding bootstrap_admin_def Let_def
  by (auto elim!: bind_outcome_InrE guard_InrE simp: commit_unique_Inr_iff same_run_tables_def
      new_user_def active_admin_def simp del: if_split)

lemma create_user_Inr:
  assumes "create_user x kdf salt u p d = Inr (d', user)"
  shows "is_system_admin p" "users d' = users d @ [user]" "u_status user = User_ACTIVE"
    "auth_sessions d' = auth_sessions d" "projects d' = projects d" "members d' = members d"
    "unique_ok d'" "same_run_tables d d'"
  using assms unfolding create_user_def Let_def require_system_admin_def
  by (auto elim!: bind_outcome_InrE simp: commit_unique_Inr_iff same_run_tables_def new_user_def split: if_split_asm)

lemma authenticate_Inr:
  assumes "authenticate x kdf random ttl username password d = Inr (d', user, token, expires)"
  shows "lookup_row u_username username (users d) = Some user" "u_status user = User_ACTIVE"
    "verify_password kdf password (u_password_hash user)"
    "token = issue_session_token random" "expires = txn_now x + hours ttl"
    "auth_sessions d' = auth_sessions d @ [new_session x (u_id user) token expires]"
    "users d' = users d" "projects d' = projects d" "members d' = members d" "unique_ok d'" "same_run_tables d d'"
  using assms unfolding authenticate_def Let_def password_is_valid_def
  by (auto elim!: commit_bind_InrE simp: same_run_tables_def split: option.splits if_split_asm)

lemma logout_Inr:
  assumes "logout x p d = Inr d'"
  shows "d' = d \<or> auth_sessions d' = update_row as_id (pr_session p) (\<lambda>s. s\<lparr>as_revoked_at := Some (txn_now x)\<rparr>) (auth_sessions d)
      \<and> unique_ok d'"
    "users d' = users d" "projects d' = projects d" "members d' = members d" "same_run_tables d d'"
  using assms unfolding logout_def revoke_session_def
  by (auto simp: commit_Inr_iff same_run_tables_def split: option.splits if_split_asm)

lemma revoke_user_sessions_frame [simp]:
  "users (fst (revoke_user_sessions now i d)) = users d" "projects (fst (revoke_user_sessions now i d)) = projects d"
  "members (fst (revoke_user_sessions now i d)) = members d"
  "auth_sessions (fst (revoke_user_sessions now i d)) =
     update_where (\<lambda>s. as_user s = i \<and> as_revoked_at s = None) (\<lambda>s. s\<lparr>as_revoked_at := Some now\<rparr>) (auth_sessions d)"
  "same_run_tables c (fst (revoke_user_sessions now i d)) = same_run_tables c d"
  by (simp_all add: revoke_user_sessions_def same_run_tables_def Let_def)

lemma store_user_frame [simp]:
  "users (store_user u d) = update_row u_id (u_id u) (\<lambda>_. u) (users d)" "projects (store_user u d) = projects d"
  "members (store_user u d) = members d" "auth_sessions (store_user u d) = auth_sessions d"
  "same_run_tables c (store_user u d) = same_run_tables c d"
  by (simp_all add: store_user_def same_run_tables_def)

lemma same_run_tables_audit [simp]: "same_run_tables c (audit x a b e f g h d) = same_run_tables c d"
  by (simp add: same_run_tables_def)

lemma update_user_Inr:
  assumes "update_user x i u p d = Inr (d', user')"
  obtains user where "is_system_admin p" "lookup_row u_id i (users d) = Some user" "user' = apply_user_update u user"
    "i = pr_user p \<longrightarrow> active_admin user'" "ensure_admin_remains user (u_role user') (u_status user') d = Inr ()"
    "users d' = update_row u_id i (\<lambda>_. user') (users d)"
    "auth_sessions d' = (if u_status user' = User_DISABLED
       then update_where (\<lambda>s. as_user s = i \<and> as_revoked_at s = None) (\<lambda>s. s\<lparr>as_revoked_at := Some (txn_now x)\<rparr>) (auth_sessions d)
       else auth_sessions d)"
    "projects d' = projects d" "members d' = members d" "unique_ok d'" "same_run_tables d d'"
proof -
  obtain user where user: "lookup_row u_id i (users d) = Some user" and admin: "is_system_admin p"
    using assms unfolding update_user_def require_system_admin_def
    by (elim bind_outcome_InrE bind_require_InrE) (auto split: if_split_asm)
  then have "u_id user = i" by (auto dest: lookup_row_SomeD)
  then have [simp]: "u_id (apply_user_update u user) = i" by (simp add: apply_user_update_def)
  note call = assms [unfolded update_user_def user require_system_admin_def if_P [OF admin] require_row_simps
      bind_outcome_simps Let_def]
  from call show thesis
    by (elim guard_InrE bind_outcome_InrE)
      (rule that [OF admin user], auto elim!: commit_bind_InrE simp: case_prod_beta split: if_splits)
qed

lemma reset_user_password_Inr:
  assumes "reset_user_password x kdf salt i password p d = Inr (d', user')"
  obtains user where "is_system_admin p" "lookup_row u_id i (users d) = Some user"
    "user' = user\<lparr>u_password_hash := hash_password kdf salt password\<rparr>"
    "users d' = update_row u_id i (\<lambda>_. user') (users d)"
    "auth_sessions d' = update_where (\<lambda>s. as_user s = i \<and> as_revoked_at s = None)
       (\<lambda>s. s\<lparr>as_revoked_at := Some (txn_now x)\<rparr>) (auth_sessions d)"
    "projects d' = projects d" "members d' = members d" "unique_ok d'" "same_run_tables d d'"
proof -
  obtain user where user: "lookup_row u_id i (users d) = Some user" and admin: "is_system_admin p"
    using assms unfolding reset_user_password_def require_system_admin_def
    by (elim bind_outcome_InrE bind_require_InrE) (auto split: if_split_asm)
  then have [simp]: "u_id user = i" by (auto dest: lookup_row_SomeD)
  note call = assms [unfolded reset_user_password_def user require_system_admin_def if_P [OF admin] require_row_simps
      bind_outcome_simps Let_def]
  from call show thesis
    by (elim guard_InrE) (rule that [OF admin user], auto elim!: commit_bind_InrE simp: case_prod_beta)
qed

lemma session_with_user_Some:
  "session_with_user wanted d = Some (s, u) \<Longrightarrow>
     s \<in> set (auth_sessions d) \<and> wanted s \<and> u \<in> set (users d) \<and> u_id u = as_user s"
  by (auto simp: session_with_user_def dest: find_SomeD lookup_row_SomeD split: option.splits)

lemma revoke_managed_session_Inr:
  assumes "revoke_managed_session x i p d = Inr (d', s, u)"
  shows "is_system_admin p"
    "d' = d \<or> auth_sessions d' = update_row as_id i (\<lambda>s. s\<lparr>as_revoked_at := Some (txn_now x)\<rparr>) (auth_sessions d)
      \<and> unique_ok d'"
    "users d' = users d" "projects d' = projects d" "members d' = members d" "same_run_tables d d'"
  using assms unfolding revoke_managed_session_def require_system_admin_def Let_def revoke_session_def
  by (auto elim!: bind_outcome_InrE commit_bind_InrE simp: same_run_tables_def split: option.splits if_split_asm)

lemma store_member_Inr:
  assumes "store_member x project i role p d = Inr (d', m, action)"
  shows "m_project m = project \<and> m_user m = i \<and> m_role m = role
    \<and> (membership project i d = None \<and> members d' = members d @ [m]
      \<or> (\<exists>old. membership project i d = Some old \<and> m_id m = m_id old
          \<and> members d' = update_row m_id (m_id m) (\<lambda>_. m) (members d)
          \<and> keep_project_admin project (m_role old = PROJECT_ADMIN \<and> role \<noteq> PROJECT_ADMIN) d = Inr ()))
    \<and> users d' = users d \<and> auth_sessions d' = auth_sessions d \<and> projects d' = projects d \<and> same_run_tables d d'"
proof (cases "membership project i d")
  case None
  with assms show ?thesis by (auto simp: store_member_def same_run_tables_def Let_def)
next
  case (Some old)
  then have "m_project old = project" "m_user old = i" by (auto simp: membership_def dest: lookup_row_SomeD)
  with Some assms show ?thesis
    by (auto simp: store_member_def same_run_tables_def Let_def elim!: bind_outcome_InrE)
qed

lemma upsert_project_member_Inr:
  assumes "upsert_project_member x project i role p d = Inr (d', m, u)"
  obtains d1 action r project_row where "authorize_project p project ''member:manage'' d = Inr r"
    "project_or_404 d project = Inr project_row" "active_user i d = Inr u"
    "store_member x project i role p d = Inr (d1, m, action)" "members d' = members d1" "users d' = users d1"
    "auth_sessions d' = auth_sessions d1" "projects d' = projects d1" "unique_ok d'" "same_run_tables d1 d'"
  using assms unfolding upsert_project_member_def Let_def
  by (elim bind_outcome_InrE) (auto elim!: commit_bind_InrE simp: same_run_tables_def split: prod.splits intro: that)

lemma remove_project_member_Inr:
  assumes "remove_project_member x project i p d = Inr d'"
  obtains m r where "authorize_project p project ''member:manage'' d = Inr r" "membership project i d = Some m"
    "keep_project_admin project (m_role m = PROJECT_ADMIN) d = Inr ()"
    "members d' = filter (\<lambda>n. m_id n \<noteq> m_id m) (members d)" "users d' = users d"
    "auth_sessions d' = auth_sessions d" "projects d' = projects d" "unique_ok d'" "same_run_tables d d'"
  using assms unfolding remove_project_member_def
  by (elim bind_outcome_InrE bind_require_InrE) (auto simp: commit_Inr_iff same_run_tables_def intro: that)

lemma create_project_people:
  "create_project x u actor d = Inr (d', p) \<Longrightarrow> users d' = users d \<and> auth_sessions d' = auth_sessions d"
  unfolding create_project_def Let_def
  by (auto elim!: guard_InrE commit_bind_InrE simp del: if_split)

lemma identity_call_commits:
  "identity_call d d' \<Longrightarrow> same_run_tables d d' \<and> (unique_ok d \<longrightarrow> unique_ok d')"
proof (induction rule: identity_call.induct)
  case Bootstrap then show ?case by (auto dest: bootstrap_admin_Inr)
next
  case User_create then show ?case by (auto dest: create_user_Inr)
next
  case Login then show ?case by (auto dest: authenticate_Inr)
next
  case Logout then show ?case by (auto dest: logout_Inr)
next
  case User_update then show ?case by (auto elim: update_user_Inr)
next
  case Password_reset then show ?case by (auto elim: reset_user_password_Inr)
next
  case Session_revoke then show ?case by (auto dest: revoke_managed_session_Inr)
next
  case (Member_upsert x project i role p d d' m user)
  then show ?case
    by (elim upsert_project_member_Inr) (auto dest!: store_member_Inr intro: same_run_tables_trans)
next
  case Member_remove then show ?case by (auto elim: remove_project_member_Inr)
next
  case Project_opened then show ?case by (auto dest: create_project_Inr)
qed

interpretation identity_services: side_service identity_call
  by unfold_locales (use identity_call_commits in blast)+

subsection \<open>What the services keep\<close>

definition admin_remains :: "db \<Rightarrow> bool" where
  "admin_remains d \<longleftrightarrow> (users d \<noteq> [] \<longrightarrow> (\<exists>u\<in>set (users d). active_admin u))"

definition sessions_ok :: "db \<Rightarrow> bool" where
  "sessions_ok d \<longleftrightarrow> (\<forall>s\<in>set (auth_sessions d). as_revoked_at s = None \<longrightarrow>
     (\<exists>u\<in>set (users d). u_id u = as_user s \<and> u_status u = User_ACTIVE))"

definition projects_led :: "db \<Rightarrow> bool" where
  "projects_led d \<longleftrightarrow> (\<forall>p\<in>set (projects d). \<exists>m\<in>set (members d). project_admin_of (p_id p) m)"

definition identity_ok :: "db \<Rightarrow> bool" where
  "identity_ok d \<longleftrightarrow> unique_ok d \<and> admin_remains d \<and> sessions_ok d \<and> projects_led d"

lemma unique_people_of:
  assumes "unique_ok d"
  shows "unique_on u_id (users d)" "unique_on as_id (auth_sessions d)" "unique_on as_token_hash (auth_sessions d)"
    "unique_on m_id (members d)" "unique_on (\<lambda>m. (m_project m, m_user m)) (members d)"
  using assms by (simp_all add: unique_ok_def unique_people_def)

text \<open>Where a count exceeds one, there is a second row besides any given one.\<close>

lemma count_rows_other:
  assumes "unique_on key rows" "1 < count_rows P rows"
  shows "\<exists>r\<in>set rows. P r \<and> key r \<noteq> k"
proof (rule ccontr)
  assume "\<not> ?thesis"
  then have "set (map key (filter P rows)) \<subseteq> {k}" by auto
  moreover have "distinct (map key (filter P rows))"
    using assms(1) unfolding unique_on_def by (rule distinct_map_filter)
  ultimately have "length (map key (filter P rows)) \<le> 1"
    by (metis card_mono card.empty card.insert distinct_card empty_iff finite.emptyI finite.insertI One_nat_def)
  with assms(2) show False by (simp add: count_rows_def)
qed

lemma admin_remains_update:
  assumes "admin_remains d" "unique_ok d" "lookup_row u_id i (users d) = Some user" "u_id user' = i"
    and "active_admin user \<Longrightarrow> \<not> active_admin user' \<Longrightarrow> 1 < count_rows active_admin (users d)"
    and "users d' = update_row u_id i (\<lambda>_. user') (users d)"
  shows "admin_remains d'"
proof -
  note user = lookup_row_SomeD [OF assms(3)]
  then have "users d \<noteq> []" by auto
  with assms(1) obtain a where a: "a \<in> set (users d)" "active_admin a" by (auto simp: admin_remains_def)
  have "\<exists>b. (b \<in> set (users d) \<and> u_id b \<noteq> i \<or> b = user') \<and> active_admin b"
  proof (cases "u_id a = i")
    case True
    then have "a = user" using unique_on_eq [OF unique_people_of(1) [OF assms(2)] a(1)] user by simp
    with a assms(5) count_rows_other [OF unique_people_of(1) [OF assms(2)], of active_admin i]
    show ?thesis by blast
  qed (use a in blast)
  moreover have "b \<in> set (users d')" if "b \<in> set (users d) \<and> u_id b \<noteq> i \<or> b = user'" for b
    using that user unfolding assms(6) by (auto simp: update_row_def in_set_update_where)
  ultimately show ?thesis by (auto simp: admin_remains_def)
qed

lemma sessions_ok_update:
  assumes "sessions_ok d" "unique_ok d" "lookup_row u_id i (users d) = Some user" "u_id user' = i"
    and users: "users d' = update_row u_id i (\<lambda>_. user') (users d)"
    and sessions: "\<And>s. s \<in> set (auth_sessions d') \<Longrightarrow> as_revoked_at s = None \<Longrightarrow>
      s \<in> set (auth_sessions d) \<and> (as_user s = i \<longrightarrow> u_status user' = User_ACTIVE)"
  shows "sessions_ok d'"
  unfolding sessions_ok_def
proof (intro ballI impI)
  fix s assume s: "s \<in> set (auth_sessions d')" "as_revoked_at s = None"
  note old = sessions [OF s] lookup_row_SomeD [OF assms(3)]
  with assms(1) s obtain u where u: "u \<in> set (users d)" "u_id u = as_user s" "u_status u = User_ACTIVE"
    unfolding sessions_ok_def by blast
  show "\<exists>u\<in>set (users d'). u_id u = as_user s \<and> u_status u = User_ACTIVE"
  proof (cases "as_user s = i")
    case True
    have "user' \<in> set (users d')" using old unfolding users by (auto simp: update_row_def in_set_update_where)
    with True old assms(4) show ?thesis by auto
  next
    case False
    with u have "u \<in> set (users d')"
      unfolding users update_row_def in_set_update_where by (intro bexI [of _ u]) auto
    with u show ?thesis by auto
  qed
qed

lemma sessions_ok_fewer:
  assumes "sessions_ok d" "users d' = users d"
    and "\<And>s. s \<in> set (auth_sessions d') \<Longrightarrow> as_revoked_at s = None \<Longrightarrow> s \<in> set (auth_sessions d)"
  shows "sessions_ok d'"
  using assms unfolding sessions_ok_def by metis

lemma unrevoked_update:
  assumes "\<And>s. as_revoked_at (f s) \<noteq> None"
    "s \<in> set (update_where P f rows)" "as_revoked_at s = None"
  shows "s \<in> set rows \<and> \<not> P s"
proof -
  obtain r where r: "r \<in> set rows" "s = (if P r then f r else r)"
    using assms(2) by (auto simp: in_set_update_where)
  then show ?thesis using assms(1) [of r] assms(3) by (cases "P r") simp_all
qed

lemma identity_ok_frame:
  assumes "identity_ok d" "unique_ok d'" "users d' = users d" "auth_sessions d' = auth_sessions d"
    "projects d' = projects d" "members d' = members d"
  shows "identity_ok d'"
  using assms by (simp add: identity_ok_def admin_remains_def sessions_ok_def projects_led_def)

lemma keep_project_admin_Inr:
  "keep_project_admin project loses d = Inr () \<Longrightarrow> loses \<Longrightarrow> 1 < count_rows (project_admin_of project) (members d)"
  by (auto simp: keep_project_admin_def split: if_split_asm)

text \<open>
  A project stays led when one member row is replaced or dropped: either that row was no
  administrator of the project, or it still is one, or there is a second one.
\<close>

lemma projects_led_change:
  assumes "projects_led d" "unique_ok d" "old \<in> set (members d)" "m_project old = project"
    and "projects d' = projects d"
    and kept: "\<And>n. n \<in> set (members d) \<Longrightarrow> m_id n \<noteq> m_id old \<Longrightarrow> n \<in> set (members d')"
    and "m_role old = PROJECT_ADMIN \<Longrightarrow> (\<exists>n\<in>set (members d'). project_admin_of project n)
      \<or> 1 < count_rows (project_admin_of project) (members d)"
  shows "projects_led d'"
  unfolding projects_led_def
proof
  fix p assume "p \<in> set (projects d')"
  with assms(1,5) obtain n where n: "n \<in> set (members d)" "project_admin_of (p_id p) n"
    by (auto simp: projects_led_def)
  show "\<exists>m\<in>set (members d'). project_admin_of (p_id p) m"
  proof (cases "m_id n = m_id old")
    case True
    then have "n = old" using unique_on_eq [OF unique_people_of(4) [OF assms(2)]] n(1) assms(3) by blast
    with n assms(4) have "p_id p = project" "m_role old = PROJECT_ADMIN" by (auto simp: project_admin_of_def)
    with assms(7) count_rows_other [OF unique_people_of(4) [OF assms(2)], of "project_admin_of project" "m_id old"] kept
    show ?thesis by blast
  qed (use n kept in blast)
qed

lemma member_upsert_led:
  assumes "store_member x project i role p d = Inr (d', m, action)" "projects_led d" "unique_ok d"
  shows "projects_led d'"
proof -
  note stored = store_member_Inr [OF assms(1)]
  show ?thesis
  proof (cases "membership project i d")
    case None
    with stored have "members d' = members d @ [m]" "projects d' = projects d" by auto
    with assms(2) show ?thesis by (auto simp: projects_led_def)
  next
    case (Some old)
    then have old: "old \<in> set (members d)" "m_project old = project" by (auto simp: membership_def dest: lookup_row_SomeD)
    from Some stored have m: "members d' = update_row m_id (m_id old) (\<lambda>_. m) (members d)" "m_id m = m_id old"
      "m_project m = project" "m_role m = role" "projects d' = projects d"
      "keep_project_admin project (m_role old = PROJECT_ADMIN \<and> role \<noteq> PROJECT_ADMIN) d = Inr ()"
      by auto
    have "m \<in> set (members d')" using old(1) unfolding m(1) update_row_def in_set_update_where by (intro bexI [of _ old]) auto
    then have admin: "role = PROJECT_ADMIN \<Longrightarrow> \<exists>n\<in>set (members d'). project_admin_of project n"
      using m(3,4) by (auto simp: project_admin_of_def)
    show ?thesis
    proof (rule projects_led_change [OF assms(2,3) old m(5)])
      fix n assume "n \<in> set (members d)" "m_id n \<noteq> m_id old"
      then show "n \<in> set (members d')" unfolding m(1) update_row_def in_set_update_where by (intro bexI [of _ n]) auto
    next
      assume "m_role old = PROJECT_ADMIN"
      with keep_project_admin_Inr [OF m(6)] admin
      show "(\<exists>n\<in>set (members d'). project_admin_of project n) \<or> 1 < count_rows (project_admin_of project) (members d)"
        by (cases "role = PROJECT_ADMIN") auto
    qed
  qed
qed

lemma current_principal_user:
  assumes "current_principal x authorization d = Inr p"
  obtains s u token where "bearer_token authorization = Inr token" "s \<in> set (auth_sessions d)"
    "as_token_hash s = session_token_hash x token" "as_user s = u_id u" "u \<in> set (users d)"
    "live_session (txn_now x) s u" "pr_user p = u_id u" "pr_role p = u_role u"
proof -
  obtain token where token: "bearer_token authorization = Inr token"
    using assms unfolding current_principal_def by (elim bind_outcome_InrE)
  note call = assms [unfolded current_principal_def token bind_outcome_simps]
  from call obtain s u where found: "session_with_user (\<lambda>s. as_token_hash s = session_token_hash x token) d = Some (s, u)"
    by (auto split: option.splits)
  from call [unfolded found] session_with_user_Some [OF found] show thesis
    by (intro that [OF token, of s u]) (auto split: if_split_asm)
qed

lemma identity_call_keeps: "identity_call d d' \<Longrightarrow> identity_ok d \<Longrightarrow> identity_ok d'"
proof (induction rule: identity_call.induct)
  case (Bootstrap x kdf salt u provided configured d d' user)
  note eff = bootstrap_admin_Inr [OF Bootstrap(1)]
  from Bootstrap(2) eff have "sessions_ok d'"
    by (auto simp: identity_ok_def sessions_ok_def)
  with Bootstrap(2) eff show ?case by (auto simp: identity_ok_def admin_remains_def projects_led_def)
next
  case (User_create x kdf salt u p d d' user)
  note eff = create_user_Inr [OF User_create(1)]
  moreover obtain v where "v \<in> set (users d)" using current_principal_user [OF User_create(2)] by blast
  then have "users d \<noteq> []" by auto
  ultimately show ?case
    using User_create(3) by (auto simp: identity_ok_def admin_remains_def projects_led_def sessions_ok_def)
next
  case (Login x kdf random ttl username password d d' user token expires)
  note eff = authenticate_Inr [OF Login(1)]
  have "sessions_ok d'"
    using Login(2) eff lookup_row_SomeD [OF eff(1)] by (auto simp: identity_ok_def sessions_ok_def new_session_def)
  with Login(2) eff show ?case by (simp add: identity_ok_def admin_remains_def projects_led_def)
next
  case (Logout x p d d')
  note eff = logout_Inr [OF Logout(1)]
  show ?case
  proof (cases "d' = d")
    case False
    with eff have "sessions_ok d'"
      using Logout(3) by (auto intro!: sessions_ok_fewer [of d] dest!: unrevoked_update [rotated] simp: identity_ok_def update_row_def)
    with False Logout(3) eff show ?thesis by (simp add: identity_ok_def admin_remains_def projects_led_def)
  qed (use Logout(3) in simp)
next
  case (User_update x i v p d d' user')
  from User_update(1) show ?case
  proof (rule update_user_Inr)
    fix user
    assume eff: "lookup_row u_id i (users d) = Some user" "user' = apply_user_update v user"
      "ensure_admin_remains user (u_role user') (u_status user') d = Inr ()"
      "users d' = update_row u_id i (\<lambda>_. user') (users d)"
      "auth_sessions d' = (if u_status user' = User_DISABLED
         then update_where (\<lambda>s. as_user s = i \<and> as_revoked_at s = None) (\<lambda>s. s\<lparr>as_revoked_at := Some (txn_now x)\<rparr>) (auth_sessions d)
         else auth_sessions d)"
      "projects d' = projects d" "members d' = members d" "unique_ok d'"
    then have i: "u_id user' = i" by (auto simp: apply_user_update_def dest: lookup_row_SomeD)
    have "admin_remains d'"
      by (rule admin_remains_update [OF _ _ eff(1) i _ eff(4)])
        (use User_update(3) eff(3) in \<open>auto simp: identity_ok_def ensure_admin_remains_def active_admin_def split: if_split_asm\<close>)
    moreover have "sessions_ok d'"
    proof (rule sessions_ok_update [OF _ _ eff(1) i eff(4)])
      fix s assume "s \<in> set (auth_sessions d')" "as_revoked_at s = None"
      then show "s \<in> set (auth_sessions d) \<and> (as_user s = i \<longrightarrow> u_status user' = User_ACTIVE)"
        using unrevoked_update [of "\<lambda>s. s\<lparr>as_revoked_at := Some (txn_now x)\<rparr>" s] unfolding eff(5)
        by (cases "u_status user'") auto
    qed (use User_update(3) in \<open>simp_all add: identity_ok_def\<close>)
    ultimately show ?thesis using User_update(3) eff by (simp add: identity_ok_def projects_led_def)
  qed
next
  case (Password_reset x kdf salt i password p d d' user')
  from Password_reset(1) show ?case
  proof (rule reset_user_password_Inr)
    fix user
    assume eff: "lookup_row u_id i (users d) = Some user" "user' = user\<lparr>u_password_hash := hash_password kdf salt password\<rparr>"
      "users d' = update_row u_id i (\<lambda>_. user') (users d)"
      "auth_sessions d' = update_where (\<lambda>s. as_user s = i \<and> as_revoked_at s = None)
         (\<lambda>s. s\<lparr>as_revoked_at := Some (txn_now x)\<rparr>) (auth_sessions d)"
      "projects d' = projects d" "members d' = members d" "unique_ok d'"
    then have i: "u_id user' = i" by (auto dest: lookup_row_SomeD)
    have "admin_remains d'"
      by (rule admin_remains_update [OF _ _ eff(1) i _ eff(3)])
        (use Password_reset(3) eff(2) in \<open>auto simp: identity_ok_def active_admin_def\<close>)
    moreover have "sessions_ok d'"
    proof (rule sessions_ok_update [OF _ _ eff(1) i eff(3)])
      fix s assume "s \<in> set (auth_sessions d')" "as_revoked_at s = None"
      then show "s \<in> set (auth_sessions d) \<and> (as_user s = i \<longrightarrow> u_status user' = User_ACTIVE)"
        using unrevoked_update [of "\<lambda>s. s\<lparr>as_revoked_at := Some (txn_now x)\<rparr>" s] unfolding eff(4) by auto
    qed (use Password_reset(3) in \<open>simp_all add: identity_ok_def\<close>)
    ultimately show ?thesis using Password_reset(3) eff by (simp add: identity_ok_def projects_led_def)
  qed
next
  case (Session_revoke x i p d d' s user)
  note eff = revoke_managed_session_Inr [OF Session_revoke(1)]
  show ?case
  proof (cases "d' = d")
    case False
    with eff have "sessions_ok d'"
      using Session_revoke(3) by (auto intro!: sessions_ok_fewer [of d] dest!: unrevoked_update [rotated] simp: identity_ok_def update_row_def)
    with False Session_revoke(3) eff show ?thesis by (simp add: identity_ok_def admin_remains_def projects_led_def)
  qed (use Session_revoke(3) in simp)
next
  case (Member_upsert x project i role p d d' m user)
  from Member_upsert(1) show ?case
  proof (rule upsert_project_member_Inr)
    fix d1 action
    assume eff: "store_member x project i role p d = Inr (d1, m, action)" "members d' = members d1" "users d' = users d1"
      "auth_sessions d' = auth_sessions d1" "projects d' = projects d1" "unique_ok d'"
    with store_member_Inr [OF eff(1)] member_upsert_led [OF eff(1)] Member_upsert(3) show ?thesis
      by (simp add: identity_ok_def admin_remains_def sessions_ok_def projects_led_def)
  qed
next
  case (Member_remove x project i p d d')
  from Member_remove(1) show ?case
  proof (rule remove_project_member_Inr)
    fix m
    assume eff: "membership project i d = Some m" "keep_project_admin project (m_role m = PROJECT_ADMIN) d = Inr ()"
      "members d' = filter (\<lambda>n. m_id n \<noteq> m_id m) (members d)" "users d' = users d"
      "auth_sessions d' = auth_sessions d" "projects d' = projects d" "unique_ok d'"
    then have m: "m \<in> set (members d)" "m_project m = project" by (auto simp: membership_def dest: lookup_row_SomeD)
    have "projects_led d'"
      by (rule projects_led_change [OF _ _ m eff(6)])
        (use Member_remove(3) eff keep_project_admin_Inr [OF eff(2)] in \<open>auto simp: identity_ok_def\<close>)
    with Member_remove(3) eff show ?thesis by (simp add: identity_ok_def admin_remains_def sessions_ok_def)
  qed
next
  case (Project_opened x pc p d d' project authorization)
  note eff = create_project_Inr [OF Project_opened(1)] create_project_people [OF Project_opened(1)]
  have "projects_led d'"
    using Project_opened(3) eff(3,4) by (auto simp: identity_ok_def projects_led_def project_admin_of_def)
  with Project_opened(3) eff show ?case by (simp add: identity_ok_def admin_remains_def sessions_ok_def)
qed

subsection \<open>Properties\<close>

text \<open>
  C21: accounts stay in order.  Every service on users, sessions and members, and the creation
  of projects, called with the principal of a live session, keeps the unique keys and these three promises: once there is a
  user there is an active system administrator, an unrevoked session belongs to an active user,
  and every project has a project administrator among its members.
\<close>

theorem identity_preserved:
  assumes "identity_call d d'" and "identity_ok d"
  shows "identity_ok d'"
  using assms by (rule identity_call_keeps)

text \<open>Two administrators, one of them signed in.\<close>

definition demo_people_db :: db where
  "demo_people_db = empty_db\<lparr>
     users := [\<lparr>u_id = 1, u_username = ''root'', u_display_name = ''Root'', u_password_hash = ''h1'',
         u_role = SYSTEM_ADMIN, u_status = User_ACTIVE\<rparr>,
       \<lparr>u_id = 2, u_username = ''ann'', u_display_name = ''Ann'', u_password_hash = ''h2'',
         u_role = SYSTEM_ADMIN, u_status = User_ACTIVE\<rparr>],
     auth_sessions := [\<lparr>as_id = 11, as_user = 1, as_token_hash = ''xtok'', as_expires_at = 2000000000000,
         as_created_at = 0, as_revoked_at = None\<rparr>,
       \<lparr>as_id = 12, as_user = 2, as_token_hash = ''xann'', as_expires_at = 2000000000000,
         as_created_at = 0, as_revoked_at = None\<rparr>]\<rparr>"

definition demo_principal_root :: principal where
  "demo_principal_root = \<lparr>pr_user = 1, pr_session = 11, pr_username = ''root'', pr_display_name = ''Root'',
     pr_role = SYSTEM_ADMIN\<rparr>"

definition disable_user :: user_update where
  "disable_user = \<lparr>uu_display_name = None, uu_role = None, uu_status = Some User_DISABLED\<rparr>"

lemma demo_people_ok: "identity_ok demo_people_db"
  by (simp add: identity_ok_def demo_people_db_def empty_db_def unique_ok_def unique_people_def unique_assets_def
      unique_packages_def unique_runners_def unique_runs_def unique_schedules_def unique_quality_def
      unique_some_def unique_on_def admin_remains_def active_admin_def sessions_ok_def projects_led_def)

lemma demo_people_calls:
  shows demo_signs_in: "current_principal (demo_txn 1003 300) (Some ''Bearer tok'') demo_people_db = Inr demo_principal_root"
  and demo_locks_out: "case update_user (demo_txn 1003 300) 2 disable_user demo_principal_root demo_people_db of
      Inl _ \<Rightarrow> False | Inr (d', u) \<Rightarrow> map u_status (users d') = [User_ACTIVE, User_DISABLED] \<and> u_status u = User_DISABLED
        \<and> current_principal (demo_txn 1004 400) (Some ''Bearer tok'') d' = Inr demo_principal_root"
  by code_simp+

lemma demo_disables:
  "\<exists>d' u. update_user (demo_txn 1003 300) 2 disable_user demo_principal_root demo_people_db = Inr (d', u)
     \<and> map u_status (users d') = [User_ACTIVE, User_DISABLED] \<and> u_status u = User_DISABLED"
  using demo_locks_out by (auto split: sum.splits)

theorem identity_preserved_witness:
  "\<exists>d'. identity_call demo_people_db d' \<and> map u_status (users d') = [User_ACTIVE, User_DISABLED] \<and> identity_ok d'"
  using demo_disables identity_preserved [OF _ demo_people_ok] User_update [OF _ demo_signs_in] by metis

text \<open>
  C22: a disabled account and a reset password lock out at once.  After an administrator disabled
  a user or reset the password, no header, whatever token it carries and at whatever time,
  signs in as that user until a new login creates a session.
\<close>

theorem lockout_is_immediate:
  assumes "update_user x i v p d = Inr (d', user) \<and> u_status user = User_DISABLED
      \<or> reset_user_password x kdf salt i password p d = Inr (d', user)"
    and "current_principal y authorization d' = Inr q"
  shows "pr_user q \<noteq> i"
proof
  assume "pr_user q = i"
  with assms(2) obtain s where s: "s \<in> set (auth_sessions d')" "as_user s = i" "as_revoked_at s = None"
    by (elim current_principal_user) (auto simp: live_session_def)
  have "auth_sessions d' = update_where (\<lambda>s. as_user s = i \<and> as_revoked_at s = None)
      (\<lambda>s. s\<lparr>as_revoked_at := Some (txn_now x)\<rparr>) (auth_sessions d)"
    using assms(1) by (auto elim: update_user_Inr reset_user_password_Inr)
  with s unrevoked_update [of "\<lambda>s. s\<lparr>as_revoked_at := Some (txn_now x)\<rparr>" s] show False by auto
qed

theorem lockout_is_immediate_witness:
  "\<exists>d' user. update_user (demo_txn 1003 300) 2 disable_user demo_principal_root demo_people_db = Inr (d', user)
     \<and> (\<exists>q. current_principal (demo_txn 1004 400) (Some ''Bearer tok'') d' = Inr q \<and> pr_user q \<noteq> 2)"
proof -
  obtain d' u where "update_user (demo_txn 1003 300) 2 disable_user demo_principal_root demo_people_db = Inr (d', u)"
    "u_status u = User_DISABLED" "current_principal (demo_txn 1004 400) (Some ''Bearer tok'') d' = Inr demo_principal_root"
    using demo_locks_out by (auto split: sum.splits)
  with lockout_is_immediate show ?thesis by metis
qed

lemma encode_no_space: "c \<in> set (encode bs) \<Longrightarrow> \<not> is_space c"
proof -
  have "list_all (\<lambda>c. \<not> is_space c) alphabet" by (simp add: alphabet_def is_space_def)
  moreover have "c \<in> set (encode bs) \<Longrightarrow> c \<in> set alphabet"
    by (induction bs rule: urlsafe_b64encode.induct) (auto simp: sextet_char_def length_alphabet)
  ultimately show "c \<in> set (encode bs) \<Longrightarrow> \<not> is_space c" by (auto simp: list_all_iff)
qed

lemma strip_no_space: "(\<And>c. c \<in> set s \<Longrightarrow> \<not> is_space c) \<Longrightarrow> strip s = s"
proof -
  have front: "(\<And>c. c \<in> set s \<Longrightarrow> \<not> is_space c) \<Longrightarrow> dropWhile is_space s = s" for s
    by (cases s) auto
  assume "\<And>c. c \<in> set s \<Longrightarrow> \<not> is_space c"
  then have "dropWhile is_space s = s" "dropWhile is_space (rev s) = rev s"
    using front [of s] front [of "rev s"] by auto
  then show "strip s = s" by (simp add: strip_def)
qed

lemma bearer_scheme: "casefold ''Bearer'' = ''bearer''"
  by code_simp

lemma bearer_token_issued:
  assumes "random \<noteq> []"
  shows "bearer_token (Some (''Bearer '' @ issue_session_token random)) = Inr (issue_session_token random)"
proof -
  have "encode random \<noteq> []" using assms by (cases random rule: urlsafe_b64encode.cases) auto
  moreover have "strip (encode random) = encode random" by (rule strip_no_space) (rule encode_no_space)
  ultimately show ?thesis
    by (simp add: bearer_token_def Let_def issue_session_token_def bearer_scheme)
qed

text \<open>
  A login lasts exactly until it expires.  The token of a successful login, sent as a bearer
  header, signs in as the user who logged in at every instant before the expiry and is refused
  from then on.
\<close>

theorem login_lasts_until_expiry:
  assumes "authenticate x kdf random ttl username password d = Inr (d', user, token, expires)"
    and "random \<noteq> []" and "txn_digest y = txn_digest x"
  shows "current_principal y (Some (''Bearer '' @ token)) d' =
    (if txn_now y < expires
     then Inr \<lparr>pr_user = u_id user, pr_session = txn_uuid x Draw_row, pr_username = u_username user,
       pr_display_name = u_display_name user, pr_role = u_role user\<rparr>
     else Inl (AuthenticationRequired ''invalid or expired session''))"
proof -
  note login = authenticate_Inr [OF assms(1)]
  let ?s = "new_session x (u_id user) token expires"
  have "find (\<lambda>s. as_token_hash s = session_token_hash y token) (auth_sessions d') = Some ?s"
    using lookup_row_unique [of as_token_hash "auth_sessions d'" ?s] unique_people_of(3) [OF login(10)] login(6) assms(3)
    by (simp add: unique_on_def lookup_row_def session_token_hash_def new_session_def)
  moreover have "lookup_row u_id (u_id user) (users d') = Some user"
    using lookup_row_unique [of u_id "users d'" user] unique_people_of(1) [OF login(10)] lookup_row_SomeD [OF login(1)] login(7)
    by (simp add: unique_on_def)
  ultimately have "session_with_user (\<lambda>s. as_token_hash s = session_token_hash y token) d' = Some (?s, user)"
    by (simp add: session_with_user_def new_session_def)
  moreover have "bearer_token (Some (''Bearer '' @ token)) = Inr token"
    unfolding login(4) using assms(2) by (rule bearer_token_issued)
  ultimately show ?thesis
    using login(2) unfolding current_principal_def by (simp add: live_session_def new_session_def)
qed

definition demo_login_db :: db where
  "demo_login_db = demo_people_db\<lparr>users := map (\<lambda>u. u\<lparr>u_password_hash := hash_password demo_kdf [7, 9] ''correct horse''\<rparr>)
     (users demo_people_db)\<rparr>"

lemma demo_logs_in:
  "\<exists>d' user. authenticate (demo_txn 1003 300) demo_kdf [1, 2, 3] 12 ''ann'' ''correct horse'' demo_login_db
     = Inr (d', user, issue_session_token [1, 2, 3], microseconds (1003 + 12 * 3600)) \<and> u_id user = 2"
proof -
  have user: "lookup_row u_username ''ann'' (users demo_login_db) = Some
      \<lparr>u_id = 2, u_username = ''ann'', u_display_name = ''Ann'',
       u_password_hash = hash_password demo_kdf [7, 9] ''correct horse'', u_role = SYSTEM_ADMIN, u_status = User_ACTIVE\<rparr>"
    by (simp add: demo_login_db_def demo_people_db_def row_simps)
  have "length (issue_session_token [1, 2, 3]) = 4" by (simp add: issue_session_token_def)
  then have "issue_session_token [1, 2, 3] \<noteq> ''tok''" "issue_session_token [1, 2, 3] \<noteq> ''ann''" by auto
  then have "unique_ok (demo_login_db\<lparr>auth_sessions := auth_sessions demo_login_db
      @ [new_session (demo_txn 1003 300) 2 (issue_session_token [1, 2, 3]) (microseconds (1003 + 12 * 3600))]\<rparr>)"
    by (simp add: demo_login_db_def demo_people_db_def empty_db_def unique_ok_def unique_people_def
        unique_assets_def unique_packages_def unique_runners_def unique_runs_def unique_schedules_def
        unique_quality_def unique_some_def unique_on_def new_session_def session_token_hash_def
        demo_txn_def)
  moreover have "txn_now (demo_txn 1003 300) + hours 12 = microseconds (1003 + 12 * 3600)"
    by (simp add: demo_txn_def hours_def microseconds_def)
  ultimately show ?thesis
    by (simp add: authenticate_def user password_is_valid_def verify_hash_iff [OF demo_kdf_length] Let_def commit_def)
qed

theorem login_lasts_until_expiry_witness:
  "\<exists>d' user expires. authenticate (demo_txn 1003 300) demo_kdf [1, 2, 3] 12 ''ann'' ''correct horse'' demo_login_db
      = Inr (d', user, issue_session_token [1, 2, 3], expires)
    \<and> (\<exists>p. current_principal (demo_txn 1004 300) (Some (''Bearer '' @ issue_session_token [1, 2, 3])) d' = Inr p
        \<and> pr_user p = 2)"
proof -
  obtain d' user where login: "authenticate (demo_txn 1003 300) demo_kdf [1, 2, 3] 12 ''ann'' ''correct horse'' demo_login_db
      = Inr (d', user, issue_session_token [1, 2, 3], microseconds (1003 + 12 * 3600))" and "u_id user = 2"
    using demo_logs_in by blast
  moreover have "txn_now (demo_txn 1004 300) < microseconds (1003 + 12 * 3600)"
    by (simp add: demo_txn_def microseconds_def)
  ultimately show ?thesis
    using login_lasts_until_expiry [OF login, of "demo_txn 1004 300"] by simp
qed

end
