(* ===== verification/Governance.thy ===== *)
theory Governance
  imports Test_Assets Scenario Python_Text
begin

section \<open>Governed changes of the test cases\<close>

text \<open>
  \<open>governance.py\<close> and \<open>case_change_policy.py\<close>: a change request composes a candidate baseline
  from a released one, its affected cases are validated by a run, somebody else reviews it, a full
  regression runs and the candidate is published.  The JSON documents the source compares
  (\<open>model_dump\<close> without absent fields) are the records themselves: two documents agree on a key
  exactly when the records agree on the field.
\<close>

subsection \<open>The policy on changed fields\<close>

definition EXECUTION_RELEVANT_FIELDS :: "string list" where
  "EXECUTION_RELEVANT_FIELDS = [''$case'', ''module_key'', ''module_name'', ''preconditions'', ''steps'',
     ''assertion'', ''enabled'', ''timeout_seconds'', ''execution_group'']"

text \<open>The keys of a case document, sorted, each with the agreement of two cases on it.\<close>

definition case_fields :: "(string \<times> (case_definition \<Rightarrow> case_definition \<Rightarrow> bool)) list" where
  "case_fields =
     [(''assertion'', \<lambda>a b. case_assertion a = case_assertion b),
      (''case_code'', \<lambda>a b. case_code a = case_code b),
      (''case_id'', \<lambda>a b. case_id a = case_id b),
      (''data_type'', \<lambda>a b. case_data_type a = case_data_type b),
      (''enabled'', \<lambda>a b. case_enabled a = case_enabled b),
      (''execution_group'', \<lambda>a b. case_execution_group a = case_execution_group b),
      (''expected_result'', \<lambda>a b. case_expected_result a = case_expected_result b),
      (''module_key'', \<lambda>a b. case_module_key a = case_module_key b),
      (''module_name'', \<lambda>a b. case_module_name a = case_module_name b),
      (''notes'', \<lambda>a b. case_notes a = case_notes b),
      (''preconditions'', \<lambda>a b. case_preconditions a = case_preconditions b),
      (''priority'', \<lambda>a b. case_priority a = case_priority b),
      (''source_instructions'', \<lambda>a b. case_source_instructions a = case_source_instructions b),
      (''source_trace'', \<lambda>a b. case_source_trace a = case_source_trace b),
      (''steps'', \<lambda>a b. case_steps a = case_steps b),
      (''tags'', \<lambda>a b. case_tags a = case_tags b),
      (''test_point'', \<lambda>a b. case_test_point a = case_test_point b),
      (''timeout_seconds'', \<lambda>a b. case_timeout a = case_timeout b),
      (''title'', \<lambda>a b. case_title a = case_title b)]"

definition changed_fields :: "case_definition option \<Rightarrow> case_definition option \<Rightarrow> string list" where
  "changed_fields before after =
     (case (before, after) of
        (Some b, Some a) \<Rightarrow> map fst (filter (\<lambda>(name, agree). \<not> agree b a) case_fields)
      | _ \<Rightarrow> [''$case''])"

definition requires_execution_validation :: "change_type \<Rightarrow> case_definition option \<Rightarrow> string list \<Rightarrow> bool" where
  "requires_execution_validation kind after names =
     (if kind \<notin> {ADD, MODIFY} then False
      else case after of
        None \<Rightarrow> False
      | Some c \<Rightarrow> case_enabled c \<and> (\<exists>f\<in>set names. f \<in> set EXECUTION_RELEVANT_FIELDS))"

subsection \<open>Composing the candidate\<close>

record change_operation =
  op_type :: change_type
  op_case_id :: "uuid option"
  op_case :: "case_definition option"

definition validate_shape :: "change_operation \<Rightarrow> service_error + change_operation" where
  "validate_shape op =
     (case op_type op of
        ADD \<Rightarrow> if op_case op = None \<or> op_case_id op \<noteq> None
          then Inl (Value_error ''ADD requires case and must omit case_id'') else Inr op
      | MODIFY \<Rightarrow> if op_case op = None \<or> op_case_id op = None \<or> map_option case_id (op_case op) \<noteq> op_case_id op
          then Inl (Value_error ''MODIFY requires matching case_id and case'') else Inr op
      | DELETE \<Rightarrow> if op_case_id op = None \<or> op_case op \<noteq> None
          then Inl (Value_error ''DELETE requires case_id and must omit case'') else Inr op)"

text \<open>\<open>assert operation.case_id is not None\<close>: an \<open>AssertionError\<close>, which no shape allows.\<close>

definition operation_case_id :: "change_operation \<Rightarrow> service_error + uuid" where
  "operation_case_id op =
     (case op_case op of
        Some c \<Rightarrow> Inr (case_id c)
      | None \<Rightarrow> (case op_case_id op of None \<Rightarrow> Inl (Value_error ''assert operation.case_id is not None'') | Some i \<Rightarrow> Inr i))"

text \<open>
  \<open>result_by_id\<close> as the list of its values, in the order of the dictionary: every case is stored
  under its own id.
\<close>

definition put_case :: "case_definition \<Rightarrow> case_definition list \<Rightarrow> case_definition list" where
  "put_case c cs =
     (if case_id c \<in> case_id ` set cs then map (\<lambda>b. if case_id b = case_id c then c else b) cs else cs @ [c])"

definition change_item :: "uuid \<Rightarrow> nat \<Rightarrow> change_operation \<Rightarrow> uuid \<Rightarrow> case_definition option \<Rightarrow> string \<Rightarrow> change_item_row" where
  "change_item request n op i before code =
     \<lparr>ci_request = request, ci_sequence = n, ci_type = op_type op, ci_case_id = i, ci_case_code = code,
      ci_before = before, ci_after = op_case op, ci_changed = changed_fields before (op_case op)\<rparr>"

definition apply_operation ::
  "uuid \<Rightarrow> case_definition list \<Rightarrow> nat \<Rightarrow> change_operation \<Rightarrow> case_definition list \<times> case_definition list
   \<Rightarrow> service_error + (case_definition list \<times> case_definition list) \<times> change_item_row" where
  "apply_operation request base n op acc =
     (let (result, additions) = acc in
      bind_outcome (operation_case_id op) (\<lambda>i.
      let before = lookup_row case_id i base in
      case (op_type op, op_case op, before) of
        (ADD, None, _) \<Rightarrow> Inl (Value_error ''assert after_case is not None'')
      | (ADD, Some c, Some _) \<Rightarrow> Inl (InvalidRequest ''ADD case_id already exists: {}'')
      | (ADD, Some c, None) \<Rightarrow>
          if case_code c \<in> case_code ` set result then Inl (InvalidRequest ''ADD case_code already exists: {}'')
          else Inr ((put_case c result, additions @ [c]), change_item request n op i before (case_code c))
      | (MODIFY, None, _) \<Rightarrow> Inl (Value_error ''assert after_case is not None'')
      | (MODIFY, Some c, None) \<Rightarrow> Inl (InvalidRequest ''MODIFY case_id does not exist: {}'')
      | (MODIFY, Some c, Some b) \<Rightarrow>
          if case_code b \<noteq> case_code c then Inl (InvalidRequest ''MODIFY cannot change the stable case_code'')
          else if b = c then Inl (InvalidRequest ''MODIFY has no field changes: {}'')
          else Inr ((put_case c result, additions), change_item request n op i before (case_code c))
      | (DELETE, _, None) \<Rightarrow> Inl (InvalidRequest ''DELETE case_id does not exist: {}'')
      | (DELETE, after, Some b) \<Rightarrow>
          Inr ((filter (\<lambda>c. case_id c \<noteq> i) result, additions),
            change_item request n op i before (case_code (given_or after b)))))"

fun apply_operations ::
  "uuid \<Rightarrow> case_definition list \<Rightarrow> nat \<Rightarrow> change_operation list \<Rightarrow> case_definition list \<times> case_definition list
   \<Rightarrow> service_error + (case_definition list \<times> case_definition list) \<times> change_item_row list" where
  "apply_operations request base n [] acc = Inr (acc, [])"
| "apply_operations request base n (op # ops) acc =
     bind_outcome (apply_operation request base n op acc) (\<lambda>(acc', item).
     bind_outcome (apply_operations request base (Suc n) ops acc') (\<lambda>(acc'', items).
       Inr (acc'', item # items)))"

definition ordered_cases ::
  "case_definition list \<Rightarrow> case_definition list \<Rightarrow> case_definition list \<Rightarrow> case_definition list" where
  "ordered_cases base result additions =
     concat (map (\<lambda>b. case lookup_row case_id (case_id b) result of None \<Rightarrow> [] | Some c \<Rightarrow> [c]) base) @ additions"

definition compose_candidate ::
  "txn \<Rightarrow> case_baseline \<Rightarrow> uuid \<Rightarrow> string \<Rightarrow> uuid \<Rightarrow> change_operation list
   \<Rightarrow> service_error + case_baseline \<times> change_item_row list" where
  "compose_candidate x base candidate version request ops =
     bind_outcome (validate_all operation_case_id ops) (\<lambda>ids.
     if \<not> distinct ids then Inl (InvalidRequest ''a case may only appear once in a Change Request'')
     else
     bind_outcome (apply_operations request (baseline_cases base) 1 ops (baseline_cases base, [])) (\<lambda>((result, additions), items).
     let cases = ordered_cases (baseline_cases base) result additions in
     if cases = [] then Inl (InvalidRequest ''a candidate baseline must retain at least one case'')
     else
     bind_outcome (contract (validate_cases
       \<lparr>baseline_id = candidate, baseline_project_key = baseline_project_key base, baseline_version = version,
        baseline_source = Derived_baseline (baseline_id base) (baseline_version base)
          (txn_digest x (Hash_baseline base)) request,
        baseline_cases = cases\<rparr>)) (\<lambda>b. Inr (b, items))))"

subsection \<open>Creating and editing a request\<close>

definition released_base :: "uuid \<Rightarrow> uuid \<Rightarrow> db \<Rightarrow> service_error + baseline_row" where
  "released_base project i d =
     (case lookup_row b_id i (baselines d) of
        None \<Rightarrow> Inl (ResourceNotFound ''released base baseline not found in project'')
      | Some b \<Rightarrow>
          if b_project b \<noteq> project \<or> b_status b \<noteq> Baseline_RELEASED
          then Inl (ResourceNotFound ''released base baseline not found in project'') else Inr b)"

definition ensure_candidate_version_available ::
  "uuid \<Rightarrow> string \<Rightarrow> uuid option \<Rightarrow> uuid option \<Rightarrow> db \<Rightarrow> service_error + unit" where
  "ensure_candidate_version_available project version exclude_request exclude_baseline d =
     (if (\<exists>b\<in>set (baselines d). b_project b = project \<and> b_version b = version \<and> exclude_baseline \<noteq> Some (b_id b))
         \<or> (\<exists>c\<in>set (change_requests d). cr_project c = project \<and> cr_version c = version \<and> exclude_request \<noteq> Some (cr_id c))
      then Inl (ResourceConflict ''candidate baseline version already exists in this project'')
      else Inr ())"

record change_request_create =
  gc_base :: uuid
  gc_version :: string
  gc_title :: string
  gc_reason :: string
  gc_changes :: "change_operation list"

definition item_requires_validation :: "change_item_row \<Rightarrow> bool" where
  "item_requires_validation c = requires_execution_validation (ci_type c) (ci_after c) (ci_changed c)"

definition initial_validation :: "change_item_row list \<Rightarrow> validation_status" where
  "initial_validation items = (if list_ex item_requires_validation items then PENDING_EXECUTION else NOT_REQUIRED)"

definition new_change_request ::
  "uuid \<Rightarrow> uuid \<Rightarrow> uuid \<Rightarrow> change_request_create \<Rightarrow> uuid \<Rightarrow> baseline_row \<Rightarrow> digest \<Rightarrow> case_baseline
   \<Rightarrow> change_item_row list \<Rightarrow> change_request_row" where
  "new_change_request request candidate project u actor base_row digest b items =
     \<lparr>cr_id = request, cr_project = project, cr_base = b_id base_row, cr_candidate = candidate,
      cr_version = baseline_version b, cr_digest = digest, cr_document = b, cr_title = gc_title u,
      cr_reason = gc_reason u, cr_status = Change_DRAFT, cr_validation_status = initial_validation items,
      cr_created_by = actor, cr_submitted_at = None, cr_reviewed_at = None, cr_published_at = None,
      cr_published_baseline = None, cr_validation_run = None\<rparr>"

definition create_change_request ::
  "txn \<Rightarrow> uuid \<Rightarrow> change_request_create \<Rightarrow> uuid \<Rightarrow> db \<Rightarrow> service_error + db \<times> change_request_row" where
  "create_change_request x project u actor d =
     bind_outcome (project_or_404 d project) (\<lambda>_.
     bind_outcome (released_base project (gc_base u) d) (\<lambda>base_row.
     bind_outcome (ensure_candidate_version_available project (gc_version u) None None d) (\<lambda>_.
     let request = txn_uuid x Draw_row; candidate = txn_uuid x Draw_baseline in
     bind_outcome (contract (parse_baseline (b_document base_row))) (\<lambda>base.
     bind_outcome (compose_candidate x base candidate (gc_version u) request (gc_changes u)) (\<lambda>(b, items).
     let digest = txn_digest x (Hash_baseline b);
         c = new_change_request request candidate project u actor base_row digest b items;
         d1 = d\<lparr>change_requests := change_requests d @ [c]\<rparr>
     in if \<not> unique_ok d1 then Inl (ResourceConflict ''candidate baseline version already exists'')
        else
        let d2 = d1\<lparr>change_items := change_items d1 @ items,
                baselines := baselines d1 @ [new_baseline project Baseline_DRAFT digest b]\<rparr>;
            d3 = audit x actor ''change_request.created'' ''change_request'' request (Some project)
              [(''base_baseline_id'', JId (b_id base_row)), (''candidate_version'', JStr (baseline_version b)),
               (''change_count'', JInt (int (length items)))] d2
        in bind_outcome (commit_unique ''candidate baseline version already exists'' d3) (\<lambda>d4. Inr (d4, c)))))))"

definition get_change_request :: "uuid \<Rightarrow> uuid \<Rightarrow> db \<Rightarrow> service_error + change_request_row" where
  "get_change_request project i d =
     require_row (ResourceNotFound ''Change Request not found in project'')
       (find (\<lambda>c. cr_id c = i \<and> cr_project c = project) (change_requests d))"

definition store_request :: "change_request_row \<Rightarrow> db \<Rightarrow> db" where
  "store_request c d = d\<lparr>change_requests := update_row cr_id (cr_id c) (\<lambda>_. c) (change_requests d)\<rparr>"

definition store_baseline :: "baseline_row \<Rightarrow> db \<Rightarrow> db" where
  "store_baseline b d = d\<lparr>baselines := update_row b_id (b_id b) (\<lambda>_. b) (baselines d)\<rparr>"

definition baseline_in_status :: "uuid \<Rightarrow> baseline_status \<Rightarrow> string \<Rightarrow> db \<Rightarrow> service_error + baseline_row" where
  "baseline_in_status i status message d =
     (case lookup_row b_id i (baselines d) of
        None \<Rightarrow> Inl (ResourceConflict message)
      | Some b \<Rightarrow> if b_status b \<noteq> status then Inl (ResourceConflict message) else Inr b)"

definition retired_baseline :: "baseline_row \<Rightarrow> baseline_row" where
  "retired_baseline b =
     b\<lparr>b_status := Baseline_SUPERSEDED, b_version := b_version b @ ''~'' @ take 8 (uuid_hex (b_id b))\<rparr>"

definition edited_request ::
  "change_request_row \<Rightarrow> change_request_create \<Rightarrow> case_baseline \<Rightarrow> digest \<Rightarrow> change_item_row list \<Rightarrow> change_request_row" where
  "edited_request c u b digest items =
     c\<lparr>cr_version := baseline_version b, cr_candidate := baseline_id b, cr_digest := digest, cr_document := b,
       cr_title := gc_title u, cr_reason := gc_reason u, cr_status := Change_DRAFT, cr_submitted_at := None,
       cr_reviewed_at := None, cr_validation_run := None, cr_validation_status := initial_validation items\<rparr>"

text \<open>\<open>gc_base\<close> is a field of \<open>ChangeRequestCreate\<close> only; an update keeps the base of the request.\<close>

definition update_change_request ::
  "txn \<Rightarrow> uuid \<Rightarrow> uuid \<Rightarrow> change_request_create \<Rightarrow> uuid \<Rightarrow> bool \<Rightarrow> db \<Rightarrow> service_error + db \<times> change_request_row" where
  "update_change_request x project i u actor is_project_admin d =
     bind_outcome (get_change_request project i d) (\<lambda>c.
     if cr_status c \<notin> {Change_DRAFT, Change_CHANGES_REQUESTED}
     then Inl (ResourceConflict ''only a draft or changes-requested item can be edited'')
     else if cr_created_by c \<noteq> actor \<and> \<not> is_project_admin
     then Inl (ResourceConflict ''only the submitter or Project Admin can edit this draft'')
     else
     bind_outcome (ensure_candidate_version_available project (gc_version u) (Some i) (Some (cr_candidate c)) d) (\<lambda>_.
     bind_outcome (released_base project (cr_base c) d) (\<lambda>base_row.
     bind_outcome (baseline_in_status (cr_candidate c) Baseline_DRAFT ''editable draft baseline is missing'' d) (\<lambda>old.
     let candidate = txn_uuid x Draw_baseline in
     bind_outcome (contract (parse_baseline (b_document base_row))) (\<lambda>base.
     bind_outcome (compose_candidate x base candidate (gc_version u) i (gc_changes u)) (\<lambda>(b, items).
     let d1 = store_baseline (retired_baseline old) d
     in if \<not> unique_ok d1 then Inl Integrity_error
        else
        let digest = txn_digest x (Hash_baseline b);
            c' = edited_request c u b digest items;
            d2 = (store_request c' d1)\<lparr>
                change_items := filter (\<lambda>m. ci_request m \<noteq> i) (change_items d1) @ items,
                baselines := baselines d1 @ [new_baseline project Baseline_DRAFT digest b]\<rparr>;
            d3 = audit x actor ''change_request.updated'' ''change_request'' i (Some project)
              [(''candidate_version'', JStr (baseline_version b)), (''change_count'', JInt (int (length items)))] d2
        in bind_outcome (commit d3) (\<lambda>d4. Inr (d4, c'))))))))"

subsection \<open>Submission and review\<close>

definition submit_change_request ::
  "txn \<Rightarrow> uuid \<Rightarrow> uuid \<Rightarrow> uuid \<Rightarrow> db \<Rightarrow> service_error + db \<times> change_request_row" where
  "submit_change_request x project i actor d =
     bind_outcome (get_change_request project i d) (\<lambda>c.
     if cr_created_by c \<noteq> actor
     then Inl (ResourceConflict ''only the Change Request submitter can submit it'')
     else if cr_status c \<noteq> Change_DRAFT
     then Inl (ResourceConflict ''only a DRAFT Change Request can be submitted'')
     else if cr_validation_status c \<notin> {Validation_run PASSED, NOT_REQUIRED}
     then Inl (ResourceConflict ''affected cases must pass draft validation before submission'')
     else
     let c' = c\<lparr>cr_status := Change_IN_REVIEW, cr_submitted_at := Some (txn_now x)\<rparr>;
         d1 = audit x actor ''change_request.submitted'' ''change_request'' i (Some project)
           [(''candidate_digest'', JStr (cr_digest c))] (store_request c' d)
     in bind_outcome (commit d1) (\<lambda>d2. Inr (d2, c')))"

fun decision_value :: "review_decision \<Rightarrow> string" where
  "decision_value APPROVE = ''APPROVE''"
| "decision_value REQUEST_CHANGES = ''REQUEST_CHANGES''"

record review_request =
  rr_decision :: review_decision
  rr_comment :: "string option"

definition require_rework_comment :: "review_request \<Rightarrow> service_error + review_request" where
  "require_rework_comment u =
     (if rr_decision u = REQUEST_CHANGES \<and> \<not> truthy (rr_comment u)
      then Inl (Value_error ''REQUEST_CHANGES requires a comment'') else Inr u)"

definition judge ::
  "txn \<Rightarrow> review_decision \<Rightarrow> change_request_row \<Rightarrow> db \<Rightarrow> service_error + db \<times> change_request_row" where
  "judge x decision c d =
     (let reviewed = c\<lparr>cr_reviewed_at := Some (txn_now x)\<rparr> in
      case decision of
        REQUEST_CHANGES \<Rightarrow>
          (let c' = reviewed\<lparr>cr_status := Change_CHANGES_REQUESTED\<rparr> in Inr (store_request c' d, c'))
      | APPROVE \<Rightarrow>
          bind_outcome (baseline_in_status (cr_candidate c) Baseline_DRAFT ''approved draft baseline is missing'' d) (\<lambda>b.
            let c' = reviewed\<lparr>cr_status := Change_CANDIDATE\<rparr>
            in Inr (store_request c' (store_baseline (b\<lparr>b_status := Baseline_CANDIDATE\<rparr>) d), c')))"

fun change_status_value :: "change_request_status \<Rightarrow> string" where
  "change_status_value Change_DRAFT = ''DRAFT''"
| "change_status_value Change_IN_REVIEW = ''IN_REVIEW''"
| "change_status_value Change_CHANGES_REQUESTED = ''CHANGES_REQUESTED''"
| "change_status_value Change_CANDIDATE = ''CANDIDATE''"
| "change_status_value Change_PUBLISHED = ''PUBLISHED''"

definition review_change_request ::
  "txn \<Rightarrow> uuid \<Rightarrow> uuid \<Rightarrow> review_request \<Rightarrow> uuid \<Rightarrow> db \<Rightarrow> service_error + db \<times> change_request_row" where
  "review_change_request x project i u reviewer d =
     bind_outcome (get_change_request project i d) (\<lambda>c.
     if cr_status c \<noteq> Change_IN_REVIEW
     then Inl (ResourceConflict ''Change Request is not awaiting review'')
     else if cr_created_by c = reviewer
     then Inl (ResourceConflict ''the submitter cannot review their own Change Request'')
     else
     let d1 = d\<lparr>approvals := approvals d @ [\<lparr>ap_request = i, ap_reviewer = reviewer, ap_decision = rr_decision u,
            ap_comment = rr_comment u, ap_at = txn_now x\<rparr>]\<rparr>
     in bind_outcome (judge x (rr_decision u) c d1) (\<lambda>(d2, c').
       let d3 = audit x reviewer ''change_request.reviewed'' ''change_request'' i (Some project)
             [(''decision'', JStr (decision_value (rr_decision u))), (''status'', JStr (change_status_value (cr_status c')))] d2
       in bind_outcome (commit_unique ''candidate baseline version or digest already exists'' d3) (\<lambda>d4. Inr (d4, c'))))"

subsection \<open>Runs of a candidate\<close>

definition GOVERNED_RUN_PACKAGE_STATUSES :: "package_status list" where
  "GOVERNED_RUN_PACKAGE_STATUSES = [Package_ACTIVE, Package_DRAFT]"

record candidate_run =
  gr_target :: uuid
  gr_environment :: uuid
  gr_package :: uuid

definition candidate_run_request :: "uuid \<Rightarrow> candidate_run \<Rightarrow> uuid \<Rightarrow> string list \<Rightarrow> run_request" where
  "candidate_run_request project u baseline codes =
     \<lparr>rq_project = project, rq_target = gr_target u, rq_environment = gr_environment u, rq_baseline = baseline,
      rq_package = gr_package u, rq_case_codes = codes, rq_headless = None\<rparr>"

definition create_candidate_run ::
  "txn \<Rightarrow> uuid \<Rightarrow> uuid \<Rightarrow> candidate_run \<Rightarrow> string \<Rightarrow> uuid \<Rightarrow> db \<Rightarrow> service_error + db \<times> run_row \<times> bool" where
  "create_candidate_run x project i u key actor d =
     bind_outcome (get_change_request project i d) (\<lambda>c.
     if cr_status c \<noteq> Change_CANDIDATE
     then Inl (ResourceConflict ''only an approved CANDIDATE can run full regression'')
     else create_run x (candidate_run_request project u (cr_candidate c) []) key actor
       [Baseline_CANDIDATE] GOVERNED_RUN_PACKAGE_STATUSES None None d)"

definition change_request_items :: "uuid \<Rightarrow> db \<Rightarrow> change_item_row list" where
  "change_request_items i d = sort_key ci_sequence (filter (\<lambda>m. ci_request m = i) (change_items d))"

text \<open>
  \<open>create_validation_run\<close> makes two transactions: the first ends with the commit of \<open>create_run\<close>,
  the second binds the run to the request.  \<open>begin_validation_run\<close> is the first, with what it
  found; \<open>bind_validation_run\<close> the second.
\<close>

datatype validation_start = Not_needed | Running_already run_row | Started run_row bool

definition no_run_in_the_way :: "change_request_row \<Rightarrow> string \<Rightarrow> db \<Rightarrow> service_error + run_row option" where
  "no_run_in_the_way c key d =
     (case cr_validation_run c of
        None \<Rightarrow> Inr None
      | Some i \<Rightarrow>
          (case lookup_row r_id i (runs d) of
             None \<Rightarrow> Inr None
           | Some r \<Rightarrow>
               if r_idempotency_key r = key then Inr (Some r)
               else if \<not> terminal_status (r_status r) then Inl (ResourceConflict ''draft validation is already running'')
               else Inr None))"

definition start_validation ::
  "txn \<Rightarrow> uuid \<Rightarrow> change_request_row \<Rightarrow> candidate_run \<Rightarrow> string list \<Rightarrow> string \<Rightarrow> uuid \<Rightarrow> db
   \<Rightarrow> service_error + db \<times> validation_start" where
  "start_validation x project c u codes key actor d =
     bind_outcome (no_run_in_the_way c key d) (\<lambda>existing.
       case existing of
         Some r \<Rightarrow> Inr (d, Running_already r)
       | None \<Rightarrow>
           bind_outcome (create_run x (candidate_run_request project u (cr_candidate c) codes) key actor
             [Baseline_DRAFT] GOVERNED_RUN_PACKAGE_STATUSES None None d)
             (\<lambda>(d1, run, created). Inr (d1, Started run created)))"

definition begin_validation_run ::
  "txn \<Rightarrow> uuid \<Rightarrow> uuid \<Rightarrow> candidate_run \<Rightarrow> string \<Rightarrow> uuid \<Rightarrow> db \<Rightarrow> service_error + db \<times> validation_start" where
  "begin_validation_run x project i u key actor d =
     bind_outcome (get_change_request project i d) (\<lambda>c.
     if cr_status c \<notin> {Change_DRAFT, Change_CHANGES_REQUESTED}
     then Inl (ResourceConflict ''only an editable draft can run affected-case validation'')
     else
     let codes = map ci_case_code (filter item_requires_validation (change_request_items i d)) in
     if codes = [] then
       bind_outcome (commit (store_request (c\<lparr>cr_validation_status := NOT_REQUIRED, cr_validation_run := None\<rparr>) d))
         (\<lambda>d1. Inr (d1, Not_needed))
     else start_validation x project c u codes key actor d)"

definition bind_validation_run ::
  "txn \<Rightarrow> uuid \<Rightarrow> uuid \<Rightarrow> run_row \<Rightarrow> uuid \<Rightarrow> db \<Rightarrow> service_error + db" where
  "bind_validation_run x project i run actor d =
     bind_outcome (get_change_request project i d) (\<lambda>c.
       commit (audit x actor ''change_request.validation_started'' ''change_request'' i (Some project)
         [(''run_id'', JId (r_id run)), (''case_count'', JInt (r_case_count run))]
         (store_request (c\<lparr>cr_validation_run := Some (r_id run), cr_validation_status := Validation_run QUEUED\<rparr>) d)))"

subsection \<open>Publication\<close>

definition regression_run_of :: "uuid \<Rightarrow> change_request_row \<Rightarrow> uuid \<Rightarrow> db \<Rightarrow> service_error + run_row" where
  "regression_run_of project c i d =
     (case lookup_row r_id i (runs d) of
        None \<Rightarrow> Inl (InvalidRequest ''regression Run does not execute this candidate baseline'')
      | Some r \<Rightarrow>
          if r_project r \<noteq> project \<or> r_baseline r \<noteq> cr_candidate c
          then Inl (InvalidRequest ''regression Run does not execute this candidate baseline'')
          else if r_status r \<noteq> PASSED \<or> r_result_digest r = None
          then Inl (ResourceConflict ''candidate full regression must finish PASSED before publishing'')
          else Inr r)"

definition publish_change_request ::
  "txn \<Rightarrow> uuid \<Rightarrow> uuid \<Rightarrow> uuid \<Rightarrow> uuid \<Rightarrow> db \<Rightarrow> service_error + db \<times> change_request_row \<times> baseline_row" where
  "publish_change_request x project i run actor d =
     bind_outcome (get_change_request project i d) (\<lambda>c.
     if cr_status c \<noteq> Change_CANDIDATE
     then Inl (ResourceConflict ''only a CANDIDATE Change Request can be published'')
     else
     bind_outcome (regression_run_of project c run d) (\<lambda>r.
     bind_outcome (baseline_in_status (cr_candidate c) Baseline_CANDIDATE
       ''candidate baseline is missing or already published'' d) (\<lambda>b.
     if r_case_count r \<noteq> b_enabled_count b
     then Inl (InvalidRequest ''publishing requires a full regression of every enabled case'')
     else
     let b' = b\<lparr>b_status := Baseline_RELEASED\<rparr>;
         c' = c\<lparr>cr_status := Change_PUBLISHED, cr_published_at := Some (txn_now x),
           cr_published_baseline := Some (b_id b)\<rparr>;
         d1 = audit x actor ''change_request.published'' ''change_request'' i (Some project)
           [(''baseline_id'', JId (b_id b)), (''version'', JStr (b_version b)), (''regression_run_id'', JId run)]
           (store_request c' (store_baseline b' d))
     in bind_outcome (commit d1) (\<lambda>d2. Inr (d2, c', b')))))"

subsection \<open>What composing a candidate does\<close>

text \<open>
  The abstract specification: the base is a map from case ids to cases, and an operation adds,
  replaces or removes one entry.
\<close>

definition case_map :: "case_definition list \<Rightarrow> uuid \<Rightarrow> case_definition option" where
  "case_map cs i = lookup_row case_id i cs"

definition operation_effect :: "change_operation \<Rightarrow> (uuid \<Rightarrow> case_definition option) \<Rightarrow> uuid \<Rightarrow> case_definition option" where
  "operation_effect op m =
     (case operation_case_id op of Inl _ \<Rightarrow> m | Inr i \<Rightarrow> m(i := if op_type op = DELETE then None else op_case op))"

lemma case_map_put:
  "case_map (put_case c cs) = (case_map cs)(case_id c := Some c)"
proof
  fix i
  have present: "lookup_row case_id i (map (\<lambda>b. if case_id b = case_id c then c else b) cs) =
      (if i = case_id c \<and> case_id c \<in> case_id ` set cs then Some c else lookup_row case_id i cs)"
    by (induction cs) (auto simp: row_simps)
  show "case_map (put_case c cs) i = ((case_map cs)(case_id c := Some c)) i"
  proof (cases "case_id c \<in> case_id ` set cs")
    case True
    then show ?thesis by (auto simp: case_map_def put_case_def present)
  next
    case False
    then have "lookup_row case_id (case_id c) cs = None" by (simp add: lookup_row_None_iff)
    with False show ?thesis by (auto simp: case_map_def put_case_def row_simps split: option.split)
  qed
qed

lemma case_map_delete:
  "case_map (filter (\<lambda>c. case_id c \<noteq> i) cs) = (case_map cs)(i := None)"
proof
  fix j show "case_map (filter (\<lambda>c. case_id c \<noteq> i) cs) j = ((case_map cs)(i := None)) j"
    by (induction cs) (auto simp: case_map_def row_simps)
qed

definition added_cases :: "change_operation list \<Rightarrow> case_definition list" where
  "added_cases ops = concat (map (\<lambda>op. case (op_type op, op_case op) of (ADD, Some c) \<Rightarrow> [c] | _ \<Rightarrow> []) ops)"

text \<open>An item of the request records its operation and the case of the base.\<close>

definition item_records :: "uuid \<Rightarrow> case_definition list \<Rightarrow> change_operation \<Rightarrow> change_item_row \<Rightarrow> bool" where
  "item_records request base op m \<longleftrightarrow> ci_request m = request \<and> ci_type m = op_type op
     \<and> operation_case_id op = Inr (ci_case_id m) \<and> ci_before m = lookup_row case_id (ci_case_id m) base
     \<and> ci_after m = op_case op \<and> ci_changed m = changed_fields (ci_before m) (op_case op)"

lemma apply_operation_Inr:
  assumes "apply_operation request base n op (result, additions) = Inr ((result', additions'), item)"
  obtains i where "operation_case_id op = Inr i" "case_map result' = operation_effect op (case_map result)"
    "additions' = additions @ added_cases [op]" "item_records request base op item" "ci_sequence item = n"
    "op_type op = ADD \<longrightarrow> i \<notin> case_id ` set base \<and> (\<exists>c. op_case op = Some c \<and> case_id c = i)"
    "op_type op \<noteq> ADD \<longrightarrow> i \<in> case_id ` set base"
proof -
  obtain i where i: "operation_case_id op = Inr i"
    using assms unfolding apply_operation_def Let_def by (auto elim!: bind_outcome_InrE)
  have own: "op_case op = Some c \<Longrightarrow> case_id c = i" for c
    using i by (auto simp: operation_case_id_def)
  have found: "lookup_row case_id j base = Some b \<Longrightarrow> j \<in> case_id ` set base" for j b
    by (metis lookup_row_None_iff option.distinct(1))
  note call = assms [unfolded apply_operation_def Let_def prod.case i bind_outcome_simps]
  note defs = operation_effect_def i added_cases_def item_records_def change_item_def
  show thesis
  proof (cases "op_type op")
    case ADD
    with call own show thesis
      by (intro that [OF i])
        (auto simp: defs case_map_put lookup_row_None_iff split: option.splits if_split_asm)
  next
    case MODIFY
    with call own show thesis
      by (intro that [OF i])
        (auto simp: defs case_map_put split: option.splits if_split_asm intro: found)
  next
    case DELETE
    with call own show thesis
      by (intro that [OF i])
        (auto simp: defs case_map_delete split: option.splits intro: found)
  qed
qed

text \<open>While the operations run, the cases outside the base are the additions so far.\<close>

definition additions_outside :: "case_definition list \<Rightarrow> case_definition list \<Rightarrow> case_definition list \<Rightarrow> bool" where
  "additions_outside base result additions \<longleftrightarrow>
     (\<forall>i. if i \<in> case_id ` set base then case_map additions i = None else case_map result i = case_map additions i)"

lemma apply_operation_outside:
  assumes "apply_operation request base n op (result, additions) = Inr ((result', additions'), item)"
    and "operation_case_id op = Inr i" "i \<notin> case_id ` set additions" "additions_outside base result additions"
  shows "additions_outside base result' additions'"
proof -
  from assms(1) obtain
    eff: "case_map result' = operation_effect op (case_map result)" "additions' = additions @ added_cases [op]"
    and add: "op_type op = ADD \<longrightarrow> i \<notin> case_id ` set base \<and> (\<exists>c. op_case op = Some c \<and> case_id c = i)"
    and old: "op_type op \<noteq> ADD \<longrightarrow> i \<in> case_id ` set base"
    by (rule apply_operation_Inr) (use assms(2) in auto)
  show ?thesis
  proof (cases "op_type op = ADD")
    case True
    then obtain c where c: "op_case op = Some c" "case_id c = i" "i \<notin> case_id ` set base" using add by blast
    have "lookup_row case_id i additions = None" using assms(3) by (simp add: lookup_row_None_iff)
    then have "case_map (additions @ [c]) = (case_map additions)(i \<mapsto> c)"
      using c(2) by (auto simp: fun_eq_iff case_map_def row_simps split: option.split)
    moreover have "added_cases [op] = [c]" using True c(1) by (simp add: added_cases_def)
    moreover have "case_map result' = (case_map result)(i \<mapsto> c)"
      using True c(1) assms(2) eff(1) by (simp add: operation_effect_def)
    ultimately show ?thesis using assms(4) c(3) eff(2) by (auto simp: additions_outside_def)
  next
    case False
    then have "added_cases [op] = []" by (auto simp: added_cases_def split: option.splits change_type.splits)
    with False old assms(2,4) eff show ?thesis
      by (auto simp: additions_outside_def operation_effect_def)
  qed
qed

lemma apply_operations_Inr:
  assumes "apply_operations request base n ops (result, additions) = Inr ((result', additions'), items)"
    and "validate_all operation_case_id ops = Inr ids" "distinct ids" "set ids \<inter> case_id ` set additions = {}"
    and "additions_outside base result additions"
  shows "case_map result' = fold operation_effect ops (case_map result)
    \<and> additions' = additions @ added_cases ops \<and> additions_outside base result' additions'
    \<and> list_all2 (item_records request base) ops items \<and> map ci_sequence items = [n..<n + length ops]"
  using assms
proof (induction ops arbitrary: n result additions items ids)
  case Nil
  then show ?case by (simp add: added_cases_def)
next
  case (Cons op ops)
  from Cons.prems(1) obtain result1 additions1 item rest where
    one: "apply_operation request base n op (result, additions) = Inr ((result1, additions1), item)"
    and more: "apply_operations request base (Suc n) ops (result1, additions1) = Inr ((result', additions'), rest)"
    and items: "items = item # rest"
    by (auto elim!: bind_outcome_InrE)
  from Cons.prems(2) obtain i js where i: "operation_case_id op = Inr i" and js: "validate_all operation_case_id ops = Inr js"
    and ids: "ids = i # js"
    by (auto elim!: bind_outcome_InrE)
  from one obtain
    eff: "case_map result1 = operation_effect op (case_map result)" "additions1 = additions @ added_cases [op]"
      "item_records request base op item" "ci_sequence item = n"
    and add: "op_type op = ADD \<longrightarrow> i \<notin> case_id ` set base \<and> (\<exists>c. op_case op = Some c \<and> case_id c = i)"
    by (rule apply_operation_Inr) (use i in auto)
  have fresh: "set js \<inter> case_id ` set additions1 = {}"
    using Cons.prems(3,4) ids eff(2) add by (auto simp: added_cases_def split: option.splits change_type.splits)
  have outside: "additions_outside base result1 additions1"
    by (rule apply_operation_outside [OF one i _ Cons.prems(5)]) (use Cons.prems(4) ids in auto)
  have "distinct js" using Cons.prems(3) ids by simp
  note tail = Cons.IH [OF more js this fresh outside]
  moreover have "added_cases (op # ops) = added_cases [op] @ added_cases ops" by (simp add: added_cases_def)
  moreover have "[n..<n + length (op # ops)] = n # [Suc n..<Suc n + length ops]"
    by (simp add: upt_conv_Cons del: upt_Suc)
  ultimately show ?case using eff items by (auto simp del: upt_Suc)
qed

lemma ordered_cases_map:
  "case_map (ordered_cases base result additions) i =
     (if i \<in> case_id ` set base \<and> case_map result i \<noteq> None then case_map result i else case_map additions i)"
proof -
  have kept: "lookup_row case_id i (concat (map (\<lambda>b. case lookup_row case_id (case_id b) result of None \<Rightarrow> [] | Some c \<Rightarrow> [c]) base))
      = (if i \<in> case_id ` set base then lookup_row case_id i result else None)" for base
  proof (induction base)
    case (Cons b base)
    show ?case
    proof (cases "lookup_row case_id (case_id b) result")
      case None
      with Cons show ?thesis by auto
    next
      case (Some c)
      then have "case_id c = case_id b" by (auto dest: lookup_row_SomeD)
      with Some Cons show ?thesis by (auto simp: row_simps)
    qed
  qed simp
  show ?thesis
    unfolding case_map_def ordered_cases_def lookup_row_append kept
    by (auto split: option.split)
qed

lemma compose_candidate_id:
  "compose_candidate x base candidate version request ops = Inr (b, items) \<Longrightarrow> baseline_id b = candidate"
  unfolding compose_candidate_def Let_def
  by (auto elim!: bind_outcome_InrE simp: contract_def validate_cases_Inr split: if_split_asm prod.split_asm sum.splits)

lemma composed_cases_map:
  assumes "additions_outside base result additions"
  shows "case_map (ordered_cases base result additions) = case_map result"
  using assms by (auto simp: fun_eq_iff ordered_cases_map additions_outside_def split: if_splits)

definition demo_operations :: "change_operation list" where
  "demo_operations =
     [\<lparr>op_type = MODIFY, op_case_id = Some 101, op_case = Some ((demo_case 101 ''TC-A'' True)\<lparr>case_title := ''T''\<rparr>)\<rparr>,
      \<lparr>op_type = DELETE, op_case_id = Some 103, op_case = None\<rparr>,
      \<lparr>op_type = ADD, op_case_id = None, op_case = Some (demo_case 104 ''TC-D'' True)\<rparr>]"

text \<open>
  C23: the candidate is the base with the operations applied, and the request keeps what changed.
  When a change request composes a candidate baseline, the candidate carries the drawn id, the
  requested version, the project of the base and the base's digest as its source; seen as a map
  from case ids to cases it is the base's map after every operation in turn added, replaced or
  removed its case; it has cases, their ids and codes are unique; and the items, numbered from one,
  record for each operation the case before, the case after and the fields that changed.
\<close>

theorem compose_candidate_spec:
  assumes "compose_candidate x base candidate version request ops = Inr (b, items)"
  shows "baseline_id b = candidate \<and> baseline_version b = version
    \<and> baseline_project_key b = baseline_project_key base
    \<and> baseline_source b = Derived_baseline (baseline_id base) (baseline_version base) (txn_digest x (Hash_baseline base)) request
    \<and> case_map (baseline_cases b) = fold operation_effect ops (case_map (baseline_cases base))
    \<and> baseline_cases b \<noteq> [] \<and> distinct (map case_id (baseline_cases b)) \<and> distinct (map case_code (baseline_cases b))
    \<and> list_all2 (item_records request (baseline_cases base)) ops items \<and> map ci_sequence items = [1..<Suc (length ops)]"
proof -
  note call = assms [unfolded compose_candidate_def Let_def]
  from call obtain ids result additions where
    ids: "validate_all operation_case_id ops = Inr ids" "distinct ids"
    and run: "apply_operations request (baseline_cases base) 1 ops (baseline_cases base, []) = Inr ((result, additions), items)"
    and b: "contract (validate_cases \<lparr>baseline_id = candidate, baseline_project_key = baseline_project_key base,
      baseline_version = version, baseline_source = Derived_baseline (baseline_id base) (baseline_version base)
          (txn_digest x (Hash_baseline base)) request,
      baseline_cases = ordered_cases (baseline_cases base) result additions\<rparr>) = Inr b"
    by (auto elim!: bind_outcome_InrE split: if_split_asm prod.split_asm)
  have "additions_outside (baseline_cases base) (baseline_cases base) []"
    by (auto simp: additions_outside_def case_map_def row_simps lookup_row_None_iff)
  note result = apply_operations_Inr [OF run ids _ this]
  from result have "case_map (ordered_cases (baseline_cases base) result additions) = case_map result"
    by (intro composed_cases_map) auto
  with result b show ?thesis
    by (auto simp: contract_def validate_cases_Inr split: sum.splits)
qed

theorem compose_candidate_spec_witness:
  "\<exists>b items. compose_candidate (demo_txn 2000 500) demo_baseline 41 ''2'' 7 demo_operations = Inr (b, items)
     \<and> map case_code (baseline_cases b) = [''TC-A'', ''TC-B'', ''TC-D'']
     \<and> case_map (baseline_cases b) = fold operation_effect demo_operations (case_map (baseline_cases demo_baseline))"
proof -
  have "case compose_candidate (demo_txn 2000 500) demo_baseline 41 ''2'' 7 demo_operations of
      Inl _ \<Rightarrow> False | Inr (b, items) \<Rightarrow> map case_code (baseline_cases b) = [''TC-A'', ''TC-B'', ''TC-D'']"
    by code_simp
  then obtain b items where "compose_candidate (demo_txn 2000 500) demo_baseline 41 ''2'' 7 demo_operations = Inr (b, items)"
    and "map case_code (baseline_cases b) = [''TC-A'', ''TC-B'', ''TC-D'']"
    by (auto split: sum.splits)
  moreover note compose_candidate_spec [OF this(1)]
  ultimately show ?thesis by metis
qed

end
