(* ===== verification/Governed_Changes.thy ===== *)
theory Governed_Changes
  imports Governance
begin

section \<open>Only reviewed and tested changes are released\<close>

text \<open>
  The services of \<open>governance.py\<close> as steps on the database, the invariant that ties a change request
  to its candidate baseline and to its approvals, and what a publication has behind it.
\<close>

subsection \<open>The calls\<close>

inductive governance_call :: "db \<Rightarrow> db \<Rightarrow> bool" where
  Request_create: "create_change_request x project u actor d = Inr (d', c)
    \<Longrightarrow> validate_all validate_shape (gc_changes u) = Inr ops \<Longrightarrow> governance_call d d'"
| Request_update: "update_change_request x project i u actor is_admin d = Inr (d', c)
    \<Longrightarrow> validate_all validate_shape (gc_changes u) = Inr ops \<Longrightarrow> governance_call d d'"
| Request_submit: "submit_change_request x project i actor d = Inr (d', c) \<Longrightarrow> governance_call d d'"
| Request_review: "review_change_request x project i v reviewer d = Inr (d', c)
    \<Longrightarrow> require_rework_comment v = Inr v \<Longrightarrow> governance_call d d'"
| Candidate_run: "create_candidate_run x project i cr key actor d = Inr (d', r, created) \<Longrightarrow> governance_call d d'"
| Validation_begin: "begin_validation_run x project i cr key actor d = Inr (d', start) \<Longrightarrow> governance_call d d'"
| Validation_bind: "bind_validation_run x project i r actor d = Inr d' \<Longrightarrow> governance_call d d'"
| Request_publish: "publish_change_request x project i run actor d = Inr (d', c, b) \<Longrightarrow> governance_call d d'"

subsection \<open>What each service reads and commits\<close>

lemma get_change_request_InrD:
  assumes "get_change_request project i d = Inr c"
  shows "c \<in> set (change_requests d)" "cr_id c = i" "cr_project c = project"
  using assms by (auto simp: get_change_request_def outcome_simps find_Some_iff)

lemma baseline_in_status_InrD:
  assumes "baseline_in_status i status m d = Inr b"
  shows "b \<in> set (baselines d)" "b_id b = i" "b_status b = status"
  using assms by (auto simp: baseline_in_status_def dest: lookup_row_SomeD split: option.splits if_split_asm)

lemma store_request_frame [frame_simps, simp]:
  "change_requests (store_request c d) = update_row cr_id (cr_id c) (\<lambda>_. c) (change_requests d)"
  "baselines (store_request c d) = baselines d" "approvals (store_request c d) = approvals d"
  "change_items (store_request c d) = change_items d" "runs (store_request c d) = runs d"
  "same_run_tables d (store_request c d)"
  by (simp_all add: store_request_def same_run_tables_def)

lemma store_baseline_frame [frame_simps, simp]:
  "baselines (store_baseline b d) = update_row b_id (b_id b) (\<lambda>_. b) (baselines d)"
  "change_requests (store_baseline b d) = change_requests d" "approvals (store_baseline b d) = approvals d"
  "change_items (store_baseline b d) = change_items d" "runs (store_baseline b d) = runs d"
  "same_run_tables d (store_baseline b d)"
  by (simp_all add: store_baseline_def same_run_tables_def)

lemma same_run_tables_store [simp]:
  "same_run_tables d (store_request c d') = same_run_tables d d'"
  "same_run_tables d (store_baseline b d') = same_run_tables d d'"
  by (simp_all add: store_request_def store_baseline_def same_run_tables_def)

lemma same_run_tables_governance [simp]:
  "same_run_tables d (change_requests_update f d') = same_run_tables d d'"
  "same_run_tables d (change_items_update g d') = same_run_tables d d'"
  "same_run_tables d (baselines_update h d') = same_run_tables d d'"
  "same_run_tables d (approvals_update k d') = same_run_tables d d'"
  by (simp_all add: same_run_tables_def)

lemma create_change_request_Inr:
  assumes "create_change_request x project u actor d = Inr (d', c)"
  obtains base_row base b items where "released_base project (gc_base u) d = Inr base_row"
    "compose_candidate x base (txn_uuid x Draw_baseline) (gc_version u) (txn_uuid x Draw_row) (gc_changes u) = Inr (b, items)"
    "c = new_change_request (txn_uuid x Draw_row) (txn_uuid x Draw_baseline) project u actor base_row (txn_digest x (Hash_baseline b)) b items"
    "change_requests d' = change_requests d @ [c]" "approvals d' = approvals d"
    "baselines d' = baselines d @ [new_baseline project Baseline_DRAFT (txn_digest x (Hash_baseline b)) b]"
    "unique_ok d'" "same_run_tables d d'"
proof -
  note call = assms [unfolded create_change_request_def Let_def]
  from call show thesis
    by (elim bind_outcome_InrE) (auto elim!: bind_outcome_InrE commit_unique_bind_InrE intro!: that split: if_split_asm)
qed

lemma update_change_request_Inr:
  assumes "update_change_request x project i u actor is_admin d = Inr (d', c')"
  obtains c old base b items where "get_change_request project i d = Inr c"
    "cr_status c \<in> {Change_DRAFT, Change_CHANGES_REQUESTED}" "cr_created_by c = actor \<or> is_admin"
    "baseline_in_status (cr_candidate c) Baseline_DRAFT ''editable draft baseline is missing'' d = Inr old"
    "compose_candidate x base (txn_uuid x Draw_baseline) (gc_version u) i (gc_changes u) = Inr (b, items)"
    "c' = edited_request c u b (txn_digest x (Hash_baseline b)) items"
    "change_requests d' = update_row cr_id (cr_id c') (\<lambda>_. c') (change_requests d)" "approvals d' = approvals d"
    "baselines d' = update_row b_id (b_id old) (\<lambda>_. retired_baseline old) (baselines d)
        @ [new_baseline project Baseline_DRAFT (txn_digest x (Hash_baseline b)) b]"
    "unique_ok d'" "same_run_tables d d'"
proof -
  note call = assms [unfolded update_change_request_def Let_def]
  have id: "b_id (retired_baseline old) = b_id old" for old by (simp add: retired_baseline_def)
  from call show thesis
    by (elim bind_outcome_InrE) (auto elim!: bind_outcome_InrE commit_bind_InrE intro!: that simp: id split: if_split_asm)
qed

lemma submit_change_request_Inr:
  assumes "submit_change_request x project i actor d = Inr (d', c')"
  obtains c where "get_change_request project i d = Inr c" "cr_status c = Change_DRAFT" "cr_created_by c = actor"
    "cr_validation_status c \<in> {Validation_run PASSED, NOT_REQUIRED}"
    "c' = c\<lparr>cr_status := Change_IN_REVIEW, cr_submitted_at := Some (txn_now x)\<rparr>"
    "change_requests d' = update_row cr_id (cr_id c) (\<lambda>_. c') (change_requests d)"
    "baselines d' = baselines d" "approvals d' = approvals d" "unique_ok d'" "same_run_tables d d'"
proof -
  note call = assms [unfolded submit_change_request_def Let_def]
  from call show thesis
    by (elim bind_outcome_InrE) (auto elim!: commit_bind_InrE intro!: that split: if_split_asm)
qed

lemma review_change_request_Inr:
  assumes "review_change_request x project i v reviewer d = Inr (d', c')"
  obtains (approved) c b where "get_change_request project i d = Inr c" "cr_status c = Change_IN_REVIEW"
      "cr_created_by c \<noteq> reviewer" "rr_decision v = APPROVE"
      "baseline_in_status (cr_candidate c) Baseline_DRAFT ''approved draft baseline is missing'' d = Inr b"
      "c' = c\<lparr>cr_reviewed_at := Some (txn_now x), cr_status := Change_CANDIDATE\<rparr>"
      "change_requests d' = update_row cr_id (cr_id c) (\<lambda>_. c') (change_requests d)"
      "baselines d' = update_row b_id (b_id b) (\<lambda>_. b\<lparr>b_status := Baseline_CANDIDATE\<rparr>) (baselines d)"
      "approvals d' = approvals d @ [\<lparr>ap_request = i, ap_reviewer = reviewer, ap_decision = APPROVE,
          ap_comment = rr_comment v, ap_at = txn_now x\<rparr>]" "unique_ok d'" "same_run_tables d d'"
  | (rework) c where "get_change_request project i d = Inr c" "cr_status c = Change_IN_REVIEW"
      "rr_decision v = REQUEST_CHANGES"
      "c' = c\<lparr>cr_reviewed_at := Some (txn_now x), cr_status := Change_CHANGES_REQUESTED\<rparr>"
      "change_requests d' = update_row cr_id (cr_id c) (\<lambda>_. c') (change_requests d)"
      "baselines d' = baselines d" "set (approvals d) \<subseteq> set (approvals d')" "unique_ok d'" "same_run_tables d d'"
proof -
  note call = assms [unfolded review_change_request_def judge_def Let_def]
  show thesis
  proof (cases "rr_decision v")
    case APPROVE
    with call show thesis
      by (elim bind_outcome_InrE)
        (auto elim!: bind_outcome_InrE commit_unique_bind_InrE intro!: approved
          simp: baseline_in_status_def split: if_split_asm option.split_asm)
  next
    case REQUEST_CHANGES
    with call show thesis
      by (elim bind_outcome_InrE) (auto elim!: commit_unique_bind_InrE intro!: rework split: if_split_asm)
  qed
qed

lemma start_validation_Inr:
  assumes "start_validation x project c u codes key actor d = Inr (d', start)"
  obtains (running) "d' = d"
  | (queued) q r created where
      "create_run x q key actor [Baseline_DRAFT] GOVERNED_RUN_PACKAGE_STATUSES None None d = Inr (d', r, created)"
proof -
  obtain existing where "no_run_in_the_way c key d = Inr existing"
    using assms unfolding start_validation_def by (elim bind_outcome_InrE) blast
  note call = assms [unfolded start_validation_def this bind_outcome_simps]
  show thesis
  proof (cases existing)
    case None
    with call show thesis by (auto elim!: bind_outcome_InrE intro: queued)
  next
    case (Some r)
    with call show thesis by (intro running) simp
  qed
qed

lemma begin_validation_run_Inr:
  assumes "begin_validation_run x project i u key actor d = Inr (d', start)"
  obtains (not_needed) c where "get_change_request project i d = Inr c"
      "d' = store_request (c\<lparr>cr_validation_status := NOT_REQUIRED, cr_validation_run := None\<rparr>) d" "unique_ok d'"
  | (started) c codes where "start_validation x project c u codes key actor d = Inr (d', start)"
proof -
  note call = assms [unfolded begin_validation_run_def Let_def]
  from call show thesis
    by (elim bind_outcome_InrE)
      (auto elim!: commit_bind_InrE intro: not_needed started split: if_split_asm)
qed

lemma publish_change_request_Inr:
  assumes "publish_change_request x project i run actor d = Inr (d', c', b')"
  obtains c b r where "get_change_request project i d = Inr c" "cr_status c = Change_CANDIDATE"
    "regression_run_of project c run d = Inr r" "r_case_count r = b_enabled_count b"
    "baseline_in_status (cr_candidate c) Baseline_CANDIDATE ''candidate baseline is missing or already published'' d = Inr b"
    "b' = b\<lparr>b_status := Baseline_RELEASED\<rparr>"
    "c' = c\<lparr>cr_status := Change_PUBLISHED, cr_published_at := Some (txn_now x), cr_published_baseline := Some (b_id b)\<rparr>"
    "change_requests d' = update_row cr_id (cr_id c) (\<lambda>_. c') (change_requests d)"
    "baselines d' = update_row b_id (b_id b) (\<lambda>_. b') (baselines d)"
    "approvals d' = approvals d" "unique_ok d'" "same_run_tables d d'"
proof -
  note call = assms [unfolded publish_change_request_def Let_def]
  from call show thesis
    by (elim bind_outcome_InrE)
      (auto elim!: bind_outcome_InrE commit_bind_InrE intro!: that split: if_split_asm)
qed

lemma bind_validation_run_Inr:
  assumes "bind_validation_run x project i r actor d = Inr d'"
  obtains c where "get_change_request project i d = Inr c"
    "change_requests d' = update_row cr_id (cr_id c)
       (\<lambda>_. c\<lparr>cr_validation_run := Some (r_id r), cr_validation_status := Validation_run QUEUED\<rparr>) (change_requests d)"
    "baselines d' = baselines d" "approvals d' = approvals d" "unique_ok d'" "same_run_tables d d'"
proof -
  note call = assms [unfolded bind_validation_run_def Let_def]
  from call show thesis
    by (elim bind_outcome_InrE) (auto simp: commit_Inr_iff intro!: that)
qed

lemma create_candidate_run_Inr:
  assumes "create_candidate_run x project i u key actor d = Inr (d', r, created)"
  obtains c where "get_change_request project i d = Inr c" "cr_status c = Change_CANDIDATE"
    "create_run x (candidate_run_request project u (cr_candidate c) []) key actor
       [Baseline_CANDIDATE] GOVERNED_RUN_PACKAGE_STATUSES None None d = Inr (d', r, created)"
  using assms unfolding create_candidate_run_def by (elim bind_outcome_InrE) (simp split: if_split_asm)

lemma create_run_keeps_governance:
  assumes "create_run x q key actor ab ap sch due d = Inr (d', r, created)"
  shows "change_requests d' = change_requests d" "baselines d' = baselines d" "approvals d' = approvals d"
proof -
  from assms have "d' = d \<or> (\<exists>qr. d' = add_run x qr d)"
    by (cases rule: create_run_Inr) (auto simp: queued_by_def)
  then show "change_requests d' = change_requests d" "baselines d' = baselines d" "approvals d' = approvals d"
    by (auto simp: add_run_def Let_def)
qed

text \<open>Every call leaves the tables of the runs alone, or makes a run as \<open>create_run\<close> does.\<close>

lemma governance_call_service:
  assumes "governance_call d d'" "control_ok d"
  shows "control_ok d' \<and> runs_evolve (runs d) (runs d')"
proof -
  have side: "control_ok d' \<and> runs_evolve (runs d) (runs d')" if "unique_ok d'" "same_run_tables d d'"
    using control_ok_same_tables [OF assms(2) that(1)] that(2) by (simp add: same_run_tables_def)
  show ?thesis using assms(1)
  proof (cases rule: governance_call.cases)
    case Request_create
    from this(1) show ?thesis by (rule create_change_request_Inr) (rule side)
  next
    case Request_update
    from this(1) show ?thesis by (rule update_change_request_Inr) (rule side)
  next
    case Request_submit
    from this(1) show ?thesis by (rule submit_change_request_Inr) (rule side)
  next
    case Request_review
    from this(1) show ?thesis by (rule review_change_request_Inr) (rule side; assumption)+
  next
    case Candidate_run
    then show ?thesis by (rule create_candidate_run_Inr) (rule create_run_service [OF _ assms(2)])
  next
    case Validation_begin
    then show ?thesis
    proof (cases rule: begin_validation_run_Inr)
      case not_needed
      then show ?thesis by (intro side) simp_all
    next
      case started
      then show ?thesis by (rule start_validation_Inr) (use assms(2) create_run_service in auto)
    qed
  next
    case Validation_bind
    then show ?thesis by (rule bind_validation_run_Inr) (rule side)
  next
    case Request_publish
    then show ?thesis by (rule publish_change_request_Inr) (rule side)
  qed
qed

interpretation governance_services: run_service governance_call
  by unfold_locales (simp_all add: governance_call_service)

subsection \<open>Requests, candidates and approvals agree\<close>

fun candidate_status :: "change_request_status \<Rightarrow> baseline_status" where
  "candidate_status Change_CANDIDATE = Baseline_CANDIDATE"
| "candidate_status Change_PUBLISHED = Baseline_RELEASED"
| "candidate_status _ = Baseline_DRAFT"

definition is_candidate_of :: "change_request_row \<Rightarrow> baseline_row \<Rightarrow> bool" where
  "is_candidate_of c b \<longleftrightarrow> b_id b = cr_candidate c \<and> b_project b = cr_project c \<and> b_version b = cr_version c
     \<and> b_digest b = cr_digest c \<and> b_document b = cr_document c \<and> b_status b = candidate_status (cr_status c)"

text \<open>Four eyes: somebody other than the submitter approved.\<close>

definition approved_by_another :: "change_request_row \<Rightarrow> db \<Rightarrow> bool" where
  "approved_by_another c d \<longleftrightarrow>
     (\<exists>a\<in>set (approvals d). ap_request a = cr_id c \<and> ap_decision a = APPROVE \<and> ap_reviewer a \<noteq> cr_created_by c)"

definition governed :: "db \<Rightarrow> change_request_row \<Rightarrow> bool" where
  "governed d c \<longleftrightarrow> (\<exists>b\<in>set (baselines d). is_candidate_of c b)
     \<and> (cr_status c \<in> {Change_CANDIDATE, Change_PUBLISHED} \<longrightarrow> approved_by_another c d)
     \<and> cr_published_baseline c = (if cr_status c = Change_PUBLISHED then Some (cr_candidate c) else None)"

definition governance_ok :: "db \<Rightarrow> bool" where
  "governance_ok d \<longleftrightarrow> unique_on b_id (baselines d) \<and> unique_on cr_id (change_requests d)
     \<and> unique_on cr_candidate (change_requests d) \<and> (\<forall>c\<in>set (change_requests d). governed d c)"

lemma unique_ok_governance: "unique_ok d \<Longrightarrow> unique_on b_id (baselines d) \<and> unique_on cr_id (change_requests d)"
  by (simp add: unique_ok_def unique_assets_def)

lemma unique_on_replace:
  assumes "unique_on key rows" "unique_on k rows" "key new \<notin> key ` set rows"
  shows "unique_on key (update_row k i (\<lambda>_. new) rows)"
  using assms
proof (induction rows)
  case (Cons r rows)
  have "update_row k i (\<lambda>_. new) rows = rows" if "k r = i"
    using that Cons.prems(2) by (auto simp: unique_on_def update_row_def update_where_def image_iff intro!: map_idI)
  with Cons show ?case
    by (auto simp: unique_on_def update_row_def update_where_def image_iff split: if_split_asm)
qed (simp add: update_row_def update_where_def)

text \<open>
  The step the services share: one request is replaced, its baseline may change or be succeeded by
  a new one, and every other baseline stays.
\<close>

lemma governance_ok_replace:
  assumes "governance_ok d" "unique_ok d'" "c \<in> set (change_requests d)" "cr_id c' = cr_id c"
    and "change_requests d' = update_row cr_id (cr_id c) (\<lambda>_. c') (change_requests d)"
    and "cr_candidate c' = cr_candidate c \<or> cr_candidate c' \<notin> b_id ` set (baselines d)"
    and "\<And>b. b \<in> set (baselines d) \<Longrightarrow> b_id b \<noteq> cr_candidate c \<Longrightarrow> b \<in> set (baselines d')"
    and "set (approvals d) \<subseteq> set (approvals d')" "governed d' c'"
  shows "governance_ok d'"
proof -
  have old: "unique_on cr_candidate (change_requests d)" "unique_on cr_id (change_requests d)"
    and ok: "governed d e" if "e \<in> set (change_requests d)" for e
    using assms(1,3) that by (auto simp: governance_ok_def)
  have rows: "e = c' \<or> e \<in> set (change_requests d) \<and> e \<noteq> c" if "e \<in> set (change_requests d')" for e
    using that assms(3,5) by (auto simp: update_row_def update_where_def split: if_split_asm)
  have apart: "cr_candidate e \<noteq> cr_candidate c" if "e \<in> set (change_requests d)" "e \<noteq> c" for e
    using unique_on_eq [OF old(1) [OF assms(3)] that(1) assms(3)] that(2) by blast
  have listed: "cr_candidate e \<in> b_id ` set (baselines d)" if "e \<in> set (change_requests d)" for e
    using ok [OF that] unfolding governed_def is_candidate_of_def by (metis image_eqI)
  have "governed d' e" if "e \<in> set (change_requests d')" for e
    using rows [OF that]
  proof
    assume e: "e \<in> set (change_requests d) \<and> e \<noteq> c"
    then obtain b where b: "b \<in> set (baselines d)" "is_candidate_of e b"
      using ok [of e] by (auto simp: governed_def)
    then have "b_id b \<noteq> cr_candidate c" using apart [of e] e by (auto simp: is_candidate_of_def)
    then have "b \<in> set (baselines d')" by (rule assms(7) [OF b(1)])
    with b(2) ok [of e] e assms(8) show ?thesis by (auto simp: governed_def approved_by_another_def)
  qed (use assms(9) in simp)
  moreover have "unique_on cr_candidate (change_requests d')"
  proof (cases "cr_candidate c' = cr_candidate c")
    case True
    have "cr_candidate r = cr_candidate c" if "r \<in> set (change_requests d)" "cr_id r = cr_id c" for r
      using unique_on_eq [OF old(2) [OF assms(3)] that(1) assms(3) that(2)] by simp
    with True have "map cr_candidate (change_requests d') = map cr_candidate (change_requests d)"
      by (auto simp: assms(5) update_row_def update_where_def)
    with old(1) [OF assms(3)] show ?thesis by (simp add: unique_on_def)
  next
    case False
    with assms(6) have new: "cr_candidate c' \<notin> cr_candidate ` set (change_requests d)" using listed by auto
    show ?thesis unfolding assms(5)
      by (rule unique_on_replace [OF old [OF assms(3)] new])
  qed
  ultimately show ?thesis using unique_ok_governance [OF assms(2)] by (simp add: governance_ok_def)
qed

lemma governance_ok_cong:
  assumes "governance_ok d" "change_requests d' = change_requests d" "baselines d' = baselines d"
    "approvals d' = approvals d"
  shows "governance_ok d'"
  using assms by (simp add: governance_ok_def governed_def approved_by_another_def)

lemma governance_okD:
  assumes "governance_ok d" "c \<in> set (change_requests d)"
  obtains b where "b \<in> set (baselines d)" "is_candidate_of c b"
    "\<And>b'. b' \<in> set (baselines d) \<Longrightarrow> b_id b' = cr_candidate c \<Longrightarrow> b' = b"
    "cr_status c \<in> {Change_CANDIDATE, Change_PUBLISHED} \<longrightarrow> approved_by_another c d"
    "cr_published_baseline c = (if cr_status c = Change_PUBLISHED then Some (cr_candidate c) else None)"
proof -
  from assms obtain b where b: "b \<in> set (baselines d)" "is_candidate_of c b" and rest: "governed d c"
    unfolding governance_ok_def governed_def by blast
  have "b' = b" if "b' \<in> set (baselines d)" "b_id b' = cr_candidate c" for b'
    using assms(1) b that unique_on_eq [of b_id "baselines d" b' b]
    by (simp add: governance_ok_def is_candidate_of_def)
  with b rest show thesis by (intro that [of b]) (simp_all add: governed_def)
qed

text \<open>A request that moves without touching its candidate or its baseline.\<close>

lemma governance_ok_move:
  assumes "governance_ok d" "unique_ok d'" "get_change_request project i d = Inr c"
    and "change_requests d' = update_row cr_id (cr_id c) (\<lambda>_. c') (change_requests d)"
    and "baselines d' = baselines d" "set (approvals d) \<subseteq> set (approvals d')"
    and "cr_id c' = cr_id c" "cr_candidate c' = cr_candidate c" "cr_project c' = cr_project c"
      "cr_version c' = cr_version c" "cr_digest c' = cr_digest c" "cr_document c' = cr_document c"
      "cr_created_by c' = cr_created_by c" "cr_published_baseline c' = cr_published_baseline c"
    and "candidate_status (cr_status c') = candidate_status (cr_status c)"
  shows "governance_ok d'"
proof -
  note c = get_change_request_InrD(1) [OF assms(3)]
  from assms(1) c obtain b where b: "b \<in> set (baselines d)" "is_candidate_of c b"
    and four: "cr_status c \<in> {Change_CANDIDATE, Change_PUBLISHED} \<longrightarrow> approved_by_another c d"
    and out: "cr_published_baseline c = (if cr_status c = Change_PUBLISHED then Some (cr_candidate c) else None)"
    by (rule governance_okD)
  have "is_candidate_of c' b" using b(2) assms(7-15) by (simp add: is_candidate_of_def)
  moreover have "cr_status c' = Change_CANDIDATE \<longleftrightarrow> cr_status c = Change_CANDIDATE"
    "cr_status c' = Change_PUBLISHED \<longleftrightarrow> cr_status c = Change_PUBLISHED"
    using assms(15) by (cases "cr_status c"; cases "cr_status c'"; simp)+
  moreover have "approved_by_another c' d'" if "approved_by_another c d"
    using that assms(6,7,13) by (auto simp: approved_by_another_def)
  ultimately have "governed d' c'"
    using b(1) four out assms(5,8,14) unfolding governed_def by auto
  then show ?thesis
    using assms(1,2) c assms(4,6,7,8) by (intro governance_ok_replace [of d d' c c']) (auto simp: assms(5))
qed

text \<open>A request that appears with its candidate.\<close>

lemma governance_ok_add:
  assumes "governance_ok d" "unique_ok d'" "change_requests d' = change_requests d @ [c]"
    and "baselines d' = baselines d @ [b]" "approvals d' = approvals d"
    and "is_candidate_of c b" "cr_status c = Change_DRAFT" "cr_published_baseline c = None"
  shows "governance_ok d'"
proof -
  have "b_id b \<notin> b_id ` set (baselines d)"
    using unique_ok_governance [OF assms(2)] by (simp add: assms(4) row_simps)
  moreover have "cr_candidate e \<in> b_id ` set (baselines d)" if "e \<in> set (change_requests d)" for e
    using governance_okD [OF assms(1) that] by (metis image_eqI is_candidate_of_def)
  ultimately have "cr_candidate c \<notin> cr_candidate ` set (change_requests d)"
    using assms(6) by (auto simp: is_candidate_of_def)
  moreover have "governed d' e" if "e \<in> set (change_requests d)" for e
    using assms(1) that unfolding governance_ok_def governed_def approved_by_another_def assms(4,5) by auto
  moreover have "governed d' c"
    using assms(4,6,7,8) by (auto simp: governed_def)
  ultimately show ?thesis
    using unique_ok_governance [OF assms(2)] assms(1,3) by (auto simp: governance_ok_def row_simps)
qed

lemma update_keeps_governance:
  assumes "governance_ok d" "update_change_request x project i u actor is_admin d = Inr (d', c')"
  shows "governance_ok d'"
  using assms(2)
proof (rule update_change_request_Inr)
  fix c old base b items
  assume c: "get_change_request project i d = Inr c"
    and status: "cr_status c \<in> {Change_DRAFT, Change_CHANGES_REQUESTED}"
    and old: "baseline_in_status (cr_candidate c) Baseline_DRAFT ''editable draft baseline is missing'' d = Inr old"
    and c': "c' = edited_request c u b (txn_digest x (Hash_baseline b)) items"
    and rows: "change_requests d' = update_row cr_id (cr_id c') (\<lambda>_. c') (change_requests d)" "approvals d' = approvals d"
      "baselines d' = update_row b_id (b_id old) (\<lambda>_. retired_baseline old) (baselines d)
        @ [new_baseline project Baseline_DRAFT (txn_digest x (Hash_baseline b)) b]" "unique_ok d'"
  note at = get_change_request_InrD [OF c] and was = baseline_in_status_InrD [OF old]
  have "map b_id (update_row b_id (b_id old) (\<lambda>_. retired_baseline old) (baselines d)) = map b_id (baselines d)"
    by (auto simp: update_row_def update_where_def retired_baseline_def)
  then have "b_id ` set (update_row b_id (b_id old) (\<lambda>_. retired_baseline old) (baselines d)) = b_id ` set (baselines d)"
    by (metis set_map)
  then have new: "baseline_id b \<notin> b_id ` set (baselines d)"
    using unique_ok_governance [OF rows(4)] by (simp add: rows(3) row_simps new_baseline_def)
  have published: "cr_published_baseline c = None"
    using governance_okD [OF assms(1) at(1)] status by (metis change_request_status.distinct insertE singletonD)
  show ?thesis
  proof (rule governance_ok_replace [OF assms(1) rows(4) at(1)])
    show "governed d' c'"
      using published at(3) unfolding governed_def c'
      by (auto simp: rows(3) edited_request_def is_candidate_of_def new_baseline_def)
    show "cr_candidate c' = cr_candidate c \<or> cr_candidate c' \<notin> b_id ` set (baselines d)"
      using new by (simp add: c' edited_request_def)
    show "b \<in> set (baselines d')" if "b \<in> set (baselines d)" "b_id b \<noteq> cr_candidate c" for b
      using that was(2) by (auto simp: rows(3) update_row_def update_where_def)
  qed (use rows in \<open>simp_all add: c' edited_request_def\<close>)
qed

text \<open>A request whose baseline moves with it.\<close>

lemma governance_ok_promote:
  assumes "governance_ok d" "unique_ok d'" "get_change_request project i d = Inr c"
    and "baseline_in_status (cr_candidate c) (candidate_status (cr_status c)) message d = Inr b"
    and "change_requests d' = update_row cr_id (cr_id c) (\<lambda>_. c') (change_requests d)"
    and "baselines d' = update_row b_id (b_id b) (\<lambda>_. b\<lparr>b_status := candidate_status (cr_status c')\<rparr>) (baselines d)"
    and "set (approvals d) \<subseteq> set (approvals d')"
    and "cr_id c' = cr_id c" "cr_candidate c' = cr_candidate c" "cr_project c' = cr_project c"
      "cr_version c' = cr_version c" "cr_digest c' = cr_digest c" "cr_document c' = cr_document c"
    and "approved_by_another c' d'"
      "cr_published_baseline c' = (if cr_status c' = Change_PUBLISHED then Some (cr_candidate c') else None)"
  shows "governance_ok d'"
proof -
  note c = get_change_request_InrD(1) [OF assms(3)] and was = baseline_in_status_InrD [OF assms(4)]
  have "is_candidate_of c b"
    using governance_okD [OF assms(1) c] was by metis
  then have "is_candidate_of c' (b\<lparr>b_status := candidate_status (cr_status c')\<rparr>)"
    using assms(8-13) by (simp add: is_candidate_of_def)
  moreover have "b\<lparr>b_status := candidate_status (cr_status c')\<rparr> \<in> set (baselines d')"
    using was(1) by (auto simp: assms(6) update_row_def update_where_def intro!: rev_image_eqI)
  ultimately have "governed d' c'" using assms(14,15) unfolding governed_def by blast
  then show ?thesis
    using assms(1,2,5,7-9) c was(2)
    by (intro governance_ok_replace [of d d' c c']) (auto simp: assms(6) update_row_def update_where_def)
qed

lemma review_keeps_governance:
  assumes "governance_ok d" "review_change_request x project i v reviewer d = Inr (d', c')"
  shows "governance_ok d'"
  using assms(2)
proof (cases rule: review_change_request_Inr)
  case (approved c b)
  note at = get_change_request_InrD [OF approved(1)]
  have "cr_published_baseline c = None"
    using governance_okD [OF assms(1) at(1)] approved(2) by (metis change_request_status.distinct)
  with approved at(2) show ?thesis
    by (intro governance_ok_promote [where c' = c', OF assms(1) approved(10,1)]) (auto simp: approved_by_another_def)
next
  case (rework c)
  then show ?thesis by (intro governance_ok_move [OF assms(1) rework(8,1,5)]) auto
qed

lemma publish_keeps_governance:
  assumes "governance_ok d" "publish_change_request x project i run actor d = Inr (d', c', b')"
  shows "governance_ok d'"
  using assms(2)
proof (rule publish_change_request_Inr)
  fix c b r
  assume c: "get_change_request project i d = Inr c" "cr_status c = Change_CANDIDATE"
    and b: "baseline_in_status (cr_candidate c) Baseline_CANDIDATE ''candidate baseline is missing or already published'' d = Inr b"
    and c': "c' = c\<lparr>cr_status := Change_PUBLISHED, cr_published_at := Some (txn_now x), cr_published_baseline := Some (b_id b)\<rparr>"
    and b': "b' = b\<lparr>b_status := Baseline_RELEASED\<rparr>"
    and rows: "change_requests d' = update_row cr_id (cr_id c) (\<lambda>_. c') (change_requests d)"
      "baselines d' = update_row b_id (b_id b) (\<lambda>_. b') (baselines d)" "approvals d' = approvals d" "unique_ok d'"
  note at = get_change_request_InrD [OF c(1)]
  have "approved_by_another c d" using governance_okD [OF assms(1) at(1)] c(2) by (metis insertCI)
  then have "approved_by_another c' d'" by (simp add: approved_by_another_def c' rows(3))
  then show ?thesis
    using b c(2) rows baseline_in_status_InrD(2) [OF b]
    by (intro governance_ok_promote [OF assms(1) rows(4) c(1)]) (auto simp: c' b')
qed

text \<open>A request that renames the first case of the demo baseline, and the moves it makes.\<close>

definition demo_change :: change_request_create where
  "demo_change = \<lparr>gc_base = 40, gc_version = ''2'', gc_title = ''rename'', gc_reason = ''r'',
     gc_changes = [\<lparr>op_type = MODIFY, op_case_id = Some 101,
       op_case = Some ((demo_case 101 ''TC-A'' True)\<lparr>case_title := ''T''\<rparr>)\<rparr>]\<rparr>"

definition demo_reviewed :: "uuid \<Rightarrow> service_error + db \<times> change_request_row" where
  "demo_reviewed reviewer =
     bind_outcome (create_change_request (demo_txn 2000 500) 10 demo_change 2 demo_db) (\<lambda>(d1, c).
     bind_outcome (submit_change_request (demo_txn 2001 600) 10 (cr_id c) 2 d1) (\<lambda>(d2, _).
       review_change_request (demo_txn 2002 700) 10 (cr_id c) \<lparr>rr_decision = APPROVE, rr_comment = None\<rparr> reviewer d2))"

definition demo_regression :: run_row where
  "demo_regression = (demo_run PASSED)\<lparr>r_baseline := 506, r_result_digest := Some ''tp''\<rparr>"

text \<open>
  C24: what is released was reviewed by somebody else and is exactly what was reviewed.  Every
  governance service keeps this: every change request has its candidate baseline, with the
  project, version, digest and document of the request and the status its own status asks for
  (DRAFT, then CANDIDATE once approved, RELEASED once published); no two requests share one; and
  an approved or published request carries an approval of a reviewer who is not its submitter.
\<close>

theorem governance_preserved:
  assumes "governance_call d d'" and "governance_ok d"
  shows "governance_ok d'"
  using assms(1)
proof (cases rule: governance_call.cases)
  case Request_create
  from this(1) show ?thesis
    by (rule create_change_request_Inr) (rule governance_ok_add [OF assms(2)],
        auto simp: new_change_request_def is_candidate_of_def new_baseline_def dest: compose_candidate_id)
next
  case Request_update
  from this(1) show ?thesis by (rule update_keeps_governance [OF assms(2)])
next
  case Request_submit
  then show ?thesis
    by (rule submit_change_request_Inr) (rule governance_ok_move [OF assms(2)], assumption+, simp_all)
next
  case Request_review
  from this(1) show ?thesis by (rule review_keeps_governance [OF assms(2)])
next
  case Candidate_run
  then show ?thesis
    by (rule create_candidate_run_Inr)
      (rule governance_ok_cong [OF assms(2)], simp_all add: create_run_keeps_governance)
next
  case Validation_begin
  then show ?thesis
  proof (cases rule: begin_validation_run_Inr)
    case (not_needed c)
    show ?thesis
      by (rule governance_ok_move [where c' = "c\<lparr>cr_validation_status := NOT_REQUIRED, cr_validation_run := None\<rparr>",
            OF assms(2) not_needed(3,1)]) (simp_all add: not_needed(2))
  next
    case started
    then show ?thesis
      by (rule start_validation_Inr)
        (use assms(2) in \<open>auto intro: governance_ok_cong simp: create_run_keeps_governance\<close>)
  qed
next
  case Validation_bind
  then show ?thesis
    by (rule bind_validation_run_Inr) (rule governance_ok_move [OF assms(2)], assumption+, simp_all)
next
  case Request_publish
  then show ?thesis by (rule publish_keeps_governance [OF assms(2)])
qed

theorem governance_preserved_witness:
  "\<exists>d'. governance_call demo_db d' \<and> length (change_requests d') = 1 \<and> governance_ok d'"
proof -
  have "case create_change_request (demo_txn 2000 500) 10 demo_change 2 demo_db of
      Inl _ \<Rightarrow> False | Inr (d', c) \<Rightarrow> length (change_requests d') = 1"
    by code_simp
  then obtain d' c where call: "create_change_request (demo_txn 2000 500) 10 demo_change 2 demo_db = Inr (d', c)"
    and one: "length (change_requests d') = 1"
    by (auto split: sum.splits)
  have "succeeds (validate_all validate_shape (gc_changes demo_change))" by code_simp
  then have "governance_call demo_db d'" using Request_create [OF call] by (auto simp: succeeds_iff)
  moreover have "governance_ok demo_db" by code_simp
  ultimately show ?thesis using governance_preserved one by blast
qed

text \<open>
  C25: a release has a passed full regression and an approval behind it.  When a change request is
  published, the regression run named by the caller exists in the project, ran exactly the
  candidate that becomes released, ended PASSED with a recorded result and covered every enabled
  case; the released baseline is the document, version and digest of the request; and somebody
  other than its submitter approved it.
\<close>

theorem publication_is_governed:
  assumes "publish_change_request x project i run actor d = Inr (d', c', b')" and "governance_ok d"
  shows "\<exists>r. lookup_row r_id run (runs d) = Some r \<and> r_project r = project \<and> r_status r = PASSED
    \<and> r_result_digest r \<noteq> None \<and> r_baseline r = b_id b' \<and> r_case_count r = b_enabled_count b'
    \<and> b_status b' = Baseline_RELEASED \<and> b' \<in> set (baselines d') \<and> is_candidate_of c' b'
    \<and> cr_published_baseline c' = Some (b_id b') \<and> approved_by_another c' d"
  using assms(1)
proof (rule publish_change_request_Inr)
  fix c b r
  assume c: "get_change_request project i d = Inr c" "cr_status c = Change_CANDIDATE"
    and r: "regression_run_of project c run d = Inr r" "r_case_count r = b_enabled_count b"
    and b: "baseline_in_status (cr_candidate c) Baseline_CANDIDATE ''candidate baseline is missing or already published'' d = Inr b"
    and b': "b' = b\<lparr>b_status := Baseline_RELEASED\<rparr>"
    and c': "c' = c\<lparr>cr_status := Change_PUBLISHED, cr_published_at := Some (txn_now x), cr_published_baseline := Some (b_id b)\<rparr>"
    and rows: "baselines d' = update_row b_id (b_id b) (\<lambda>_. b') (baselines d)"
  note at = get_change_request_InrD [OF c(1)] and was = baseline_in_status_InrD [OF b]
  have "approved_by_another c d" "is_candidate_of c b"
    using governance_okD [OF assms(2) at(1)] c(2) was by (metis insertCI)+
  moreover have "b' \<in> set (baselines d')"
    using was(1) by (auto simp: rows update_row_def update_where_def intro!: rev_image_eqI)
  ultimately show ?thesis
    using r was(2)
    by (auto simp: regression_run_of_def b' c' is_candidate_of_def approved_by_another_def
        split: option.split_asm if_split_asm)
qed

theorem publication_is_governed_witness:
  "\<exists>d d' c' b'. publish_change_request (demo_txn 2003 800) 10 504 200 2 d = Inr (d', c', b')
     \<and> b_status b' = Baseline_RELEASED \<and> approved_by_another c' d"
proof -
  have "case demo_reviewed 3 of Inl _ \<Rightarrow> False
      | Inr (d, _) \<Rightarrow> (let d0 = d\<lparr>runs := [demo_regression]\<rparr>
          in governance_ok d0 \<and> succeeds (publish_change_request (demo_txn 2003 800) 10 504 200 2 d0))"
    by code_simp
  then obtain d d' c' b' where "governance_ok d"
      "publish_change_request (demo_txn 2003 800) 10 504 200 2 d = Inr (d', c', b')"
    by (auto simp: succeeds_iff Let_def split: sum.splits)
  with publication_is_governed [of "demo_txn 2003 800" 10 504 200 2 d d' c' b'] show ?thesis by blast
qed

subsection \<open>A validation run of a superseded candidate\<close>

text \<open>
  \<open>create_validation_run\<close> commits inside \<open>create_run\<close>, which ends the lock on the request, and binds
  the run without looking at the request again.  A draft edited in between is bound to a run of
  the candidate that the edit superseded.
\<close>

lemma stale_validation_bound:
  assumes "bind_validation_run x project i r actor d = Inr d'" "get_change_request project i d = Inr c"
    and "r_baseline r \<noteq> cr_candidate c"
  shows "\<exists>c'\<in>set (change_requests d'). cr_id c' = i \<and> cr_validation_run c' = Some (r_id r)
    \<and> cr_validation_status c' = Validation_run QUEUED \<and> cr_candidate c' \<noteq> r_baseline r"
  using assms(1)
proof (rule bind_validation_run_Inr)
  fix c1
  assume c1: "get_change_request project i d = Inr c1" and rows: "change_requests d' = update_row cr_id (cr_id c1)
       (\<lambda>_. c1\<lparr>cr_validation_run := Some (r_id r), cr_validation_status := Validation_run QUEUED\<rparr>) (change_requests d)"
  have "c1 = c" using c1 assms(2) by simp
  with get_change_request_InrD [OF c1] assms(3) show ?thesis
    by (intro bexI [of _ "c\<lparr>cr_validation_run := Some (r_id r), cr_validation_status := Validation_run QUEUED\<rparr>"])
      (auto simp: rows update_row_def update_where_def intro!: rev_image_eqI)
qed

end
