(* ===== verification/Cron.thy ===== *)
theory Cron
  imports Python_Text
begin

section \<open>Cron expressions\<close>

text \<open>
  \<open>cron.py\<close>: parsing five numeric fields and finding the first matching instant after a given
  one.  An error is the message of the \<open>CronValidationError\<close>.  Dates are numbers of days since
  1970-01-01, their month and day those of \<open>date.fromordinal\<close>.  A time zone of the IANA database
  is an argument: \<open>zn_local\<close> gives the local time of an instant (microseconds since the local
  epoch) and its \<open>fold\<close>, \<open>zn_utc\<close> the instant of a local time and a fold.  What the search
  relies on is the documented inverse (PEP 495): the local time and fold of an instant lead back
  to it.
\<close>

subsection \<open>Fields\<close>

record cron_field =
  cf_values :: "int list"
  cf_wildcard :: bool

definition parse_number :: "string \<Rightarrow> int \<Rightarrow> int \<Rightarrow> string \<Rightarrow> string + int" where
  "parse_number value minimum maximum name =
     (case parse_int value of
        None \<Rightarrow> Inl (name @ '' contains a non-numeric value: '' @ value)
      | Some parsed \<Rightarrow>
          if \<not> (minimum \<le> parsed \<and> parsed \<le> maximum)
          then Inl (name @ '' must be between '' @ decimal (nat minimum) @ '' and '' @ decimal (nat maximum))
          else Inr parsed)"

definition parse_step :: "bool \<Rightarrow> string \<Rightarrow> string \<Rightarrow> string + int" where
  "parse_step separator raw_step name =
     (if \<not> separator then Inr 1
      else case parse_int raw_step of
        None \<Rightarrow> Inl (name @ '' step must be numeric'')
      | Some step \<Rightarrow> if step \<le> 0 then Inl (name @ '' step must be greater than zero'') else Inr step)"

definition parse_range :: "string \<Rightarrow> bool \<Rightarrow> int \<Rightarrow> int \<Rightarrow> string \<Rightarrow> string + int \<times> int" where
  "parse_range base separator minimum maximum name =
     (if base = ''*'' then Inr (minimum, maximum)
      else if CHR ''-'' \<in> set base then
        (let (raw_start, _, raw_end) = partition_at (CHR ''-'') base in
         bind_outcome (parse_number raw_start minimum maximum name) (\<lambda>start.
         bind_outcome (parse_number raw_end minimum maximum name) (\<lambda>end'.
           if start > end' then Inl (name @ '' range start must not exceed its end'')
           else Inr (start, end'))))
      else
        bind_outcome (parse_number base minimum maximum name) (\<lambda>start.
          Inr (start, if separator then maximum else start)))"

text \<open>\<open>range(start, stop, step)\<close> for a positive step.\<close>

definition py_range :: "int \<Rightarrow> int \<Rightarrow> int \<Rightarrow> int list" where
  "py_range start stop step = map (\<lambda>k. start + int k * step) [0 ..< nat ((stop - start + step - 1) div step)]"

definition parse_item :: "string \<Rightarrow> string \<Rightarrow> int \<Rightarrow> int \<Rightarrow> string \<Rightarrow> string + int list" where
  "parse_item raw item minimum maximum name =
     (if item = [] \<or> length (filter (\<lambda>c. c = CHR ''/'') item) > 1
      then Inl (''invalid '' @ name @ '' segment: '' @ (if item = [] then raw else item))
      else
      let (base, separator, raw_step) = partition_at (CHR ''/'') item in
      bind_outcome (parse_step separator raw_step name) (\<lambda>step.
      bind_outcome (parse_range base separator minimum maximum name) (\<lambda>(start, end').
        Inr (py_range start (end' + 1) step))))"

fun parse_items :: "string \<Rightarrow> string list \<Rightarrow> int \<Rightarrow> int \<Rightarrow> string \<Rightarrow> string + int list" where
  "parse_items raw [] minimum maximum name = Inr []"
| "parse_items raw (item # items) minimum maximum name =
     bind_outcome (parse_item raw item minimum maximum name) (\<lambda>vs.
     bind_outcome (parse_items raw items minimum maximum name) (\<lambda>ws. Inr (vs @ ws)))"

text \<open>The set of values is kept sorted, the order in which it is read.\<close>

definition parse_field :: "string \<Rightarrow> int \<Rightarrow> int \<Rightarrow> string \<Rightarrow> string + cron_field" where
  "parse_field raw minimum maximum name =
     (if raw = [] then Inl (name @ '' cannot be empty'')
      else bind_outcome (parse_items raw (split_on (CHR '','') raw) minimum maximum name) (\<lambda>values.
        if values = [] then Inl (name @ '' selects no values'')
        else Inr \<lparr>cf_values = sort (remdups values), cf_wildcard = (raw = ''*'')\<rparr>))"

record cron_expression =
  ce_expression :: string
  ce_minute :: cron_field
  ce_hour :: cron_field
  ce_day_of_month :: cron_field
  ce_month :: cron_field
  ce_day_of_week :: cron_field

definition sunday_is_zero :: "cron_field \<Rightarrow> cron_field" where
  "sunday_is_zero f = f\<lparr>cf_values := sort (remdups (map (\<lambda>v. if v = 7 then 0 else v) (cf_values f)))\<rparr>"

definition parse_expression :: "string \<Rightarrow> string + cron_expression" where
  "parse_expression expression =
     (let normalized = join (CHR '' '') (words expression) in
      case split_on (CHR '' '') normalized of
        [p0, p1, p2, p3, p4] \<Rightarrow>
          bind_outcome (parse_field p0 0 59 ''minute'') (\<lambda>minute.
          bind_outcome (parse_field p1 0 23 ''hour'') (\<lambda>hour.
          bind_outcome (parse_field p2 1 31 ''day of month'') (\<lambda>day_of_month.
          bind_outcome (parse_field p3 1 12 ''month'') (\<lambda>month.
          bind_outcome (parse_field p4 0 7 ''day of week'') (\<lambda>raw_weekday.
            Inr \<lparr>ce_expression = normalized, ce_minute = minute, ce_hour = hour,
              ce_day_of_month = day_of_month, ce_month = month,
              ce_day_of_week = sunday_is_zero raw_weekday\<rparr>)))))
      | _ \<Rightarrow> Inl ''Cron expression must contain exactly five fields'')"

definition normalize_cron_expression :: "string \<Rightarrow> string + string" where
  "normalize_cron_expression expression = bind_outcome (parse_expression expression) (\<lambda>e. Inr (ce_expression e))"

subsection \<open>The calendar\<close>

fun month_day :: "int list \<Rightarrow> int \<Rightarrow> int \<Rightarrow> int \<times> int" where
  "month_day [] month n = (month, n + 1)"
| "month_day (len # lens) month n = (if n < len then (month, n + 1) else month_day lens (month + 1) (n - len))"

definition month_lengths :: "bool \<Rightarrow> int list" where
  "month_lengths leap = [31, if leap then 29 else 28, 31, 30, 31, 30, 31, 31, 30, 31, 30, 31]"

text \<open>
  The month and the day of \<open>date.fromordinal\<close>; 1970-01-01 is the ordinal 719163, and the
  arithmetic counts from 0001-01-01.
\<close>

definition date_month_day :: "int \<Rightarrow> int \<times> int" where
  "date_month_day date =
     (let n = date + 719162;
          n400 = n mod 146097;
          n100 = n400 div 36524; r100 = n400 mod 36524;
          n4 = r100 div 1461; r4 = r100 mod 1461;
          n1 = r4 div 365; r1 = r4 mod 365
      in if n1 = 4 \<or> n100 = 4 then (12, 31)
         else month_day (month_lengths (n1 = 3 \<and> (n4 \<noteq> 24 \<or> n100 = 3))) 1 r1)"

definition date_year :: "int \<Rightarrow> int" where
  "date_year date =
     (let n = date + 719162;
          n400 = n mod 146097;
          n100 = n400 div 36524; r100 = n400 mod 36524;
          n4 = r100 div 1461; r4 = r100 mod 1461;
          n1 = r4 div 365;
          year = n div 146097 * 400 + n100 * 100 + n4 * 4 + n1 + 1
      in if n1 = 4 \<or> n100 = 4 then year - 1 else year)"

text \<open>\<open>(date.weekday() + 1) % 7\<close>: Sunday is 0; 1970-01-01 was a Thursday.\<close>

definition cron_weekday :: "int \<Rightarrow> int" where
  "cron_weekday date = ((date + 3) mod 7 + 1) mod 7"

definition date_matches :: "cron_expression \<Rightarrow> int \<Rightarrow> bool" where
  "date_matches e candidate =
     (let (month, day) = date_month_day candidate in
      if month \<notin> set (cf_values (ce_month e)) then False
      else
      let day_match = (day \<in> set (cf_values (ce_day_of_month e)));
          weekday_match = (cron_weekday candidate \<in> set (cf_values (ce_day_of_week e)))
      in if cf_wildcard (ce_day_of_month e) \<and> cf_wildcard (ce_day_of_week e) then True
         else if cf_wildcard (ce_day_of_month e) then weekday_match
         else if cf_wildcard (ce_day_of_week e) then day_match
         else day_match \<or> weekday_match)"

subsection \<open>The next occurrence\<close>

record time_zone =
  zn_local :: "instant \<Rightarrow> instant \<times> nat"
  zn_utc :: "instant \<Rightarrow> nat \<Rightarrow> instant"

definition minute_length :: int where
  "minute_length = 60 * 1000000"

definition local_time :: "int \<Rightarrow> int \<Rightarrow> int \<Rightarrow> instant" where
  "local_time date hour minute = date * day_length + (hour * 60 + minute) * minute_length"

text \<open>The local times of one date that exist in the zone and lie after the instant, in UTC.\<close>

definition candidates :: "time_zone \<Rightarrow> cron_expression \<Rightarrow> instant \<Rightarrow> int \<Rightarrow> instant list" where
  "candidates z e now date =
     concat (map (\<lambda>hour. concat (map (\<lambda>minute. concat (map (\<lambda>fold.
       let naive = local_time date hour minute;
           candidate = zn_utc z naive fold
       in if zn_local z candidate \<noteq> (naive, fold) then []
          else if now < candidate then [candidate] else []) [0, 1]))
       (cf_values (ce_minute e)))) (cf_values (ce_hour e)))"

definition local_date :: "time_zone \<Rightarrow> instant \<Rightarrow> int" where
  "local_date z u = fst (zn_local z u) div day_length"

definition max_days :: nat where
  "max_days = 366 * 8 + 2"

fun search_dates :: "time_zone \<Rightarrow> cron_expression \<Rightarrow> instant \<Rightarrow> nat \<Rightarrow> int \<Rightarrow> instant option" where
  "search_dates z e now 0 date = None"
| "search_dates z e now (Suc n) date =
     (if \<not> date_matches e date then search_dates z e now n (date + 1)
      else case candidates z e now date of
        [] \<Rightarrow> search_dates z e now n (date + 1)
      | c # cs \<Rightarrow> Some (foldr min cs c))"

text \<open>\<open>ZoneInfo(name)\<close> is the argument \<open>tz\<close>; an unknown name is \<open>None\<close>.\<close>

definition next_after :: "(string \<Rightarrow> time_zone option) \<Rightarrow> cron_expression \<Rightarrow> instant \<Rightarrow> string \<Rightarrow> string + instant" where
  "next_after tz e now zone_name =
     (case tz zone_name of
        None \<Rightarrow> Inl (''unknown IANA timezone: '' @ zone_name)
      | Some z \<Rightarrow>
          (case search_dates z e now max_days (local_date z now) of
             None \<Rightarrow> Inl ''Cron expression has no occurrence within eight years''
           | Some t \<Rightarrow> Inr t))"

definition validate_timezone :: "(string \<Rightarrow> time_zone option) \<Rightarrow> string \<Rightarrow> string + string" where
  "validate_timezone tz name =
     (case tz name of None \<Rightarrow> Inl (''unknown IANA timezone: '' @ name) | Some z \<Rightarrow> Inr name)"

subsection \<open>Parsed expressions are well-formed\<close>

definition field_ok :: "int \<Rightarrow> int \<Rightarrow> cron_field \<Rightarrow> bool" where
  "field_ok lo hi f \<longleftrightarrow> cf_values f \<noteq> [] \<and> sorted (cf_values f) \<and> distinct (cf_values f)
     \<and> set (cf_values f) \<subseteq> {lo..hi} \<and> (cf_wildcard f \<longrightarrow> set (cf_values f) = {lo..hi})"

definition expression_ok :: "cron_expression \<Rightarrow> bool" where
  "expression_ok e \<longleftrightarrow> field_ok 0 59 (ce_minute e) \<and> field_ok 0 23 (ce_hour e)
     \<and> field_ok 1 31 (ce_day_of_month e) \<and> field_ok 1 12 (ce_month e) \<and> field_ok 0 6 (ce_day_of_week e)"

lemma set_py_range:
  assumes "0 < step"
  shows "set (py_range start (end' + 1) step) \<subseteq> {start..end'}"
    "start \<le> end' \<Longrightarrow> start \<in> set (py_range start (end' + 1) step)"
proof -
  have count: "(end' + 1 - start + step - 1) div step = (end' - start) div step + 1"
  proof -
    have "end' + 1 - start + step - 1 = (end' - start) + step" by simp
    moreover have "((end' - start) + step) div step = (end' - start) div step + 1"
      using assms by (intro div_add_self2) simp
    ultimately show ?thesis by (simp only:)
  qed
  show "set (py_range start (end' + 1) step) \<subseteq> {start..end'}"
  proof
    fix v assume "v \<in> set (py_range start (end' + 1) step)"
    then obtain k where "v = start + int k * step" "k \<in> set [0 ..< nat ((end' - start) div step + 1)]"
      unfolding py_range_def count set_map by (rule imageE)
    then have "v = start + int k * step" "k < nat ((end' - start) div step + 1)" by simp_all
    then have k: "v = start + int k * step" "int k \<le> (end' - start) div step" by linarith+
    then have "int k * step \<le> (end' - start) div step * step" using assms by simp
    also have "\<dots> \<le> end' - start" using assms by (simp add: minus_mod_eq_div_mult [symmetric])
    finally show "v \<in> {start..end'}" using k assms by simp
  qed
  assume "start \<le> end'"
  then have "0 < nat ((end' - start) div step + 1)" using assms by (simp add: pos_imp_zdiv_nonneg_iff)
  then show "start \<in> set (py_range start (end' + 1) step)"
    unfolding py_range_def count by (force simp: image_iff)
qed

lemma py_range_unit: "set (py_range start (end' + 1) 1) = {start..end'}"
proof
  show "{start..end'} \<subseteq> set (py_range start (end' + 1) 1)"
  proof
    fix v assume "v \<in> {start..end'}"
    then show "v \<in> set (py_range start (end' + 1) 1)"
      unfolding py_range_def by (simp, intro image_eqI [of _ _ "nat (v - start)"]) auto
  qed
qed (rule set_py_range, simp)

lemma parse_number_Inr: "parse_number v lo hi name = Inr n \<Longrightarrow> lo \<le> n \<and> n \<le> hi"
  by (auto simp: parse_number_def split: option.splits if_split_asm)

lemma parse_step_Inr: "parse_step sep raw name = Inr n \<Longrightarrow> 0 < n"
  by (auto simp: parse_step_def split: option.splits if_split_asm)

lemma parse_range_Inr:
  assumes "parse_range base sep lo hi name = Inr (a, b)" "lo \<le> hi"
  shows "lo \<le> a \<and> a \<le> b \<and> b \<le> hi"
  using assms unfolding parse_range_def
  by (auto split: if_split_asm prod.splits elim!: bind_outcome_InrE guard_InrE dest!: parse_number_Inr)

lemma parse_item_Inr:
  assumes "parse_item raw item lo hi name = Inr vs" "lo \<le> hi"
  shows "vs \<noteq> [] \<and> set vs \<subseteq> {lo..hi}"
proof -
  obtain base separator raw_step where p: "partition_at (CHR ''/'') item = (base, separator, raw_step)"
    by (cases "partition_at (CHR ''/'') item")
  from assms(1) obtain step a b where "parse_step separator raw_step name = Inr step"
    "parse_range base separator lo hi name = Inr (a, b)" and vs: "vs = py_range a (b + 1) step"
    unfolding parse_item_def p Let_def
    by (auto elim!: guard_InrE bind_outcome_InrE split: prod.splits simp del: if_split)
  then have "0 < step" "lo \<le> a" "a \<le> b" "b \<le> hi"
    using parse_step_Inr parse_range_Inr [OF _ assms(2)] by blast+
  with set_py_range [of step a b] show ?thesis unfolding vs by auto
qed

lemma parse_items_Inr:
  "parse_items raw items lo hi name = Inr vs \<Longrightarrow> lo \<le> hi \<Longrightarrow> set vs \<subseteq> {lo..hi} \<and> (items \<noteq> [] \<longrightarrow> vs \<noteq> [])"
proof (induction raw items lo hi name arbitrary: vs rule: parse_items.induct)
  case (2 raw item items lo hi name)
  then obtain a b where "parse_item raw item lo hi name = Inr a" "parse_items raw items lo hi name = Inr b" "vs = a @ b"
    by (auto elim!: bind_outcome_InrE)
  with 2 parse_item_Inr [of raw item lo hi name a] show ?case by auto
qed simp

lemma parse_items_star:
  "parse_items ''*'' (split_on (CHR '','') ''*'') lo hi name = Inr (py_range lo (hi + 1) 1)"
proof -
  have "split_on (CHR '','') ''*'' = [''*'']" by simp
  moreover have "partition_at (CHR ''/'') ''*'' = (''*'', False, [])" by (simp add: partition_at_def)
  ultimately show ?thesis by (simp add: parse_item_def parse_step_def parse_range_def)
qed

lemma sort_remdups_Nil: "sort (remdups xs) = [] \<longleftrightarrow> xs = []"
  by (metis set_empty set_remdups set_sort)

lemma parse_field_ok:
  assumes "parse_field raw lo hi name = Inr f" "lo \<le> hi"
  shows "field_ok lo hi f"
proof -
  obtain vs where vs: "parse_items raw (split_on (CHR '','') raw) lo hi name = Inr vs" "vs \<noteq> []"
    and f: "f = \<lparr>cf_values = sort (remdups vs), cf_wildcard = (raw = ''*'')\<rparr>"
    using assms(1) unfolding parse_field_def by (auto elim!: guard_InrE bind_outcome_InrE simp del: if_split)
  have "raw = ''*'' \<Longrightarrow> vs = py_range lo (hi + 1) 1" using vs(1) parse_items_star by (metis sum.inject(2))
  then have "raw = ''*'' \<Longrightarrow> set vs = {lo..hi}" by (simp add: py_range_unit)
  with vs parse_items_Inr [OF vs(1) assms(2)] show ?thesis
    unfolding f field_ok_def by (auto simp: sort_remdups_Nil)
qed

lemma sunday_is_zero_ok:
  assumes "field_ok 0 7 f"
  shows "field_ok 0 6 (sunday_is_zero f)"
proof -
  have "set (cf_values (sunday_is_zero f)) = (\<lambda>v. if v = 7 then 0 else v) ` set (cf_values f)"
    by (simp add: sunday_is_zero_def)
  moreover have "(\<lambda>v. if v = 7 then 0 else v :: int) ` {0..7} = {0..6}"
  proof
    show "{0..6} \<subseteq> (\<lambda>v. if v = 7 then 0 else v :: int) ` {0..7}"
    proof
      fix v :: int assume "v \<in> {0..6}"
      then show "v \<in> (\<lambda>v. if v = 7 then 0 else v) ` {0..7}" by (intro image_eqI [of _ _ v]) auto
    qed
  qed auto
  ultimately show ?thesis using assms
    by (auto simp: field_ok_def sunday_is_zero_def sort_remdups_Nil)
qed

lemma parse_expression_Inr:
  assumes "parse_expression s = Inr e"
  shows "expression_ok e" "ce_expression e = join (CHR '' '') (words s)"
proof -
  obtain p0 p1 p2 p3 p4 where parts: "split_on (CHR '' '') (join (CHR '' '') (words s)) = [p0, p1, p2, p3, p4]"
    using assms unfolding parse_expression_def Let_def by (auto split: list.splits)
  note call = assms [unfolded parse_expression_def Let_def parts list.case]
  then show "expression_ok e" "ce_expression e = join (CHR '' '') (words s)"
    by (auto elim!: bind_outcome_InrE simp: expression_ok_def dest!: parse_field_ok intro: sunday_is_zero_ok)
qed

text \<open>
  C26: a parsed expression is well-formed and in normal form.  Whatever text was parsed, every
  field of the result is a non-empty, sorted, duplicate-free list within the bounds of its unit
  (a week day within 0 and 6), a wildcard stands for all of them, and the normalized text parses
  to the same expression again.
\<close>

theorem parsed_expression_wellformed:
  assumes "parse_expression s = Inr e"
  shows "expression_ok e \<and> parse_expression (ce_expression e) = Inr e"
proof -
  have "words (join (CHR '' '') (words s)) = words s"
    by (rule words_join) (use words_no_space in \<open>auto simp: is_space_def\<close>)
  then have "parse_expression (join (CHR '' '') (words s)) = parse_expression s"
    by (simp add: parse_expression_def)
  with parse_expression_Inr [OF assms] assms show ?thesis by simp
qed

subsection \<open>The search finds the first occurrence\<close>

definition minute_of_day :: "instant \<Rightarrow> int" where
  "minute_of_day l = (l div minute_length) mod 1440"

text \<open>The reference: a local time on a whole minute whose minute, hour and date the expression selects.\<close>

definition due_time :: "cron_expression \<Rightarrow> instant \<Rightarrow> bool" where
  "due_time e l \<longleftrightarrow> l mod minute_length = 0 \<and> minute_of_day l div 60 \<in> set (cf_values (ce_hour e))
     \<and> minute_of_day l mod 60 \<in> set (cf_values (ce_minute e))"

definition due :: "time_zone \<Rightarrow> cron_expression \<Rightarrow> instant \<Rightarrow> bool" where
  "due z e u \<longleftrightarrow> due_time e (fst (zn_local z u)) \<and> date_matches e (local_date z u)"

definition zone_ok :: "time_zone \<Rightarrow> bool" where
  "zone_ok z \<longleftrightarrow> (\<forall>u. zn_utc z (fst (zn_local z u)) (snd (zn_local z u)) = u \<and> snd (zn_local z u) \<in> {0, 1})"

text \<open>No clock is turned back across midnight.\<close>

definition dates_monotone :: "time_zone \<Rightarrow> bool" where
  "dates_monotone z \<longleftrightarrow> (\<forall>u v. u \<le> v \<longrightarrow> local_date z u \<le> local_date z v)"

lemma local_time_minutes: "local_time date h m = (date * 1440 + h * 60 + m) * minute_length"
  by (simp add: local_time_def day_length_def minute_length_def algebra_simps)

lemma div_day: "l div day_length = (l div minute_length) div 1440"
proof -
  have "day_length = minute_length * 1440" by (simp add: day_length_def minute_length_def)
  then show ?thesis using zdiv_zmult2_eq [of 1440 l minute_length] by (simp only:)
qed

lemma due_time_local_time:
  assumes "0 \<le> h" "h \<le> 23" "0 \<le> m" "m \<le> 59"
  shows "local_time date h m div day_length = date" "minute_of_day (local_time date h m) = h * 60 + m"
    "local_time date h m mod minute_length = 0"
proof -
  have k: "local_time date h m div minute_length = date * 1440 + (h * 60 + m)"
    by (simp add: local_time_minutes minute_length_def algebra_simps)
  have "0 \<le> h * 60 + m" "h * 60 + m < 1440" using assms by simp_all
  then show "local_time date h m div day_length = date" "minute_of_day (local_time date h m) = h * 60 + m"
    unfolding div_day minute_of_day_def k by simp_all
  show "local_time date h m mod minute_length = 0" by (simp add: local_time_minutes)
qed

lemma local_time_of:
  assumes "l mod minute_length = 0"
  shows "local_time (l div day_length) (minute_of_day l div 60) (minute_of_day l mod 60) = l"
proof -
  have "l div day_length * 1440 + minute_of_day l = l div minute_length"
    unfolding div_day minute_of_day_def by (simp add: mult.commute)
  moreover have "minute_of_day l div 60 * 60 + minute_of_day l mod 60 = minute_of_day l" by simp
  ultimately have "local_time (l div day_length) (minute_of_day l div 60) (minute_of_day l mod 60)
      = l div minute_length * minute_length"
    unfolding local_time_minutes by simp
  with assms show ?thesis by (simp add: minus_mod_eq_div_mult [symmetric])
qed

lemma field_range: "field_ok lo hi f \<Longrightarrow> v \<in> set (cf_values f) \<Longrightarrow> lo \<le> v \<and> v \<le> hi"
  by (auto simp: field_ok_def)

lemma candidates_iff:
  assumes "expression_ok e" "zone_ok z"
  shows "u \<in> set (candidates z e now date) \<longleftrightarrow>
    now < u \<and> due_time e (fst (zn_local z u)) \<and> local_date z u = date"
proof
  assume "u \<in> set (candidates z e now date)"
  then obtain h m f where hm: "h \<in> set (cf_values (ce_hour e))" "m \<in> set (cf_values (ce_minute e))"
    and u: "zn_local z u = (local_time date h m, f)" "now < u"
    unfolding candidates_def by (auto simp: Let_def split: if_split_asm)
  have "0 \<le> h" "h \<le> 23" "0 \<le> m" "m \<le> 59"
    using hm assms(1) field_range unfolding expression_ok_def by blast+
  note l = due_time_local_time [OF this, of date]
  from \<open>0 \<le> m\<close> \<open>m \<le> 59\<close> have "(h * 60 + m) div 60 = h" "(h * 60 + m) mod 60 = m" by simp_all
  with l hm u show "now < u \<and> due_time e (fst (zn_local z u)) \<and> local_date z u = date"
    by (simp add: due_time_def local_date_def)
next
  assume u: "now < u \<and> due_time e (fst (zn_local z u)) \<and> local_date z u = date"
  obtain l f where l: "zn_local z u = (l, f)" by (cases "zn_local z u")
  let ?h = "minute_of_day l div 60" and ?m = "minute_of_day l mod 60"
  have naive: "local_time date ?h ?m = l" using u l local_time_of [of l] by (simp add: due_time_def local_date_def)
  have "f \<in> {0, 1}" "zn_utc z l f = u" using assms(2) l unfolding zone_ok_def by (metis fst_conv snd_conv)+
  with u l naive have "u \<in> set (let naive = local_time date ?h ?m; candidate = zn_utc z naive f
      in if zn_local z candidate \<noteq> (naive, f) then [] else if now < candidate then [candidate] else [])"
    by simp
  moreover have "?h \<in> set (cf_values (ce_hour e))" "?m \<in> set (cf_values (ce_minute e))"
    using u l by (simp_all add: due_time_def)
  ultimately show "u \<in> set (candidates z e now date)"
    using \<open>f \<in> {0, 1}\<close> unfolding candidates_def set_concat set_map by (auto simp del: Let_def)
qed

lemma foldr_min: "foldr min cs (c :: int) \<in> set (c # cs) \<and> (\<forall>u\<in>set (c # cs). foldr min cs c \<le> u)"
  by (induction cs) (auto simp: min_def)

lemma search_dates_Some:
  "search_dates z e now n date = Some t \<Longrightarrow> \<exists>k. date \<le> k \<and> k < date + int n \<and> date_matches e k
     \<and> t \<in> set (candidates z e now k) \<and> (\<forall>u\<in>set (candidates z e now k). t \<le> u)
     \<and> (\<forall>j. date \<le> j \<and> j < k \<and> date_matches e j \<longrightarrow> candidates z e now j = [])"
proof (induction n arbitrary: date)
  case (Suc n)
  show ?case
  proof (cases "date_matches e date \<and> candidates z e now date \<noteq> []")
    case True
    then obtain c cs where "candidates z e now date = c # cs" by (meson neq_Nil_conv)
    with True Suc.prems foldr_min [of cs c] show ?thesis by (intro exI [of _ date]) auto
  next
    case False
    with Suc.prems have "search_dates z e now n (date + 1) = Some t" by (auto split: if_split_asm)
    from Suc.IH [OF this] obtain k where k: "date + 1 \<le> k" "k < date + 1 + int n" "date_matches e k"
      "t \<in> set (candidates z e now k)" "\<forall>u\<in>set (candidates z e now k). t \<le> u"
      "\<forall>j. date + 1 \<le> j \<and> j < k \<and> date_matches e j \<longrightarrow> candidates z e now j = []"
      by blast
    have "candidates z e now j = []" if "date \<le> j \<and> j < k \<and> date_matches e j" for j
      using k(6) False that by (cases "j = date") auto
    with k show ?thesis by (intro exI [of _ k]) auto
  qed
qed simp

lemma search_dates_None:
  "search_dates z e now n date = None \<Longrightarrow> date \<le> k \<Longrightarrow> k < date + int n \<Longrightarrow> date_matches e k
     \<Longrightarrow> candidates z e now k = []"
proof (induction n arbitrary: date)
  case (Suc n)
  then show ?case by (cases "k = date") (auto split: if_split_asm list.splits)
qed simp

lemma search_dates_due:
  assumes "expression_ok e" "zone_ok z" "dates_monotone z"
  shows "search_dates z e now n (local_date z now) = Some t \<longleftrightarrow>
    now < t \<and> due z e t \<and> local_date z t < local_date z now + int n \<and> (\<forall>u. now < u \<and> due z e u \<longrightarrow> t \<le> u)"
proof -
  have first: "now < t \<and> due z e t \<and> local_date z t < local_date z now + int n \<and> (\<forall>u. now < u \<and> due z e u \<longrightarrow> t \<le> u)"
    if found: "search_dates z e now n (local_date z now) = Some t" for t
  proof -
    from search_dates_Some [OF found] obtain k where k: "k < local_date z now + int n" "date_matches e k"
      "t \<in> set (candidates z e now k)" "\<forall>u\<in>set (candidates z e now k). t \<le> u"
      "\<forall>j. local_date z now \<le> j \<and> j < k \<and> date_matches e j \<longrightarrow> candidates z e now j = []"
      by blast
    from k(3) have t: "now < t" "due_time e (fst (zn_local z t))" "local_date z t = k"
      unfolding candidates_iff [OF assms(1,2)] by simp_all
    have "t \<le> u" if u: "now < u" "due z e u" for u
    proof (rule ccontr)
      assume "\<not> t \<le> u"
      have own: "u \<in> set (candidates z e now (local_date z u))"
        using u unfolding candidates_iff [OF assms(1,2)] by (simp add: due_def)
      have "local_date z now \<le> local_date z u" "local_date z u \<le> k"
        using assms(3) u(1) \<open>\<not> t \<le> u\<close> t(3) by (auto simp: dates_monotone_def)
      with k(5) own u(2) have "local_date z u = k" by (force simp: due_def)
      with own k(4) \<open>\<not> t \<le> u\<close> show False by simp
    qed
    with t k show ?thesis by (simp add: due_def)
  qed
  show ?thesis
  proof
    assume right: "now < t \<and> due z e t \<and> local_date z t < local_date z now + int n \<and> (\<forall>u. now < u \<and> due z e u \<longrightarrow> t \<le> u)"
    have "t \<in> set (candidates z e now (local_date z t))"
      using right unfolding candidates_iff [OF assms(1,2)] by (simp add: due_def)
    moreover have "local_date z now \<le> local_date z t" using assms(3) right by (simp add: dates_monotone_def)
    ultimately obtain s where s: "search_dates z e now n (local_date z now) = Some s"
      using search_dates_None [of z e now n "local_date z now" "local_date z t"] right
      by (cases "search_dates z e now n (local_date z now)") (auto simp: due_def)
    with first [OF s] right show "search_dates z e now n (local_date z now) = Some t" by force
  qed (rule first)
qed

lemma candidates_later: "u \<in> set (candidates z e now date) \<Longrightarrow> now < u"
  by (auto simp: candidates_def Let_def split: if_split_asm)

lemma foldr_min_mem: "foldr min cs c \<in> set (c # cs)" for c :: int
  by (induction cs) (auto simp: min_def)

lemma search_dates_later: "search_dates z e now n date = Some t \<Longrightarrow> now < t"
proof (induction n arbitrary: date)
  case (Suc n)
  show ?case
  proof (cases "candidates z e now date")
    case Nil
    with Suc show ?thesis by (auto split: if_split_asm)
  next
    case (Cons c cs)
    with Suc show ?thesis
      using candidates_later [of "foldr min cs c" z e now date] foldr_min_mem [of cs c]
      by (auto split: if_split_asm)
  qed
qed simp

lemma next_after_later: "next_after tz e now zone_name = Inr t \<Longrightarrow> now < t"
  by (auto simp: next_after_def search_dates_later split: option.splits)

text \<open>
  C27: the search returns the first occurrence.  In a zone whose conversions are inverse and whose
  clock is never turned back across midnight, \<open>next_after\<close> of a parsed expression returns \<open>t\<close>
  exactly when \<open>t\<close> is the least instant after the given one whose local time is a whole minute
  selected by the expression, within the 2930 days of the search.  The order of the loops over
  hours, minutes and folds and the gaps and repeated hours of a change of the clock do not show.
\<close>

theorem next_after_is_first_occurrence:
  assumes "parse_expression s = Inr e" and "tz zone_name = Some z" and "zone_ok z" and "dates_monotone z"
  shows "next_after tz e now zone_name = Inr t \<longleftrightarrow>
    now < t \<and> due z e t \<and> local_date z t < local_date z now + 2930 \<and> (\<forall>u. now < u \<and> due z e u \<longrightarrow> t \<le> u)"
proof -
  have "next_after tz e now zone_name = Inr t \<longleftrightarrow> search_dates z e now max_days (local_date z now) = Some t"
    using assms(2) by (auto simp: next_after_def split: option.splits)
  moreover have "int max_days = 2930" by (simp add: max_days_def)
  ultimately show ?thesis
    using search_dates_due [OF parse_expression_Inr(1) [OF assms(1)] assms(3,4)] by simp
qed

text \<open>A zone one hour ahead of UTC until 01:00 UTC of day 100, where the clock is set back to UTC.\<close>

definition demo_zone :: time_zone where
  "demo_zone =
     (let hour = 60 * minute_length; change = 100 * day_length + hour in
      \<lparr>zn_local = (\<lambda>u. if u < change then (u + hour, 0) else (u, if u < change + hour then 1 else 0)),
       zn_utc = (\<lambda>l fold. if l < change + hour \<and> (l < change \<or> fold = 0) then l - hour else l)\<rparr>)"

lemma demo_zone_ok: "zone_ok demo_zone" "dates_monotone demo_zone"
proof -
  show "zone_ok demo_zone" by (auto simp: zone_ok_def demo_zone_def Let_def minute_length_def day_length_def)
  have "local_date demo_zone u \<le> local_date demo_zone v" if "u \<le> v" for u v
  proof -
    have "fst (zn_local demo_zone u) div day_length \<le> fst (zn_local demo_zone v) div day_length"
    proof (cases "u < 100 * day_length + 60 * minute_length \<and> \<not> v < 100 * day_length + 60 * minute_length")
      case True
      then have "u + 60 * minute_length \<le> 101 * day_length - 1" "100 * day_length \<le> v"
        by (simp_all add: minute_length_def day_length_def)
      then have "(u + 60 * minute_length) div day_length \<le> (101 * day_length - 1) div day_length"
        "100 * day_length div day_length \<le> v div day_length"
        by (intro zdiv_mono1; simp add: day_length_def)+
      moreover have "(101 * day_length - 1) div day_length = 100" "100 * day_length div day_length = 100"
        by (simp_all add: day_length_def)
      ultimately show ?thesis using True by (simp add: demo_zone_def Let_def)
    next
      case False
      with that have "fst (zn_local demo_zone u) \<le> fst (zn_local demo_zone v)"
        by (auto simp: demo_zone_def Let_def minute_length_def)
      then show ?thesis by (intro zdiv_mono1) (simp_all add: day_length_def)
    qed
    then show ?thesis by (simp add: local_date_def)
  qed
  then show "dates_monotone demo_zone" by (simp add: dates_monotone_def)
qed

lemma demo_parses:
  "case parse_expression '' 30  1 * * *'' of Inl _ \<Rightarrow> False
    | Inr e \<Rightarrow> ce_expression e = ''30 1 * * *'' \<and> cf_values (ce_minute e) = [30] \<and> cf_values (ce_hour e) = [1]
        \<and> cf_wildcard (ce_day_of_month e) \<and> cf_wildcard (ce_day_of_week e)"
  by code_simp

theorem parsed_expression_wellformed_witness:
  "\<exists>e. parse_expression '' 30  1 * * *'' = Inr e \<and> parse_expression ''30 1 * * *'' = Inr e \<and> expression_ok e"
proof -
  obtain e where "parse_expression '' 30  1 * * *'' = Inr e" "ce_expression e = ''30 1 * * *''"
    using demo_parses by (auto split: sum.splits)
  with parsed_expression_wellformed show ?thesis by metis
qed

lemma demo_next:
  "case parse_expression ''30 1 * * *'' of Inl _ \<Rightarrow> False
    | Inr e \<Rightarrow> next_after (\<lambda>_. Some demo_zone) e (100 * day_length + 45 * minute_length) ''Europe/London''
        = Inr (100 * day_length + 90 * minute_length)"
  by code_simp

theorem next_after_is_first_occurrence_witness:
  "\<exists>e. parse_expression ''30 1 * * *'' = Inr e
     \<and> next_after (\<lambda>_. Some demo_zone) e (100 * day_length + 45 * minute_length) ''Europe/London''
        = Inr (100 * day_length + 90 * minute_length)
     \<and> (\<forall>u. 100 * day_length + 45 * minute_length < u \<and> due demo_zone e u \<longrightarrow> 100 * day_length + 90 * minute_length \<le> u)"
proof -
  obtain e where e: "parse_expression ''30 1 * * *'' = Inr e"
    and t: "next_after (\<lambda>_. Some demo_zone) e (100 * day_length + 45 * minute_length) ''Europe/London''
        = Inr (100 * day_length + 90 * minute_length)"
    using demo_next by (auto split: sum.splits)
  from t [unfolded next_after_is_first_occurrence [OF e refl demo_zone_ok]] e t show ?thesis by blast
qed

end
