(* ===== verification/Schedules.thy ===== *)
theory Schedules
  imports Cron Run_Creation
begin

section \<open>Regression schedules\<close>

text \<open>
  \<open>schedule_services.py\<close>: schedules of regression runs, their manual trigger and the processing of
  the schedules that are due.  The conversions of the time zones are the argument \<open>tz\<close> of
  \<open>next_after\<close>.  \<open>create_run\<close> is called with \<open>commit=False\<close>, so a firing, its run and the moved
  schedule are one transaction.
\<close>

subsection \<open>Requests\<close>

text \<open>A \<open>CronValidationError\<close> is a \<open>ValueError\<close>.\<close>

definition cron_value :: "string + 'a \<Rightarrow> service_error + 'a" where
  "cron_value m = (case m of Inl message \<Rightarrow> Inl (Value_error message) | Inr a \<Rightarrow> Inr a)"

record schedule_create =
  sc_key :: string
  sc_name :: string
  sc_description :: "string option"
  sc_target :: uuid
  sc_environment :: uuid
  sc_baseline :: uuid
  sc_package :: uuid
  sc_case_codes :: "string list"
  sc_cron :: string
  sc_timezone :: string
  sc_misfire_policy :: misfire_policy
  sc_misfire_grace :: int
  sc_status :: schedule_status

definition validate_schedule_create ::
  "(string \<Rightarrow> time_zone option) \<Rightarrow> schedule_create \<Rightarrow> service_error + schedule_create" where
  "validate_schedule_create tz u =
     bind_outcome (cron_value (normalize_cron_expression (strip (sc_cron u)))) (\<lambda>cron.
     bind_outcome (cron_value (validate_timezone tz (strip (sc_timezone u)))) (\<lambda>zone.
       if \<not> distinct (sc_case_codes u) then Inl (Value_error ''case_codes contains duplicates'')
       else Inr (u\<lparr>sc_cron := cron, sc_timezone := zone\<rparr>)))"

text \<open>
  An update: a field that is given is never null, except the description, whose outer option says
  whether it is given.
\<close>

record schedule_update =
  su_name :: "string option"
  su_description :: "string option option"
  su_target :: "uuid option"
  su_environment :: "uuid option"
  su_baseline :: "uuid option"
  su_package :: "uuid option"
  su_case_codes :: "string list option"
  su_cron :: "string option"
  su_timezone :: "string option"
  su_misfire_policy :: "misfire_policy option"
  su_misfire_grace :: "int option"
  su_status :: "schedule_status option"

definition given_resources :: "schedule_update \<Rightarrow> bool" where
  "given_resources u \<longleftrightarrow> su_target u \<noteq> None \<or> su_environment u \<noteq> None \<or> su_baseline u \<noteq> None
     \<or> su_package u \<noteq> None \<or> su_case_codes u \<noteq> None"

definition given_timing :: "schedule_update \<Rightarrow> bool" where
  "given_timing u \<longleftrightarrow> su_cron u \<noteq> None \<or> su_timezone u \<noteq> None \<or> su_status u \<noteq> None"

definition normalized_option :: "('a \<Rightarrow> service_error + 'a) \<Rightarrow> 'a option \<Rightarrow> service_error + 'a option" where
  "normalized_option f v = (case v of None \<Rightarrow> Inr None | Some a \<Rightarrow> bind_outcome (f a) (\<lambda>b. Inr (Some b)))"

definition validate_schedule_update ::
  "(string \<Rightarrow> time_zone option) \<Rightarrow> schedule_update \<Rightarrow> service_error + schedule_update" where
  "validate_schedule_update tz u =
     bind_outcome (normalized_option (\<lambda>s. cron_value (normalize_cron_expression (strip s))) (su_cron u)) (\<lambda>cron.
     bind_outcome (normalized_option (\<lambda>s. cron_value (validate_timezone tz (strip s))) (su_timezone u)) (\<lambda>zone.
       if \<not> (given_resources u \<or> given_timing u \<or> su_name u \<noteq> None \<or> su_description u \<noteq> None
           \<or> su_misfire_policy u \<noteq> None \<or> su_misfire_grace u \<noteq> None)
       then Inl (Value_error ''at least one regression schedule field must be provided'')
       else if (case su_case_codes u of None \<Rightarrow> False | Some codes \<Rightarrow> \<not> distinct codes)
       then Inl (Value_error ''case_codes contains duplicates'')
       else Inr (u\<lparr>su_cron := cron, su_timezone := zone\<rparr>)))"

subsection \<open>The resources of a schedule\<close>

record schedule_resources =
  sr_target :: uuid
  sr_environment :: uuid
  sr_baseline :: uuid
  sr_package :: uuid
  sr_case_codes :: "string list"

definition active_project :: "uuid \<Rightarrow> db \<Rightarrow> service_error + project_row" where
  "active_project project d =
     (case lookup_row p_id project (projects d) of
        None \<Rightarrow> Inl (ResourceNotFound ''project not found'')
      | Some p \<Rightarrow> if p_status p \<noteq> Record_ACTIVE
          then Inl (ResourceConflict ''regression schedules require an ACTIVE project'') else Inr p)"

definition active_target :: "uuid \<Rightarrow> uuid \<Rightarrow> db \<Rightarrow> service_error + target_row" where
  "active_target project i d =
     (case lookup_row t_id i (targets d) of
        None \<Rightarrow> Inl (ResourceNotFound ''target not found in project'')
      | Some t \<Rightarrow>
          if t_project t \<noteq> project then Inl (ResourceNotFound ''target not found in project'')
          else if t_status t \<noteq> Record_ACTIVE
          then Inl (ResourceConflict ''regression schedules require an ACTIVE target'') else Inr t)"

definition active_environment :: "uuid \<Rightarrow> uuid \<Rightarrow> uuid \<Rightarrow> db \<Rightarrow> service_error + environment_row" where
  "active_environment project target i d =
     (case lookup_row e_id i (environments d) of
        None \<Rightarrow> Inl (ResourceNotFound ''environment not found for target'')
      | Some e \<Rightarrow>
          if e_project e \<noteq> project \<or> e_target e \<noteq> target
          then Inl (ResourceNotFound ''environment not found for target'')
          else if e_status e \<noteq> Record_ACTIVE
          then Inl (ResourceConflict ''regression schedules require an ACTIVE environment'') else Inr e)"

definition released_baseline :: "uuid \<Rightarrow> uuid \<Rightarrow> db \<Rightarrow> service_error + baseline_row" where
  "released_baseline project i d =
     (case lookup_row b_id i (baselines d) of
        None \<Rightarrow> Inl (ResourceNotFound ''baseline not found in project'')
      | Some b \<Rightarrow>
          if b_project b \<noteq> project then Inl (ResourceNotFound ''baseline not found in project'')
          else if b_status b \<noteq> Baseline_RELEASED
          then Inl (ResourceConflict ''regression schedules require a RELEASED baseline'') else Inr b)"

definition admitted_package :: "uuid \<Rightarrow> uuid \<Rightarrow> uuid \<Rightarrow> db \<Rightarrow> service_error + package_row" where
  "admitted_package project target i d =
     (case lookup_row k_id i (packages d) of
        None \<Rightarrow> Inl (ResourceNotFound ''automation package not found for target'')
      | Some k \<Rightarrow>
          if k_project k \<noteq> project \<or> k_target k \<noteq> target
          then Inl (ResourceNotFound ''automation package not found for target'')
          else if k_status k \<noteq> Package_ACTIVE
          then Inl (ResourceConflict ''regression schedules require an ACTIVE automation package'')
          else if k_chain_status k \<notin> set SUPPLY_CHAIN_EXECUTABLE_STATUSES
          then Inl (ResourceConflict ''regression schedules require a supply-chain admitted automation package'')
          else Inr k)"

definition validate_resources :: "uuid \<Rightarrow> schedule_resources \<Rightarrow> db \<Rightarrow> service_error + unit" where
  "validate_resources project v d =
     bind_outcome (active_project project d) (\<lambda>_.
     bind_outcome (active_target project (sr_target v) d) (\<lambda>_.
     bind_outcome (active_environment project (sr_target v) (sr_environment v) d) (\<lambda>_.
     bind_outcome (released_baseline project (sr_baseline v) d) (\<lambda>b.
     bind_outcome (admitted_package project (sr_target v) (sr_package v) d) (\<lambda>_.
     bind_outcome (contract (parse_baseline (b_document b))) (\<lambda>baseline.
     bind_outcome (select_cases baseline (sr_case_codes v)) (\<lambda>cases.
       if cases = [] then Inl (InvalidRequest ''regression schedule must contain at least one enabled case'')
       else Inr ())))))))"

subsection \<open>Creating and changing a schedule\<close>

fun schedule_status_value :: "schedule_status \<Rightarrow> string" where
  "schedule_status_value Schedule_ACTIVE = ''ACTIVE''"
| "schedule_status_value Schedule_PAUSED = ''PAUSED''"
| "schedule_status_value Schedule_ARCHIVED = ''ARCHIVED''"

fun misfire_policy_value :: "misfire_policy \<Rightarrow> string" where
  "misfire_policy_value SKIP = ''SKIP''"
| "misfire_policy_value FIRE_ONCE = ''FIRE_ONCE''"

definition get_schedule :: "uuid \<Rightarrow> uuid \<Rightarrow> db \<Rightarrow> service_error + schedule_row" where
  "get_schedule project i d =
     require_row (ResourceNotFound ''regression schedule not found'')
       (find (\<lambda>s. s_id s = i \<and> s_project s = project) (schedules d))"

definition store_schedule :: "schedule_row \<Rightarrow> db \<Rightarrow> db" where
  "store_schedule s d = d\<lparr>schedules := update_row s_id (s_id s) (\<lambda>_. s) (schedules d)\<rparr>"

definition next_fire ::
  "(string \<Rightarrow> time_zone option) \<Rightarrow> string \<Rightarrow> instant \<Rightarrow> string \<Rightarrow> service_error + instant" where
  "next_fire tz cron moment zone =
     bind_outcome (cron_value (parse_expression cron)) (\<lambda>e. cron_value (next_after tz e moment zone))"

definition new_schedule :: "uuid \<Rightarrow> uuid \<Rightarrow> schedule_create \<Rightarrow> instant option \<Rightarrow> uuid \<Rightarrow> schedule_row" where
  "new_schedule i project u next_fire_at actor =
     \<lparr>s_id = i, s_project = project, s_target = sc_target u, s_environment = sc_environment u,
      s_baseline = sc_baseline u, s_package = sc_package u, s_key = sc_key u, s_name = sc_name u,
      s_description = sc_description u, s_case_codes = sc_case_codes u, s_cron = sc_cron u,
      s_timezone = sc_timezone u, s_misfire_policy = sc_misfire_policy u, s_misfire_grace = sc_misfire_grace u,
      s_status = sc_status u, s_next_fire_at = next_fire_at, s_last_scheduled_for = None,
      s_last_triggered_at = None, s_last_run = None, s_last_error = None, s_created_by = actor\<rparr>"

definition create_resources :: "schedule_create \<Rightarrow> schedule_resources" where
  "create_resources u =
     \<lparr>sr_target = sc_target u, sr_environment = sc_environment u, sr_baseline = sc_baseline u,
      sr_package = sc_package u, sr_case_codes = sc_case_codes u\<rparr>"

definition create_regression_schedule ::
  "txn \<Rightarrow> (string \<Rightarrow> time_zone option) \<Rightarrow> uuid \<Rightarrow> schedule_create \<Rightarrow> uuid \<Rightarrow> db
   \<Rightarrow> service_error + db \<times> schedule_row" where
  "create_regression_schedule x tz project u actor d =
     bind_outcome (validate_resources project (create_resources u) d) (\<lambda>_.
     bind_outcome
       (if sc_status u = Schedule_ACTIVE
        then bind_outcome (next_fire tz (sc_cron u) (txn_now x) (sc_timezone u)) (\<lambda>t. Inr (Some t))
        else Inr None)
       (\<lambda>next_fire_at.
       let s = new_schedule (txn_uuid x Draw_row) project u next_fire_at actor;
           d1 = audit x actor ''regression_schedule.created'' ''regression_schedule'' (s_id s) (Some project)
             [(''key'', JStr (s_key s)), (''cron_expression'', JStr (s_cron s)), (''timezone'', JStr (s_timezone s)),
              (''status'', JStr (schedule_status_value (s_status s))), (''next_fire_at'', json_time next_fire_at)]
             (d\<lparr>schedules := schedules d @ [s]\<rparr>)
       in bind_outcome (commit_unique ''regression schedule key already exists in project'' d1) (\<lambda>d2. Inr (d2, s))))"

definition schedule_details :: "schedule_row \<Rightarrow> json" where
  "schedule_details s =
     JObj [(''name'', JStr (s_name s)), (''description'', json_str (s_description s)),
       (''cron_expression'', JStr (s_cron s)), (''timezone'', JStr (s_timezone s)),
       (''misfire_policy'', JStr (misfire_policy_value (s_misfire_policy s))),
       (''misfire_grace_seconds'', JInt (s_misfire_grace s)),
       (''status'', JStr (schedule_status_value (s_status s))), (''next_fire_at'', json_time (s_next_fire_at s))]"

definition resources_of :: "schedule_row \<Rightarrow> schedule_resources" where
  "resources_of s =
     \<lparr>sr_target = s_target s, sr_environment = s_environment s, sr_baseline = s_baseline s,
      sr_package = s_package s, sr_case_codes = s_case_codes s\<rparr>"

definition apply_schedule_update :: "schedule_update \<Rightarrow> schedule_row \<Rightarrow> schedule_row" where
  "apply_schedule_update u s =
     s\<lparr>s_name := given_or (su_name u) (s_name s),
       s_target := given_or (su_target u) (s_target s),
       s_environment := given_or (su_environment u) (s_environment s),
       s_baseline := given_or (su_baseline u) (s_baseline s),
       s_package := given_or (su_package u) (s_package s),
       s_cron := given_or (su_cron u) (s_cron s),
       s_timezone := given_or (su_timezone u) (s_timezone s),
       s_misfire_policy := given_or (su_misfire_policy u) (s_misfire_policy s),
       s_misfire_grace := given_or (su_misfire_grace u) (s_misfire_grace s),
       s_status := given_or (su_status u) (s_status s),
       s_description := given_or (su_description u) (s_description s),
       s_case_codes := given_or (su_case_codes u) (s_case_codes s)\<rparr>"

definition retime ::
  "(string \<Rightarrow> time_zone option) \<Rightarrow> instant \<Rightarrow> bool \<Rightarrow> schedule_row \<Rightarrow> service_error + schedule_row" where
  "retime tz moment given s =
     (if s_status s = Schedule_ACTIVE \<and> (s_next_fire_at s = None \<or> given)
      then bind_outcome (next_fire tz (s_cron s) moment (s_timezone s)) (\<lambda>t. Inr (s\<lparr>s_next_fire_at := Some t\<rparr>))
      else if s_status s \<noteq> Schedule_ACTIVE then Inr (s\<lparr>s_next_fire_at := None\<rparr>)
      else Inr s)"

definition update_regression_schedule ::
  "txn \<Rightarrow> (string \<Rightarrow> time_zone option) \<Rightarrow> uuid \<Rightarrow> uuid \<Rightarrow> schedule_update \<Rightarrow> uuid \<Rightarrow> db
   \<Rightarrow> service_error + db \<times> schedule_row" where
  "update_regression_schedule x tz project i u actor d =
     bind_outcome (get_schedule project i d) (\<lambda>s.
     if s_status s = Schedule_ARCHIVED \<and> su_status u \<notin> {None, Some Schedule_ARCHIVED}
     then Inl (ResourceConflict ''an archived regression schedule cannot be reactivated'')
     else
     let s1 = apply_schedule_update u s in
     bind_outcome (if given_resources u then validate_resources project (resources_of s1) d else Inr ()) (\<lambda>_.
     bind_outcome (retime tz (txn_now x) (given_timing u) s1) (\<lambda>s2.
     let d1 = audit x actor ''regression_schedule.updated'' ''regression_schedule'' i (Some project)
           [(''before'', schedule_details s), (''after'', schedule_details s2)] (store_schedule s2 d)
     in bind_outcome (commit d1) (\<lambda>d2. Inr (d2, s2)))))"

subsection \<open>Firing a schedule\<close>

definition run_payload :: "schedule_row \<Rightarrow> run_request" where
  "run_payload s =
     \<lparr>rq_project = s_project s, rq_target = s_target s, rq_environment = s_environment s, rq_baseline = s_baseline s,
      rq_package = s_package s, rq_case_codes = s_case_codes s, rq_headless = None\<rparr>"

text \<open>\<open>strftime("%Y%m%dT%H%M%S%fZ")\<close> of an instant in UTC.\<close>

definition timestamp_text :: "instant \<Rightarrow> string" where
  "timestamp_text t =
     (let date = t div day_length; (month, day) = date_month_day date; r = t mod day_length; s = r div 1000000
      in fixed_digits 10 4 (date_year date) @ fixed_digits 10 2 month @ fixed_digits 10 2 day @ ''T''
         @ fixed_digits 10 2 (s div 3600) @ fixed_digits 10 2 (s mod 3600 div 60) @ fixed_digits 10 2 (s mod 60)
         @ fixed_digits 10 6 (r mod 1000000) @ ''Z'')"

definition scheduled_idempotency_key :: "uuid \<Rightarrow> instant \<Rightarrow> string" where
  "scheduled_idempotency_key i scheduled_for = ''schedule:'' @ uuid_text i @ '':'' @ timestamp_text scheduled_for"

definition manual_idempotency_key :: "txn \<Rightarrow> uuid \<Rightarrow> string \<Rightarrow> string" where
  "manual_idempotency_key x i key = ''schedule:manual:'' @ uuid_text i @ '':'' @ txn_digest x (Hash_text key)"

definition schedule_run ::
  "txn \<Rightarrow> schedule_row \<Rightarrow> string \<Rightarrow> uuid \<Rightarrow> instant \<Rightarrow> db \<Rightarrow> service_error + db \<times> run_row \<times> bool" where
  "schedule_run x s key actor scheduled_for d =
     bind_outcome (validate_resources (s_project s) (resources_of s) d) (\<lambda>_.
       create_run x (run_payload s) key actor [Baseline_RELEASED] [Package_ACTIVE] (Some (s_id s)) (Some scheduled_for) d)"

definition new_firing ::
  "uuid \<Rightarrow> uuid \<Rightarrow> uuid option \<Rightarrow> instant \<Rightarrow> instant \<Rightarrow> trigger_kind \<Rightarrow> firing_status \<Rightarrow> schedule_error option \<Rightarrow> firing_row" where
  "new_firing i schedule run scheduled_for moment kind status err =
     \<lparr>g_id = i, g_schedule = schedule, g_run = run, g_scheduled_for = scheduled_for, g_triggered_at = Some moment,
      g_kind = kind, g_status = status, g_error = err\<rparr>"

definition manual_firing :: "txn \<Rightarrow> schedule_row \<Rightarrow> uuid \<Rightarrow> uuid \<Rightarrow> db \<Rightarrow> db \<times> firing_row" where
  "manual_firing x s run actor d =
     (case find (\<lambda>g. g_schedule g = s_id s \<and> g_run g = Some run) (firings d) of
        Some g \<Rightarrow> (d, g)
      | None \<Rightarrow>
          (let g = new_firing (txn_uuid x Draw_row) (s_id s) (Some run) (txn_now x) (txn_now x) Trigger_MANUAL
                 Firing_TRIGGERED None
           in (audit x actor ''regression_schedule.triggered_manually'' ''regression_schedule'' (s_id s)
                 (Some (s_project s)) [(''run_id'', JId run)] (d\<lparr>firings := firings d @ [g]\<rparr>), g)))"

definition trigger_regression_schedule ::
  "txn \<Rightarrow> uuid \<Rightarrow> uuid \<Rightarrow> string \<Rightarrow> uuid \<Rightarrow> db \<Rightarrow> service_error + db \<times> run_row \<times> bool" where
  "trigger_regression_schedule x project i key actor d =
     bind_outcome (get_schedule project i d) (\<lambda>s.
     if s_status s = Schedule_ARCHIVED
     then Inl (ResourceConflict ''an archived regression schedule cannot be triggered'')
     else
     bind_outcome (schedule_run x s (manual_idempotency_key x i key) actor (txn_now x) d) (\<lambda>(d1, run, created).
     let (d2, g) = manual_firing x s (r_id run) actor d1;
         s' = s\<lparr>s_last_scheduled_for := Some (g_scheduled_for g), s_last_triggered_at := g_triggered_at g,
           s_last_run := Some (r_id run), s_last_error := None\<rparr>
     in bind_outcome (commit (store_schedule s' d2)) (\<lambda>d3. Inr (d3, run, created))))"

subsection \<open>Due schedules\<close>

datatype firing_outcome = Ignored | Skipped | Blocked | Triggered

definition add_firing :: "firing_row \<Rightarrow> db \<Rightarrow> db" where
  "add_firing g d = d\<lparr>firings := firings d @ [g]\<rparr>"

text \<open>
  \<open>except ServiceError\<close>: the message of the error.  The conflict that \<open>create_run\<close> raises after
  rolling the session back is not caught in effect: the handler then reads an expired row, which an
  asynchronous session refuses.
\<close>

definition blocking_message :: "service_error \<Rightarrow> string option" where
  "blocking_message e =
     (if e = ResourceConflict ''Run could not be created due to a uniqueness conflict'' then None
      else map_option (take 2000) (service_error_message e))"

definition skip_firing ::
  "txn \<Rightarrow> schedule_row \<Rightarrow> instant \<Rightarrow> instant \<Rightarrow> instant \<Rightarrow> db \<Rightarrow> service_error + db \<times> firing_outcome" where
  "skip_firing x s scheduled_for next_fire_at moment d =
     (let g = new_firing (txn_uuid x Draw_row) (s_id s) None scheduled_for moment Trigger_MISFIRE Firing_SKIPPED None;
          d1 = audit x (s_created_by s) ''regression_schedule.misfire_skipped'' ''regression_schedule'' (s_id s)
            (Some (s_project s)) [(''scheduled_for'', JTime scheduled_for), (''next_fire_at'', JTime next_fire_at)]
            (store_schedule (s\<lparr>s_last_error := Some MISFIRE_SKIPPED\<rparr>) (add_firing g d))
      in bind_outcome (commit d1) (\<lambda>d2. Inr (d2, Skipped)))"

fun trigger_kind_value :: "trigger_kind \<Rightarrow> string" where
  "trigger_kind_value Trigger_MANUAL = ''MANUAL''"
| "trigger_kind_value Trigger_SCHEDULED = ''SCHEDULED''"
| "trigger_kind_value Trigger_MISFIRE = ''MISFIRE''"

definition fire_schedule ::
  "txn \<Rightarrow> schedule_row \<Rightarrow> instant \<Rightarrow> trigger_kind \<Rightarrow> instant \<Rightarrow> db \<Rightarrow> service_error + db \<times> firing_outcome" where
  "fire_schedule x s scheduled_for kind moment d =
     (let i = txn_uuid x Draw_row in
      case schedule_run x s (scheduled_idempotency_key (s_id s) scheduled_for) (s_created_by s) scheduled_for d of
        Inl e \<Rightarrow>
          (case blocking_message e of
             None \<Rightarrow> Inl e
           | Some m \<Rightarrow>
               (let g = new_firing i (s_id s) None scheduled_for moment kind Firing_BLOCKED (Some (Blocked_by m));
                    d1 = audit x (s_created_by s) ''regression_schedule.trigger_blocked'' ''regression_schedule'' (s_id s)
                      (Some (s_project s)) [(''scheduled_for'', JTime scheduled_for), (''error'', JStr m)]
                      (store_schedule (s\<lparr>s_last_triggered_at := Some moment, s_last_error := Some (Blocked_by m)\<rparr>)
                        (add_firing g d))
                in bind_outcome (commit d1) (\<lambda>d2. Inr (d2, Blocked))))
      | Inr (d0, run, created) \<Rightarrow>
          (let g = new_firing i (s_id s) (Some (r_id run)) scheduled_for moment kind Firing_TRIGGERED None;
               d1 = audit x (s_created_by s) ''regression_schedule.triggered'' ''regression_schedule'' (s_id s)
                 (Some (s_project s)) [(''run_id'', JId (r_id run)), (''scheduled_for'', JTime scheduled_for),
                   (''trigger_kind'', JStr (trigger_kind_value kind))]
                 (store_schedule (s\<lparr>s_last_triggered_at := Some moment, s_last_run := Some (r_id run), s_last_error := None\<rparr>)
                   (add_firing g d0))
           in bind_outcome (commit d1) (\<lambda>d2. Inr (d2, Triggered))))"

definition is_due :: "instant \<Rightarrow> schedule_row \<Rightarrow> bool" where
  "is_due moment s \<longleftrightarrow> s_status s = Schedule_ACTIVE \<and> (case s_next_fire_at s of None \<Rightarrow> False | Some t \<Rightarrow> t \<le> moment)"

definition misfired :: "schedule_row \<Rightarrow> instant \<Rightarrow> instant \<Rightarrow> bool" where
  "misfired s scheduled_for moment \<longleftrightarrow> moment - scheduled_for > microseconds (s_misfire_grace s)"

definition firing_known :: "uuid \<Rightarrow> instant \<Rightarrow> db \<Rightarrow> bool" where
  "firing_known i scheduled_for d \<longleftrightarrow> (\<exists>g\<in>set (firings d). g_schedule g = i \<and> g_scheduled_for g = scheduled_for)"

definition process_due_schedule ::
  "txn \<Rightarrow> (string \<Rightarrow> time_zone option) \<Rightarrow> uuid \<Rightarrow> instant \<Rightarrow> db \<Rightarrow> service_error + db \<times> firing_outcome" where
  "process_due_schedule x tz i moment d =
     (case lookup_row s_id i (schedules d) of
        None \<Rightarrow> Inr (d, Ignored)
      | Some s \<Rightarrow>
          if \<not> is_due moment s then Inr (d, Ignored)
          else
          let scheduled_for = given_or (s_next_fire_at s) moment in
          bind_outcome (next_fire tz (s_cron s) moment (s_timezone s)) (\<lambda>next_fire_at.
          if firing_known i scheduled_for d
          then bind_outcome (commit (store_schedule (s\<lparr>s_next_fire_at := Some next_fire_at\<rparr>) d)) (\<lambda>d1. Inr (d1, Ignored))
          else
          let missed = misfired s scheduled_for moment;
              kind = (if missed then Trigger_MISFIRE else Trigger_SCHEDULED);
              s1 = s\<lparr>s_next_fire_at := Some next_fire_at, s_last_scheduled_for := Some scheduled_for\<rparr>
          in if missed \<and> s_misfire_policy s = SKIP
             then skip_firing x s1 scheduled_for next_fire_at moment d
             else fire_schedule x s1 scheduled_for kind moment d))"

text \<open>
  A batch: every schedule has a transaction of its own, and an exception counts as failed.
\<close>

record schedule_summary =
  ss_selected :: nat
  ss_triggered :: nat
  ss_skipped :: nat
  ss_blocked :: nat
  ss_failed :: nat

definition count_firing :: "firing_outcome option \<Rightarrow> schedule_summary \<Rightarrow> schedule_summary" where
  "count_firing v t =
     (case v of
        None \<Rightarrow> t\<lparr>ss_failed := ss_failed t + 1\<rparr>
      | Some Ignored \<Rightarrow> t
      | Some Skipped \<Rightarrow> t\<lparr>ss_skipped := ss_skipped t + 1\<rparr>
      | Some Blocked \<Rightarrow> t\<lparr>ss_blocked := ss_blocked t + 1\<rparr>
      | Some Triggered \<Rightarrow> t\<lparr>ss_triggered := ss_triggered t + 1\<rparr>)"

fun process_each ::
  "(uuid \<Rightarrow> txn) \<Rightarrow> (string \<Rightarrow> time_zone option) \<Rightarrow> instant \<Rightarrow> uuid list \<Rightarrow> db \<times> schedule_summary \<Rightarrow> db \<times> schedule_summary" where
  "process_each xs tz moment [] acc = acc"
| "process_each xs tz moment (i # is) (d, t) =
     (case process_due_schedule (xs i) tz i moment d of
        Inl e \<Rightarrow> process_each xs tz moment is (d, count_firing None t)
      | Inr (d', v) \<Rightarrow> process_each xs tz moment is (d', count_firing (Some v) t))"

definition due_schedules :: "instant \<Rightarrow> nat \<Rightarrow> db \<Rightarrow> uuid list" where
  "due_schedules moment limit d =
     map s_id (take limit (sort_key (\<lambda>s. given_or (s_next_fire_at s) 0) (filter (is_due moment) (schedules d))))"

definition process_due_schedules ::
  "(uuid \<Rightarrow> txn) \<Rightarrow> (string \<Rightarrow> time_zone option) \<Rightarrow> nat \<Rightarrow> instant \<Rightarrow> db \<Rightarrow> service_error + db \<times> schedule_summary" where
  "process_due_schedules xs tz limit moment d =
     (if \<not> (1 \<le> limit \<and> limit \<le> 500)
      then Inl (Value_error ''schedule batch limit must be between 1 and 500'')
      else
      let ids = due_schedules moment limit d
      in Inr (process_each xs tz moment ids
           (d, \<lparr>ss_selected = length ids, ss_triggered = 0, ss_skipped = 0, ss_blocked = 0, ss_failed = 0\<rparr>)))"

end
