(* ===== verification/Schedule_Guarantees.thy ===== *)
theory Schedule_Guarantees
  imports Schedules Scenario
begin

section \<open>What schedules guarantee\<close>

text \<open>
  The services on schedules as steps on the database: they create runs as \<open>create_run\<close> does, keep a
  schedule's next firing in step with its status, and fire every due time at most once.
\<close>

lemma cron_value_Inr_iff [outcome_simps]: "cron_value m = Inr a \<longleftrightarrow> m = Inr a"
  by (cases m) (simp_all add: cron_value_def)

lemma next_fire_later: "next_fire tz cron moment zone = Inr t \<Longrightarrow> moment < t"
  by (auto simp: next_fire_def cron_value_Inr_iff elim!: bind_outcome_InrE dest: next_after_later)

lemma get_schedule_InrD:
  assumes "get_schedule project i d = Inr s"
  shows "s \<in> set (schedules d)" "s_id s = i" "s_project s = project"
  using assms by (auto simp: get_schedule_def outcome_simps find_Some_iff)

text \<open>Nothing but schedules, firings and the audit log differs.\<close>

lemma same_run_tables_schedules [simp]:
  "same_run_tables d (schedules_update f d') = same_run_tables d d'"
  "same_run_tables d (firings_update g d') = same_run_tables d d'"
  "same_run_tables d (store_schedule s d') = same_run_tables d d'"
  "same_run_tables d (add_firing h d') = same_run_tables d d'"
  by (simp_all add: same_run_tables_def store_schedule_def add_firing_def)

lemma store_schedule_frame [simp]:
  "schedules (store_schedule s d) = update_row s_id (s_id s) (\<lambda>_. s) (schedules d)"
  "firings (store_schedule s d) = firings d" "runs (store_schedule s d) = runs d"
  by (simp_all add: store_schedule_def)

lemma add_firing_frame [simp]:
  "schedules (add_firing g d) = schedules d" "firings (add_firing g d) = firings d @ [g]"
  "runs (add_firing g d) = runs d"
  by (simp_all add: add_firing_def)

lemma schedule_run_Inr:
  assumes "schedule_run x s key actor scheduled_for d = Inr (d', r, created)"
  shows "create_run x (run_payload s) key actor [Baseline_RELEASED] [Package_ACTIVE] (Some (s_id s)) (Some scheduled_for) d
      = Inr (d', r, created)"
    and "schedules d' = schedules d" "firings d' = firings d" "r \<in> set (runs d')"
    and "\<exists>rest. runs d' = runs d @ rest"
proof -
  show call: "create_run x (run_payload s) key actor [Baseline_RELEASED] [Package_ACTIVE] (Some (s_id s)) (Some scheduled_for) d
      = Inr (d', r, created)"
    using assms unfolding schedule_run_def by (elim bind_outcome_InrE)
  have "schedules d' = schedules d \<and> firings d' = firings d \<and> r \<in> set (runs d') \<and> (\<exists>rest. runs d' = runs d @ rest)"
    using call
  proof (cases rule: create_run_Inr)
    case replayed
    with existing_idempotent_run_Some [OF replayed(3)] show ?thesis by auto
  next
    case queued
    then show ?thesis by (auto simp: queued_by_def add_run_writes)
  qed
  then show "schedules d' = schedules d" "firings d' = firings d" "r \<in> set (runs d')" "\<exists>rest. runs d' = runs d @ rest"
    by blast+
qed

subsection \<open>The calls\<close>

text \<open>
  A call of a service whose request passed its validators, and the processing of one due schedule,
  which is a transaction of its own.
\<close>

inductive schedule_call :: "db \<Rightarrow> db \<Rightarrow> bool" where
  Schedule_create: "create_regression_schedule x tz project u actor d = Inr (d', s)
    \<Longrightarrow> validate_schedule_create tz v = Inr u \<Longrightarrow> schedule_call d d'"
| Schedule_update: "update_regression_schedule x tz project i u actor d = Inr (d', s)
    \<Longrightarrow> validate_schedule_update tz v = Inr u \<Longrightarrow> schedule_call d d'"
| Schedule_trigger: "trigger_regression_schedule x project i key actor d = Inr (d', r, created) \<Longrightarrow> schedule_call d d'"
| Schedule_process: "process_due_schedule x tz i moment d = Inr (d', outcome) \<Longrightarrow> schedule_call d d'"

lemma create_regression_schedule_Inr:
  assumes "create_regression_schedule x tz project u actor d = Inr (d', s)"
  obtains t where "s = new_schedule (txn_uuid x Draw_row) project u t actor"
    "t \<noteq> None \<longleftrightarrow> sc_status u = Schedule_ACTIVE" "\<And>m. t = Some m \<Longrightarrow> txn_now x < m"
    "schedules d' = schedules d @ [s]" "firings d' = firings d" "runs d' = runs d" "unique_ok d'" "same_run_tables d d'"
proof -
  note call = assms [unfolded create_regression_schedule_def Let_def]
  from call show thesis
    by (elim bind_outcome_InrE commit_unique_bind_InrE)
      (rule that, auto elim!: bind_outcome_InrE dest: next_fire_later split: if_split_asm)
qed

lemma retime_Inr:
  assumes "retime tz moment given s = Inr s'"
  shows "s_id s' = s_id s" "s_status s' = s_status s"
    "(s_status s = Schedule_ACTIVE) = (s_next_fire_at s' \<noteq> None)"
  using assms unfolding retime_def
  by (auto elim!: bind_outcome_InrE split: if_split_asm)

lemma update_regression_schedule_Inr:
  assumes "update_regression_schedule x tz project i u actor d = Inr (d', s')"
  obtains s where "get_schedule project i d = Inr s" "s_id s' = i"
    "(s_status s' = Schedule_ACTIVE) = (s_next_fire_at s' \<noteq> None)"
    "schedules d' = update_row s_id i (\<lambda>_. s') (schedules d)" "firings d' = firings d" "runs d' = runs d"
    "unique_ok d'" "same_run_tables d d'"
proof -
  note call = assms [unfolded update_regression_schedule_def Let_def]
  from call obtain s where s: "get_schedule project i d = Inr s"
    and kept: "\<not> (s_status s = Schedule_ARCHIVED \<and> su_status u \<notin> {None, Some Schedule_ARCHIVED})"
    and retimed: "retime tz (txn_now x) (given_timing u) (apply_schedule_update u s) = Inr s'"
    and d': "schedules d' = update_row s_id (s_id s') (\<lambda>_. s') (schedules d)" "firings d' = firings d" "runs d' = runs d"
      "unique_ok d'" "same_run_tables d d'"
    by (elim bind_outcome_InrE) (auto elim!: bind_outcome_InrE commit_bind_InrE split: if_split_asm)
  have "s_id s' = i"
    using retime_Inr(1) [OF retimed] get_schedule_InrD(2) [OF s] by (simp add: apply_schedule_update_def)
  with d' retime_Inr(2,3) [OF retimed] s show thesis by (intro that [OF s]) simp_all
qed

lemma manual_firing_cases:
  assumes "manual_firing x s run actor d = (d', g)"
  obtains (known) "d' = d" "g \<in> set (firings d)" "g_schedule g = s_id s" "g_run g = Some run"
  | (new) "g = new_firing (txn_uuid x Draw_row) (s_id s) (Some run) (txn_now x) (txn_now x) Trigger_MANUAL Firing_TRIGGERED None"
      "schedules d' = schedules d" "firings d' = firings d @ [g]" "runs d' = runs d" "same_run_tables d d'"
proof (cases "find (\<lambda>g. g_schedule g = s_id s \<and> g_run g = Some run) (firings d)")
  case None
  with assms show thesis by (intro new) (auto simp: manual_firing_def Let_def)
next
  case (Some h)
  with assms find_SomeD [OF Some] show thesis by (intro known) (auto simp: manual_firing_def)
qed

lemma trigger_regression_schedule_Inr:
  assumes "trigger_regression_schedule x project i key actor d = Inr (d', r, created)"
  obtains s s' d1 d2 g where "get_schedule project i d = Inr s" "s_status s \<noteq> Schedule_ARCHIVED"
    "schedule_run x s (manual_idempotency_key x i key) actor (txn_now x) d = Inr (d1, r, created)"
    "manual_firing x s (r_id r) actor d1 = (d2, g)"
    "s' = s\<lparr>s_last_scheduled_for := Some (g_scheduled_for g), s_last_triggered_at := g_triggered_at g,
           s_last_run := Some (r_id r), s_last_error := None\<rparr>"
    "d' = store_schedule s' d2" "unique_ok d'"
proof -
  note call = assms [unfolded trigger_regression_schedule_def Let_def]
  from call show thesis
    by (elim bind_outcome_InrE)
      (auto elim!: bind_outcome_InrE commit_bind_InrE intro: that split: if_split_asm prod.split_asm)
qed

subsection \<open>Processing one schedule\<close>

text \<open>How a firing ended: what its row says and what happened to the runs.\<close>

definition firing_done ::
  "txn \<Rightarrow> schedule_row \<Rightarrow> instant \<Rightarrow> firing_outcome \<Rightarrow> firing_row \<Rightarrow> db \<Rightarrow> db \<Rightarrow> bool" where
  "firing_done x s scheduled_for outcome g d d' \<longleftrightarrow>
     (let attempt = schedule_run x s (scheduled_idempotency_key (s_id s) scheduled_for) (s_created_by s) scheduled_for d in
      case outcome of
        Ignored \<Rightarrow> False
      | Skipped \<Rightarrow> g_status g = Firing_SKIPPED \<and> g_run g = None \<and> g_error g = None
          \<and> runs d' = runs d \<and> same_run_tables d d'
      | Blocked \<Rightarrow> g_status g = Firing_BLOCKED \<and> g_run g = None \<and> g_error g \<noteq> None \<and> runs d' = runs d
          \<and> same_run_tables d d' \<and> (\<exists>e. attempt = Inl e \<and> blocking_message e \<noteq> None)
      | Triggered \<Rightarrow> g_status g = Firing_TRIGGERED \<and> g_error g = None
          \<and> (\<exists>d0 r created. attempt = Inr (d0, r, created) \<and> g_run g = Some (r_id r)
                \<and> runs d' = runs d0 \<and> same_run_tables d0 d'))"

lemma skip_firing_Inr:
  assumes "skip_firing x s scheduled_for t moment d = Inr (d', outcome)"
  shows "outcome = Skipped" "firings d' = firings d @ [new_firing (txn_uuid x Draw_row) (s_id s) None scheduled_for moment
      Trigger_MISFIRE Firing_SKIPPED None]"
    "schedules d' = update_row s_id (s_id s) (\<lambda>_. s\<lparr>s_last_error := Some MISFIRE_SKIPPED\<rparr>) (schedules d)"
    "unique_ok d'" "runs d' = runs d" "same_run_tables d d'"
  using assms unfolding skip_firing_def Let_def
  by (auto elim!: commit_bind_InrE)

lemma fire_schedule_Inr:
  assumes "fire_schedule x s scheduled_for kind moment d = Inr (d', outcome)"
  obtains s' g where "firing_done x s scheduled_for outcome g d d'" "outcome \<in> {Blocked, Triggered}"
    "firings d' = firings d @ [g]" "g_schedule g = s_id s" "g_scheduled_for g = scheduled_for" "g_kind g = kind"
    "schedules d' = update_row s_id (s_id s) (\<lambda>_. s') (schedules d)" "s_id s' = s_id s" "s_status s' = s_status s"
    "s_next_fire_at s' = s_next_fire_at s" "unique_ok d'"
proof -
  note call = assms [unfolded fire_schedule_def Let_def]
  show thesis
  proof (cases "schedule_run x s (scheduled_idempotency_key (s_id s) scheduled_for) (s_created_by s) scheduled_for d")
    case (Inl e)
    note failed = this
    show thesis
    proof (cases "blocking_message e")
      case None
      with call failed show thesis by simp
    next
      case (Some m)
      with call failed have "unique_ok d'" and "outcome = Blocked" and d': "d' = audit x (s_created_by s)
          ''regression_schedule.trigger_blocked'' ''regression_schedule'' (s_id s)
          (Some (s_project s)) [(''scheduled_for'', JTime scheduled_for), (''error'', JStr m)]
          (store_schedule (s\<lparr>s_last_triggered_at := Some moment, s_last_error := Some (Blocked_by m)\<rparr>)
            (add_firing (new_firing (txn_uuid x Draw_row) (s_id s) None scheduled_for moment kind Firing_BLOCKED
              (Some (Blocked_by m))) d))"
        by (auto elim!: commit_bind_InrE)
      with Some failed show thesis
        by (intro that [where g = "new_firing (txn_uuid x Draw_row) (s_id s) None scheduled_for moment kind Firing_BLOCKED
              (Some (Blocked_by m))" and s' = "s\<lparr>s_last_triggered_at := Some moment, s_last_error := Some (Blocked_by m)\<rparr>"])
          (simp_all add: firing_done_def new_firing_def)
    qed
  next
    case (Inr ran)
    obtain d0 r created where ran: "ran = (d0, r, created)" by (cases ran)
    note kept = schedule_run_Inr(2,3) [OF Inr [unfolded ran]]
    from call Inr ran have "unique_ok d'" and "outcome = Triggered" and d': "d' = audit x (s_created_by s)
          ''regression_schedule.triggered'' ''regression_schedule'' (s_id s)
          (Some (s_project s)) [(''run_id'', JId (r_id r)), (''scheduled_for'', JTime scheduled_for),
             (''trigger_kind'', JStr (trigger_kind_value kind))]
          (store_schedule (s\<lparr>s_last_triggered_at := Some moment, s_last_run := Some (r_id r), s_last_error := None\<rparr>)
            (add_firing (new_firing (txn_uuid x Draw_row) (s_id s) (Some (r_id r)) scheduled_for moment kind
               Firing_TRIGGERED None) d0))"
      by (auto elim!: commit_bind_InrE)
    with Inr ran kept show thesis
      by (intro that [where g = "new_firing (txn_uuid x Draw_row) (s_id s) (Some (r_id r)) scheduled_for moment kind
            Firing_TRIGGERED None" and s' = "s\<lparr>s_last_triggered_at := Some moment, s_last_run := Some (r_id r), s_last_error := None\<rparr>"])
        (simp_all add: firing_done_def new_firing_def)
  qed
qed

lemma process_due_schedule_Inr:
  assumes "process_due_schedule x tz i moment d = Inr (d', outcome)"
  obtains (ignored) "outcome = Ignored" "d' = d"
      "\<And>s. lookup_row s_id i (schedules d) = Some s \<Longrightarrow> \<not> is_due moment s"
  | (known) s scheduled_for t where "lookup_row s_id i (schedules d) = Some s" "is_due moment s"
      "s_next_fire_at s = Some scheduled_for" "next_fire tz (s_cron s) moment (s_timezone s) = Inr t"
      "firing_known i scheduled_for d" "outcome = Ignored"
      "d' = store_schedule (s\<lparr>s_next_fire_at := Some t\<rparr>) d" "unique_ok d'"
  | (fired) s scheduled_for t s1 s' g where "lookup_row s_id i (schedules d) = Some s" "is_due moment s"
      "s_next_fire_at s = Some scheduled_for" "next_fire tz (s_cron s) moment (s_timezone s) = Inr t"
      "\<not> firing_known i scheduled_for d"
      "s1 = s\<lparr>s_next_fire_at := Some t, s_last_scheduled_for := Some scheduled_for\<rparr>"
      "firing_done x s1 scheduled_for outcome g d d'"
      "outcome = Skipped \<longleftrightarrow> misfired s scheduled_for moment \<and> s_misfire_policy s = SKIP"
      "firings d' = firings d @ [g]" "g_schedule g = i" "g_scheduled_for g = scheduled_for"
      "g_kind g = (if misfired s scheduled_for moment then Trigger_MISFIRE else Trigger_SCHEDULED)"
      "schedules d' = update_row s_id i (\<lambda>_. s') (schedules d)" "s_id s' = i" "s_status s' = s_status s"
      "s_next_fire_at s' = Some t" "unique_ok d'"
proof (cases "\<exists>s. lookup_row s_id i (schedules d) = Some s \<and> is_due moment s")
  case False
  with assms show thesis
    by (intro ignored) (auto simp: process_due_schedule_def split: option.splits)
next
  case True
  then obtain s where s: "lookup_row s_id i (schedules d) = Some s" "is_due moment s" by blast
  then obtain scheduled_for where at: "s_next_fire_at s = Some scheduled_for" by (auto simp: is_due_def split: option.splits)
  have id: "s_id s = i" using lookup_row_SomeD [OF s(1)] by simp
  note call = assms [unfolded process_due_schedule_def s(1) option.case at given_or_def]
  obtain t where t: "next_fire tz (s_cron s) moment (s_timezone s) = Inr t"
    using call s(2) by (auto simp: Let_def elim!: bind_outcome_InrE)
  let ?s1 = "s\<lparr>s_next_fire_at := Some t, s_last_scheduled_for := Some scheduled_for\<rparr>"
  show thesis
  proof (cases "firing_known i scheduled_for d")
    case True
    with call s(2) t have "unique_ok d'" "outcome = Ignored" "d' = store_schedule (s\<lparr>s_next_fire_at := Some t\<rparr>) d"
      by (auto simp: Let_def elim!: commit_bind_InrE)
    with True show thesis by (intro known [OF s at t])
  next
    case new: False
    show thesis
    proof (cases "misfired s scheduled_for moment \<and> s_misfire_policy s = SKIP")
      case True
      with call s(2) t new have "skip_firing x ?s1 scheduled_for t moment d = Inr (d', outcome)"
        by (simp add: Let_def)
      note w = skip_firing_Inr [OF this]
      from w True id show thesis
        by (intro fired [OF s at t new refl, where g = "new_firing (txn_uuid x Draw_row) (s_id s) None scheduled_for moment
            Trigger_MISFIRE Firing_SKIPPED None" and s' = "?s1\<lparr>s_last_error := Some MISFIRE_SKIPPED\<rparr>"])
          (simp_all add: firing_done_def new_firing_def)
    next
      case False
      with call s(2) t new have "fire_schedule x ?s1 scheduled_for
          (if misfired s scheduled_for moment then Trigger_MISFIRE else Trigger_SCHEDULED) moment d = Inr (d', outcome)"
        by (simp add: Let_def)
      then show thesis
      proof (rule fire_schedule_Inr)
        fix s' g
        assume "firing_done x ?s1 scheduled_for outcome g d d'" "outcome \<in> {Blocked, Triggered}"
          "firings d' = firings d @ [g]" "g_schedule g = s_id ?s1" "g_scheduled_for g = scheduled_for"
          "g_kind g = (if misfired s scheduled_for moment then Trigger_MISFIRE else Trigger_SCHEDULED)"
          "schedules d' = update_row s_id (s_id ?s1) (\<lambda>_. s') (schedules d)" "s_id s' = s_id ?s1"
          "s_status s' = s_status ?s1" "s_next_fire_at s' = s_next_fire_at ?s1" "unique_ok d'"
        with id False show thesis
          by (intro fired [OF s at t new refl, where g = g and s' = s']) auto
      qed
    qed
  qed
qed

subsection \<open>Every call creates runs as create_run does\<close>

lemma schedule_call_keeps_runs:
  assumes "schedule_call d d'" "control_ok d"
  shows "control_ok d' \<and> runs_evolve (runs d) (runs d')"
proof -
  have side: "control_ok b \<and> runs_evolve (runs a) (runs b)" if "control_ok a" "unique_ok b" "same_run_tables a b" for a b
    using control_ok_same_tables [OF that(1,2)] that(3) by (simp add: same_run_tables_def)
  have after_run: "control_ok d' \<and> runs_evolve (runs d) (runs d')"
    if run: "schedule_run x s key actor scheduled_for d = Inr (d1, r, created)" and "unique_ok d'" "same_run_tables d1 d'"
    for x s key actor scheduled_for d1 r created
  proof -
    have "control_ok d1 \<and> runs_evolve (runs d) (runs d1)"
      by (rule create_run_service [OF schedule_run_Inr(1) [OF run] assms(2)])
    with side [of d1 d'] that(2,3) show ?thesis by (auto simp: same_run_tables_def)
  qed
  show ?thesis using assms(1)
  proof (cases rule: schedule_call.cases)
    case Schedule_create
    from this(1) show ?thesis by (rule create_regression_schedule_Inr) (rule side [OF assms(2)])
  next
    case Schedule_update
    from this(1) show ?thesis by (rule update_regression_schedule_Inr) (rule side [OF assms(2)])
  next
    case Schedule_trigger
    then show ?thesis
    proof (rule trigger_regression_schedule_Inr)
      fix x s s' d1 d2 g r key actor created
      assume run: "schedule_run x s key actor (txn_now x) d = Inr (d1, r, created)"
        and "manual_firing x s (r_id r) actor d1 = (d2, g)" and d': "d' = store_schedule s' d2" "unique_ok d'"
      then have "same_run_tables d1 d2" by (elim manual_firing_cases) simp_all
      with d' show ?thesis by (intro after_run [OF run]) simp_all
    qed
  next
    case (Schedule_process x tz i moment outcome)
    then show ?thesis
    proof (cases rule: process_due_schedule_Inr)
      case ignored
      with assms(2) show ?thesis by simp
    next
      case known
      then show ?thesis by (intro side [OF assms(2)]) simp_all
    next
      case (fired s scheduled_for t s1 s' g)
      show ?thesis
      proof (cases "outcome = Triggered")
        case True
        with fired(7) obtain d0 r created
          where "schedule_run x s1 (scheduled_idempotency_key (s_id s1) scheduled_for) (s_created_by s1) scheduled_for d
            = Inr (d0, r, created)" and "same_run_tables d0 d'"
          by (auto simp: firing_done_def)
        then show ?thesis by (intro after_run [OF _ fired(17)])
      next
        case False
        with fired(7) have "same_run_tables d d'" by (cases outcome) (simp_all add: firing_done_def)
        then show ?thesis by (rule side [OF assms(2) fired(17)])
      qed
    qed
  qed
qed

interpretation schedule_services: run_service schedule_call
  by unfold_locales (simp_all add: schedule_call_keeps_runs)

subsection \<open>Schedules and firings agree\<close>

definition schedule_ok :: "schedule_row \<Rightarrow> bool" where
  "schedule_ok s \<longleftrightarrow> (s_status s = Schedule_ACTIVE) = (s_next_fire_at s \<noteq> None)"

definition firing_ok :: "db \<Rightarrow> firing_row \<Rightarrow> bool" where
  "firing_ok d g \<longleftrightarrow> g_schedule g \<in> s_id ` set (schedules d)
     \<and> (case g_status g of
          Firing_TRIGGERED \<Rightarrow> g_error g = None \<and> (\<exists>r\<in>set (runs d). g_run g = Some (r_id r))
        | Firing_SKIPPED \<Rightarrow> g_error g = None \<and> g_run g = None
        | Firing_BLOCKED \<Rightarrow> g_error g \<noteq> None \<and> g_run g = None)"

definition schedules_ok :: "db \<Rightarrow> bool" where
  "schedules_ok d \<longleftrightarrow> unique_on (\<lambda>g. (g_schedule g, g_scheduled_for g)) (firings d)
     \<and> (\<forall>s\<in>set (schedules d). schedule_ok s) \<and> (\<forall>g\<in>set (firings d). firing_ok d g)"

text \<open>The step the services share: schedules keep their ids, runs are added, firings are added.\<close>

lemma schedules_ok_step:
  assumes "schedules_ok d" "unique_ok d'" "s_id ` set (schedules d) \<subseteq> s_id ` set (schedules d')"
    and "\<exists>rest. runs d' = runs d @ rest"
    and "\<And>s. s \<in> set (schedules d') \<Longrightarrow> s \<in> set (schedules d) \<or> schedule_ok s"
    and "\<And>g. g \<in> set (firings d') \<Longrightarrow> g \<in> set (firings d) \<or> firing_ok d' g"
  shows "schedules_ok d'"
proof -
  have "firing_ok d' g" if "firing_ok d g" for g
    using that assms(3,4) by (auto simp: firing_ok_def split: firing_status.split_asm)
  then show ?thesis
    using assms(1,2,5,6) unfolding schedules_ok_def unique_ok_def unique_schedules_def by blast
qed

lemma process_keeps_schedules:
  assumes "process_due_schedule x tz i moment d = Inr (d', outcome)" "schedules_ok d"
  shows "schedules_ok d'"
  using assms(1)
proof (cases rule: process_due_schedule_Inr)
  case ignored
  with assms(2) show ?thesis by simp
next
  case (known s scheduled_for t)
  note s = lookup_row_SomeD [OF known(1)]
  show ?thesis
    using assms(2) known(7,8) s known(2)
    by (intro schedules_ok_step [OF assms(2) known(8)])
      (auto simp: ids_update_row schedule_ok_def is_due_def dest: set_update_row)
next
  case (fired s scheduled_for t s1 s' g)
  note s = lookup_row_SomeD [OF fired(1)]
  have ids: "s_id ` set (schedules d') = s_id ` set (schedules d)"
    using fired(13,14) by (simp add: ids_update_row)
  have more: "\<exists>rest. runs d' = runs d @ rest"
    using fired(7) unfolding firing_done_def Let_def
    by (auto split: firing_outcome.split_asm dest: schedule_run_Inr(5))
  have "schedule_ok s'" using fired(2,15,16) by (simp add: schedule_ok_def is_due_def)
  moreover have "g_schedule g \<in> s_id ` set (schedules d')"
    using fired(10) s ids by (metis image_eqI)
  moreover have "\<exists>r\<in>set (runs d'). g_run g = Some (r_id r)" if "outcome = Triggered"
    using fired(7) that schedule_run_Inr(4) by (fastforce simp: firing_done_def)
  ultimately have "schedule_ok s'" "firing_ok d' g"
    using fired(7) by (cases outcome; simp add: firing_ok_def firing_done_def Let_def)+
  then show ?thesis
    using fired(9,13) ids more
    by (intro schedules_ok_step [OF assms(2) fired(17)]) (auto dest: set_update_row)
qed

lemma trigger_keeps_schedules:
  assumes "trigger_regression_schedule x project i key actor d = Inr (d', r, created)" "schedules_ok d"
  shows "schedules_ok d'"
  using assms(1)
proof (rule trigger_regression_schedule_Inr)
  fix s s' d1 d2 g
  assume s: "get_schedule project i d = Inr s"
    and run: "schedule_run x s (manual_idempotency_key x i key) actor (txn_now x) d = Inr (d1, r, created)"
    and firing: "manual_firing x s (r_id r) actor d1 = (d2, g)"
    and s': "s' = s\<lparr>s_last_scheduled_for := Some (g_scheduled_for g), s_last_triggered_at := g_triggered_at g,
           s_last_run := Some (r_id r), s_last_error := None\<rparr>"
    and d': "d' = store_schedule s' d2" "unique_ok d'"
  note ran = schedule_run_Inr [OF run] and at = get_schedule_InrD [OF s]
  have tables: "schedules d2 = schedules d1" "runs d2 = runs d1"
    and new: "\<And>h. h \<in> set (firings d2) \<Longrightarrow> h \<in> set (firings d1)
      \<or> h = new_firing (txn_uuid x Draw_row) (s_id s) (Some (r_id r)) (txn_now x) (txn_now x) Trigger_MANUAL Firing_TRIGGERED None"
    using firing by (auto elim!: manual_firing_cases)
  have "schedule_ok s'" using assms(2) at(1) by (simp add: s' schedules_ok_def schedule_ok_def)
  moreover have ids: "s_id ` set (schedules d') = s_id ` set (schedules d)"
    using d'(1) tables(1) ran(2) by (simp add: s' ids_update_row)
  moreover have "firing_ok d' (new_firing (txn_uuid x Draw_row) (s_id s) (Some (r_id r)) (txn_now x) (txn_now x)
      Trigger_MANUAL Firing_TRIGGERED None)"
    using ids at ran(4) tables(2) d'(1) by (auto simp: firing_ok_def new_firing_def)
  ultimately show ?thesis
    using d'(1) tables ran(2,3,5) new
    by (intro schedules_ok_step [OF assms(2) d'(2)]) (auto dest: set_update_row)
qed

text \<open>A daily schedule that is due at second 1000, in a zone of UTC.\<close>

definition demo_utc :: "string \<Rightarrow> time_zone option" where
  "demo_utc name = (if name = ''UTC'' then Some \<lparr>zn_local = (\<lambda>u. (u, 0)), zn_utc = (\<lambda>l fold. l)\<rparr> else None)"

definition demo_schedule :: schedule_row where
  "demo_schedule = \<lparr>s_id = 300, s_project = 10, s_target = 20, s_environment = 30, s_baseline = 40, s_package = 50,
     s_key = ''daily'', s_name = ''Daily'', s_description = None, s_case_codes = [], s_cron = ''0 0 * * *'',
     s_timezone = ''UTC'', s_misfire_policy = FIRE_ONCE, s_misfire_grace = 300, s_status = Schedule_ACTIVE,
     s_next_fire_at = Some (microseconds 1000), s_last_scheduled_for = None, s_last_triggered_at = None,
     s_last_run = None, s_last_error = None, s_created_by = 2\<rparr>"

definition demo_schedule_db :: db where
  "demo_schedule_db = demo_db\<lparr>schedules := [demo_schedule]\<rparr>"

definition demo_firing :: "service_error + db \<times> firing_outcome" where
  "demo_firing = process_due_schedule (demo_txn 1100 400) demo_utc 300 (microseconds 1100) demo_schedule_db"

lemma demo_firing_done: "\<exists>d'. demo_firing = Inr (d', Triggered) \<and> length (firings d') = 1"
proof -
  have "case demo_firing of Inl _ \<Rightarrow> False | Inr (d', outcome) \<Rightarrow> outcome = Triggered \<and> length (firings d') = 1"
    by code_simp
  then show ?thesis by (auto split: sum.splits)
qed

text \<open>
  C29: schedules stay ready to fire and their history is complete.  Every service on schedules keeps
  this: exactly the active schedules have a next due time; every firing belongs to a schedule, and
  no two firings of a schedule are for the same due time; a triggered firing names an existing run
  and no error, a blocked one its error and no run, a skipped one neither.
\<close>

theorem schedules_preserved:
  assumes "schedule_call d d'" and "schedules_ok d"
  shows "schedules_ok d'"
  using assms(1)
proof (cases rule: schedule_call.cases)
  case Schedule_create
  from this(1) show ?thesis
    by (rule create_regression_schedule_Inr)
      (rule schedules_ok_step [OF assms(2)], auto simp: schedule_ok_def new_schedule_def)
next
  case Schedule_update
  from this(1) show ?thesis
    by (rule update_regression_schedule_Inr)
      (rule schedules_ok_step [OF assms(2)], auto simp: schedule_ok_def ids_update_row dest: set_update_row)
next
  case Schedule_trigger
  then show ?thesis by (rule trigger_keeps_schedules [OF _ assms(2)])
next
  case Schedule_process
  then show ?thesis by (rule process_keeps_schedules [OF _ assms(2)])
qed

theorem schedules_preserved_witness:
  "\<exists>d'. schedule_call demo_schedule_db d' \<and> length (firings d') = 1 \<and> schedules_ok d'"
proof -
  obtain d' where d': "demo_firing = Inr (d', Triggered)" "length (firings d') = 1" using demo_firing_done by blast
  then have "schedule_call demo_schedule_db d'" unfolding demo_firing_def by (intro Schedule_process)
  moreover have "schedules_ok demo_schedule_db" by code_simp
  ultimately show ?thesis using schedules_preserved d'(2) by blast
qed

lemma lookup_replaced:
  "key new = i \<Longrightarrow> lookup_row key i rows \<noteq> None \<Longrightarrow> lookup_row key i (update_row key i (\<lambda>_. new) rows) = Some new"
  by (induction rows) (auto simp: update_row_def update_where_def row_simps)

text \<open>
  C28: a due time fires once, however late or often the processor comes.  When a due schedule was
  processed, its next due time lies after the moment of the processing, so every due time missed
  meanwhile is covered by the one firing, and processing the schedule again for that moment or an
  earlier one, in whatever transaction, changes nothing; a firing is appended exactly when the
  outcome is not \<open>Ignored\<close>, for the due time the schedule had and only if it had none for it.
\<close>

theorem due_time_fires_once:
  assumes "process_due_schedule x tz i moment d = Inr (d', outcome)" and "moment' \<le> moment"
  shows "process_due_schedule x' tz' i moment' d' = Inr (d', Ignored)
    \<and> (if outcome = Ignored then firings d' = firings d
       else \<exists>s due g. lookup_row s_id i (schedules d) = Some s \<and> s_next_fire_at s = Some due \<and> due \<le> moment
         \<and> firings d' = firings d @ [g] \<and> g_schedule g = i \<and> g_scheduled_for g = due \<and> \<not> firing_known i due d)"
proof -
  have again: "process_due_schedule x' tz' i moment' d' = Inr (d', Ignored)"
    if "schedules d' = update_row s_id i (\<lambda>_. s') (schedules d)" "s_id s' = i" "lookup_row s_id i (schedules d) = Some s"
      "s_next_fire_at s' = Some t" "moment < t" for s s' t
  proof -
    have "lookup_row s_id i (schedules d') = Some s'"
      using that(1-3) by (simp add: lookup_replaced)
    with that(4,5) assms(2) show ?thesis by (simp add: process_due_schedule_def is_due_def)
  qed
  show ?thesis
    using assms(1)
  proof (cases rule: process_due_schedule_Inr)
    case ignored
    have "\<not> is_due moment' s" if "lookup_row s_id i (schedules d) = Some s" for s
      using ignored(3) [OF that] assms(2) by (auto simp: is_due_def split: option.splits)
    with ignored show ?thesis by (auto simp: process_due_schedule_def split: option.splits)
  next
    case (known s due t)
    have "s_id s = i" using lookup_row_SomeD [OF known(1)] by simp
    with known show ?thesis using again [of "s\<lparr>s_next_fire_at := Some t\<rparr>" s t] next_fire_later [OF known(4)]
      by simp
  next
    case (fired s due t s1 s' g)
    have "outcome \<noteq> Ignored" using fired(7) by (auto simp: firing_done_def)
    with fired show ?thesis
      using again [OF fired(13,14,1,16) next_fire_later [OF fired(4)]] by (auto simp: is_due_def)
  qed
qed

theorem due_time_fires_once_witness:
  "\<exists>d'. demo_firing = Inr (d', Triggered) \<and> (\<exists>g. firings d' = firings demo_schedule_db @ [g])
     \<and> process_due_schedule (demo_txn 1101 500) demo_utc 300 (microseconds 1100) d' = Inr (d', Ignored)"
proof -
  obtain d' where d': "demo_firing = Inr (d', Triggered)" using demo_firing_done by blast
  from due_time_fires_once [OF d' [unfolded demo_firing_def] order_refl, of "demo_txn 1101 500" demo_utc] d'
  show ?thesis by auto
qed

text \<open>
  A triggered firing has its run.  When a due schedule was triggered, its firing names a run of
  the schedule's project under the key made of the schedule and the due time; the run was there
  before (the firing is then a repetition of it) or it is the one new run, QUEUED, bound to the
  schedule and the due time and created in the name of the schedule's creator.
\<close>

theorem triggered_firing_has_run:
  assumes "process_due_schedule x tz i moment d = Inr (d', Triggered)"
  shows "\<exists>s due g r. lookup_row s_id i (schedules d) = Some s \<and> s_next_fire_at s = Some due
    \<and> firings d' = firings d @ [g] \<and> g_status g = Firing_TRIGGERED \<and> g_run g = Some (r_id r) \<and> r \<in> set (runs d')
    \<and> r_project r = s_project s \<and> r_idempotency_key r = scheduled_idempotency_key i due
    \<and> (runs d' = runs d
       \<or> runs d' = runs d @ [r] \<and> r_status r = QUEUED \<and> r_schedule r = Some i \<and> r_scheduled_for r = Some due
          \<and> r_created_by r = s_created_by s)"
  using assms
proof (cases rule: process_due_schedule_Inr)
  case (fired s due t s1 s' g)
  have i: "s_id s = i" using lookup_row_SomeD [OF fired(1)] by simp
  obtain d0 r created where run: "schedule_run x s1 (scheduled_idempotency_key (s_id s1) due) (s_created_by s1) due d = Inr (d0, r, created)"
    and g: "g_status g = Firing_TRIGGERED" "g_run g = Some (r_id r)" and same: "runs d' = runs d0"
    using fired(7) by (auto simp: firing_done_def)
  have s1: "s_id s1 = i" "s_created_by s1 = s_created_by s" "s_project s1 = s_project s" using fired(6) i by simp_all
  from schedule_run_Inr(1) [OF run]
  have "r_project r = s_project s \<and> r_idempotency_key r = scheduled_idempotency_key i due
    \<and> (runs d0 = runs d \<or> runs d0 = runs d @ [r] \<and> r_status r = QUEUED \<and> r_schedule r = Some i
        \<and> r_scheduled_for r = Some due \<and> r_created_by r = s_created_by s)"
  proof (cases rule: create_run_Inr)
    case replayed
    then show ?thesis using existing_idempotent_run_Some [OF replayed(3)] s1 by (simp add: run_payload_def)
  next
    case (queued project pl chain qr)
    then have "p_id project = s_project s" using s1 by (auto simp: run_payload_def dest: lookup_row_SomeD)
    with queued s1 show ?thesis
      by (simp add: queued_by_def add_run_writes new_run_def queue_arguments_def Let_def)
  qed
  then show ?thesis
    using fired(1,3,9) g same schedule_run_Inr(4) [OF run] by fastforce
qed simp_all

theorem triggered_firing_has_run_witness:
  "\<exists>d' r. demo_firing = Inr (d', Triggered) \<and> r \<in> set (runs d') \<and> r_project r = 10
     \<and> r_idempotency_key r = scheduled_idempotency_key 300 (microseconds 1000)"
proof -
  obtain d' where d': "demo_firing = Inr (d', Triggered)" using demo_firing_done by blast
  have "lookup_row s_id 300 (schedules demo_schedule_db) = Some demo_schedule"
    by (simp add: demo_schedule_db_def demo_schedule_def row_simps)
  with triggered_firing_has_run [OF d' [unfolded demo_firing_def]] d' show ?thesis
    by (auto simp: demo_schedule_def)
qed

end
