(* ===== verification/Quality_Analytics.thy ===== *)
theory Quality_Analytics
  imports Scenario "HOL-Library.List_Lexorder" "HOL-Library.Char_ord"
begin

section \<open>Quality analytics\<close>

text \<open>
  \<open>quality_services.py\<close>: pass rates of a window of days compared with the window before it, the
  alert signals they give, the daily trend, the flaky cases and the update of a project's policy.
  A percentage with two decimals is its number of hundredths.  A terminal run has its finishing
  time (Run_Invariant), so \<open>coalesce(finished_at, updated_at)\<close> is that time.
\<close>

subsection \<open>Percentages\<close>

text \<open>Division of integers rounded to the nearest integer, ties to even.\<close>

definition round_div :: "int \<Rightarrow> int \<Rightarrow> int" where
  "round_div a b =
     (let q = a div b; r = a mod b
      in if 2 * r < b then q else if b < 2 * r then q + 1 else if even q then q else q + 1)"

text \<open>
  The quotient of two integers as a floating-point number: the smallest power of two that lifts it
  to 53 binary digits (4503599627370496 is the 52nd power of two), and the digits rounded.
\<close>

function scale_up :: "int \<Rightarrow> int \<Rightarrow> nat \<Rightarrow> int \<times> nat" where
  "scale_up num den k = (if 0 < num \<and> num < 4503599627370496 * den then scale_up (2 * num) den (k + 1) else (num, k))"
  by pat_completeness auto
termination
  by (relation "measure (\<lambda>(num, den, k). nat (4503599627370496 * den - num))") auto

declare scale_up.simps [simp del]

text \<open>
  \<open>round(numerator * 100 / denominator, 2)\<close>: the quotient, at most 100, becomes the nearest
  floating-point number, whose exact value is rounded to two decimals, ties to even.
\<close>

definition percentage :: "int \<Rightarrow> int \<Rightarrow> percent option" where
  "percentage numerator denominator =
     (if denominator = 0 then None
      else let (num, k) = scale_up (numerator * 100) denominator 0
           in Some (round_div (round_div num denominator * 100) (2 ^ k)))"

subsection \<open>Summaries\<close>

text \<open>The rows of \<open>select(status, count) ... group_by(status)\<close> as an association list.\<close>

definition count_map :: "'s list \<Rightarrow> ('s \<times> int) list" where
  "count_map statuses = map (\<lambda>s. (s, count_rows (\<lambda>t. t = s) statuses)) (remdups statuses)"

definition get_count :: "('s \<times> int) list \<Rightarrow> 's \<Rightarrow> int" where
  "get_count counts s = (case map_of counts s of None \<Rightarrow> 0 | Some n \<Rightarrow> n)"

definition total_count :: "('s \<times> int) list \<Rightarrow> int" where
  "total_count counts = sum_list (map snd counts)"

record run_summary =
  qr_total :: int
  qr_conclusive :: int
  qr_passed :: int
  qr_failed :: int
  qr_canceled :: int
  qr_timed_out :: int
  qr_infra_error :: int
  qr_pass_rate :: "percent option"
  qr_reliability :: "percent option"

definition summarize_runs :: "(run_status \<times> int) list \<Rightarrow> run_summary" where
  "summarize_runs counts =
     (let passed = get_count counts PASSED; failed = get_count counts FAILED;
          timed_out = get_count counts TIMED_OUT; infra_error = get_count counts INFRA_ERROR;
          conclusive = passed + failed
      in \<lparr>qr_total = total_count counts, qr_conclusive = conclusive, qr_passed = passed, qr_failed = failed,
          qr_canceled = get_count counts CANCELED, qr_timed_out = timed_out, qr_infra_error = infra_error,
          qr_pass_rate = percentage passed conclusive,
          qr_reliability = percentage conclusive (conclusive + timed_out + infra_error)\<rparr>)"

record case_summary =
  qc_total :: int
  qc_conclusive :: int
  qc_passed :: int
  qc_failed :: int
  qc_skipped :: int
  qc_canceled :: int
  qc_timed_out :: int
  qc_infra_error :: int
  qc_pass_rate :: "percent option"

definition summarize_cases :: "(status_value \<times> int) list \<Rightarrow> case_summary" where
  "summarize_cases counts =
     (let passed = get_count counts (Value_of PASSED); failed = get_count counts (Value_of FAILED);
          conclusive = passed + failed
      in \<lparr>qc_total = total_count counts, qc_conclusive = conclusive, qc_passed = passed, qc_failed = failed,
          qc_skipped = get_count counts Value_SKIPPED, qc_canceled = get_count counts (Value_of CANCELED),
          qc_timed_out = get_count counts (Value_of TIMED_OUT),
          qc_infra_error = get_count counts (Value_of INFRA_ERROR),
          qc_pass_rate = percentage passed conclusive\<rparr>)"

subsection \<open>Signals\<close>

record quality_signal =
  sg_metric :: alert_metric
  sg_current :: "percent option"
  sg_previous :: "percent option"
  sg_delta :: "percent option"
  sg_status :: alert_status

text \<open>
  The difference of two floating-point numbers with two decimals each, rounded to two decimals, is
  the difference of their hundredths; it reaches a whole number of points exactly when the
  hundredths do.
\<close>

definition quality_change_signal ::
  "alert_metric \<Rightarrow> percent option \<Rightarrow> percent option \<Rightarrow> int \<Rightarrow> int \<Rightarrow> quality_signal" where
  "quality_change_signal metric current previous warning_drop critical_drop =
     (case (current, previous) of
        (Some c, Some p) \<Rightarrow>
          (let delta = c - p; drop' = - delta
           in \<lparr>sg_metric = metric, sg_current = current, sg_previous = previous, sg_delta = Some delta,
               sg_status = (if drop' \<ge> critical_drop * 100 then Alert_CRITICAL
                 else if drop' \<ge> warning_drop * 100 then Alert_WARNING else Alert_STABLE)\<rparr>)
      | _ \<Rightarrow> \<lparr>sg_metric = metric, sg_current = current, sg_previous = previous, sg_delta = None,
              sg_status = Alert_NO_DATA\<rparr>)"

fun alert_rank :: "alert_status \<Rightarrow> int" where
  "alert_rank Alert_NO_DATA = 0"
| "alert_rank Alert_STABLE = 1"
| "alert_rank Alert_WARNING = 2"
| "alert_rank Alert_CRITICAL = 3"

text \<open>\<open>max(..., key=rank)\<close> keeps the first of the greatest.\<close>

definition quality_alert_status :: "quality_signal list \<Rightarrow> alert_status" where
  "quality_alert_status signals =
     (case filter (\<lambda>s. s \<noteq> Alert_NO_DATA) (map sg_status signals) of
        [] \<Rightarrow> Alert_NO_DATA
      | s # ss \<Rightarrow> fold (\<lambda>t best. if alert_rank best < alert_rank t then t else best) ss s)"

subsection \<open>The runs of a window\<close>

record dimension_filters =
  df_target :: "uuid option"
  df_environment :: "uuid option"
  df_baseline :: "uuid option"

definition selected :: "uuid option \<Rightarrow> uuid \<Rightarrow> bool" where
  "selected wanted i = (case wanted of None \<Rightarrow> True | Some w \<Rightarrow> i = w)"

definition completed_within :: "instant \<Rightarrow> instant \<Rightarrow> bool \<Rightarrow> run_row \<Rightarrow> bool" where
  "completed_within started ended include_end r =
     (case r_finished_at r of
        None \<Rightarrow> False
      | Some t \<Rightarrow> started \<le> t \<and> (if include_end then t \<le> ended else t < ended))"

definition quality_run_filter ::
  "uuid \<Rightarrow> instant \<Rightarrow> instant \<Rightarrow> bool \<Rightarrow> dimension_filters \<Rightarrow> run_row \<Rightarrow> bool" where
  "quality_run_filter project started ended include_end f r \<longleftrightarrow>
     r_project r = project \<and> terminal_status (r_status r) \<and> completed_within started ended include_end r
     \<and> selected (df_target f) (r_target r) \<and> selected (df_environment f) (r_environment r)
     \<and> selected (df_baseline f) (r_baseline r)"

definition TERMINAL_CASE_STATUSES :: "status_value list" where
  "TERMINAL_CASE_STATUSES = [Value_of PASSED, Value_of FAILED, Value_SKIPPED, Value_of CANCELED,
     Value_of TIMED_OUT, Value_of INFRA_ERROR]"

text \<open>The cases joined with their runs, in the order of the tables.\<close>

definition cases_of_runs :: "(run_row \<Rightarrow> bool) \<Rightarrow> db \<Rightarrow> (run_row \<times> run_case_row) list" where
  "cases_of_runs P d =
     concat (map (\<lambda>c. map (\<lambda>r. (r, c)) (filter (\<lambda>r. r_id r = c_run c \<and> P r) (runs d))) (run_cases d))"

definition window_run_counts :: "(run_row \<Rightarrow> bool) \<Rightarrow> db \<Rightarrow> (run_status \<times> int) list" where
  "window_run_counts P d = count_map (map r_status (filter P (runs d)))"

definition window_case_counts :: "(run_row \<Rightarrow> bool) \<Rightarrow> db \<Rightarrow> (status_value \<times> int) list" where
  "window_case_counts P d =
     count_map (filter (\<lambda>s. s \<in> set TERMINAL_CASE_STATUSES) (map (\<lambda>(r, c). c_status c) (cases_of_runs P d)))"

record window_comparison =
  cmp_previous_started :: instant
  cmp_previous_ended :: instant
  cmp_warning_drop :: int
  cmp_critical_drop :: int
  cmp_status :: alert_status
  cmp_signals :: "quality_signal list"

record comparison_snapshot =
  cs_started :: instant
  cs_ended :: instant
  cs_runs :: run_summary
  cs_previous_runs :: run_summary
  cs_cases :: case_summary
  cs_previous_cases :: case_summary
  cs_comparison :: window_comparison
  cs_latest :: "instant option"

definition latest_completed :: "run_row list \<Rightarrow> instant option" where
  "latest_completed rs =
     (case map (\<lambda>r. given_or (r_finished_at r) 0) rs of [] \<Rightarrow> None | t # ts \<Rightarrow> Some (fold max ts t))"

definition window_days :: "int option \<Rightarrow> project_row \<Rightarrow> int" where
  "window_days days p = (case days of None \<Rightarrow> p_slo_window_days p | Some n \<Rightarrow> if n = 0 then p_slo_window_days p else n)"

definition window_start :: "instant \<Rightarrow> int \<Rightarrow> instant" where
  "window_start moment days = (moment div day_length - (days - 1)) * day_length"

definition calculate_quality_comparison ::
  "project_row \<Rightarrow> int option \<Rightarrow> dimension_filters \<Rightarrow> instant \<Rightarrow> db \<Rightarrow> service_error + comparison_snapshot" where
  "calculate_quality_comparison p days_given f moment d =
     (let days = window_days days_given p in
      if \<not> (1 \<le> days \<and> days \<le> 90) then Inl (InvalidRequest ''quality window days must be between 1 and 90'')
      else
      let started = window_start moment days;
          current = quality_run_filter (p_id p) started moment True f;
          run_totals = summarize_runs (window_run_counts current d);
          case_totals = summarize_cases (window_case_counts current d);
          previous_ended = started;
          previous_started = previous_ended - (moment - started);
          previous = quality_run_filter (p_id p) previous_started previous_ended False f;
          previous_runs = summarize_runs (window_run_counts previous d);
          previous_cases = summarize_cases (window_case_counts previous d);
          signals =
            [quality_change_signal RUN_PASS_RATE (qr_pass_rate run_totals) (qr_pass_rate previous_runs)
               (p_warning_drop p) (p_critical_drop p),
             quality_change_signal CASE_PASS_RATE (qc_pass_rate case_totals) (qc_pass_rate previous_cases)
               (p_warning_drop p) (p_critical_drop p),
             quality_change_signal EXECUTION_RELIABILITY (qr_reliability run_totals) (qr_reliability previous_runs)
               (p_warning_drop p) (p_critical_drop p)]
      in Inr \<lparr>cs_started = started, cs_ended = moment, cs_runs = run_totals, cs_previous_runs = previous_runs,
           cs_cases = case_totals, cs_previous_cases = previous_cases,
           cs_comparison = \<lparr>cmp_previous_started = previous_started, cmp_previous_ended = previous_ended,
             cmp_warning_drop = p_warning_drop p, cmp_critical_drop = p_critical_drop p,
             cmp_status = quality_alert_status signals, cmp_signals = signals\<rparr>,
           cs_latest = latest_completed (filter current (runs d))\<rparr>)"

subsection \<open>The policy of a project\<close>

record quality_policy_update =
  qp_target :: "int option"
  qp_window_days :: "int option"
  qp_warning_drop :: "int option"
  qp_critical_drop :: "int option"

definition validate_quality_policy_update :: "quality_policy_update \<Rightarrow> service_error + quality_policy_update" where
  "validate_quality_policy_update u =
     (if qp_target u = None \<and> qp_window_days u = None \<and> qp_warning_drop u = None \<and> qp_critical_drop u = None
      then Inl (Value_error ''at least one quality policy field must be provided'')
      else case (qp_warning_drop u, qp_critical_drop u) of
        (Some w, Some c) \<Rightarrow>
          if c \<le> w then Inl (Value_error ''quality warning drop must be lower than critical drop'') else Inr u
      | _ \<Rightarrow> Inr u)"

definition quality_policy_details :: "project_row \<Rightarrow> json" where
  "quality_policy_details p =
     JObj [(''target_pass_rate_percent'', JInt (p_slo_target p)), (''window_days'', JInt (p_slo_window_days p)),
       (''alert_warning_drop_percentage_points'', JInt (p_warning_drop p)),
       (''alert_critical_drop_percentage_points'', JInt (p_critical_drop p))]"

definition update_quality_policy ::
  "txn \<Rightarrow> uuid \<Rightarrow> quality_policy_update \<Rightarrow> uuid \<Rightarrow> db \<Rightarrow> service_error + db \<times> project_row" where
  "update_quality_policy x project u actor d =
     bind_outcome (project_or_404 d project) (\<lambda>p.
     let warning_drop = given_or (qp_warning_drop u) (p_warning_drop p);
         critical_drop = given_or (qp_critical_drop u) (p_critical_drop p)
     in if critical_drop \<le> warning_drop
        then Inl (InvalidRequest ''quality warning drop must be lower than critical drop'')
        else
        let p' = p\<lparr>p_slo_target := given_or (qp_target u) (p_slo_target p),
              p_slo_window_days := given_or (qp_window_days u) (p_slo_window_days p),
              p_warning_drop := warning_drop, p_critical_drop := critical_drop\<rparr>;
            d1 = audit x actor ''project.quality_policy_updated'' ''project_quality_policy'' project (Some project)
              [(''before'', quality_policy_details p), (''after'', quality_policy_details p')]
              (d\<lparr>projects := update_row p_id project (\<lambda>_. p') (projects d)\<rparr>)
        in bind_outcome (commit d1) (\<lambda>d2. Inr (d2, p')))"

subsection \<open>Analytics of a window\<close>

definition validate_dimension_filters :: "uuid \<Rightarrow> dimension_filters \<Rightarrow> db \<Rightarrow> service_error + unit" where
  "validate_dimension_filters project f d =
     bind_outcome
       (case df_target f of
          None \<Rightarrow> Inr ()
        | Some i \<Rightarrow> (case lookup_row t_id i (targets d) of
            None \<Rightarrow> Inl (ResourceNotFound ''quality target filter not found in project'')
          | Some t \<Rightarrow> if t_project t \<noteq> project
              then Inl (ResourceNotFound ''quality target filter not found in project'') else Inr ()))
       (\<lambda>_.
     bind_outcome
       (case df_environment f of
          None \<Rightarrow> Inr ()
        | Some i \<Rightarrow> (case lookup_row e_id i (environments d) of
            None \<Rightarrow> Inl (ResourceNotFound ''quality environment filter not found in project'')
          | Some e \<Rightarrow>
              if e_project e \<noteq> project then Inl (ResourceNotFound ''quality environment filter not found in project'')
              else if \<not> selected (df_target f) (e_target e)
              then Inl (InvalidRequest ''quality environment filter does not belong to target filter'') else Inr ()))
       (\<lambda>_.
       case df_baseline f of
         None \<Rightarrow> Inr ()
       | Some i \<Rightarrow> (case lookup_row b_id i (baselines d) of
           None \<Rightarrow> Inl (ResourceNotFound ''quality baseline filter not found in project'')
         | Some b \<Rightarrow> if b_project b \<noteq> project
             then Inl (ResourceNotFound ''quality baseline filter not found in project'') else Inr ())))"

text \<open>The trend: one point per day of the window.\<close>

record trend_point =
  tp_started :: instant
  tp_total :: int
  tp_passed :: int
  tp_failed :: int
  tp_canceled :: int
  tp_timed_out :: int
  tp_infra_error :: int
  tp_pass_rate :: "percent option"

definition bucket_date :: "run_row \<Rightarrow> int" where
  "bucket_date r = given_or (r_finished_at r) 0 div day_length"

definition trend_point_of :: "int \<Rightarrow> (run_status \<times> int) list \<Rightarrow> trend_point" where
  "trend_point_of date counts =
     (let passed = get_count counts PASSED; failed = get_count counts FAILED
      in \<lparr>tp_started = date * day_length, tp_total = total_count counts, tp_passed = passed, tp_failed = failed,
          tp_canceled = get_count counts CANCELED, tp_timed_out = get_count counts TIMED_OUT,
          tp_infra_error = get_count counts INFRA_ERROR, tp_pass_rate = percentage passed (passed + failed)\<rparr>)"

definition quality_trend :: "instant \<Rightarrow> int \<Rightarrow> (run_row \<Rightarrow> bool) \<Rightarrow> db \<Rightarrow> trend_point list" where
  "quality_trend started days P d =
     map (\<lambda>k. let date = started div day_length + int k
       in trend_point_of date (window_run_counts (\<lambda>r. P r \<and> bucket_date r = date) d)) [0 ..< nat days]"

text \<open>Flaky cases.\<close>

record case_observation =
  ob_case :: uuid
  ob_code :: string
  ob_passed :: bool
  ob_at :: instant
  ob_run :: uuid

record flaky_case =
  fk_case :: uuid
  fk_code :: string
  fk_executions :: int
  fk_passed :: int
  fk_failed :: int
  fk_pass_rate :: percent
  fk_transitions :: int
  fk_transition_rate :: percent
  fk_latest_passed :: bool
  fk_latest_at :: instant

definition FLAKY_MIN_CONCLUSIVE_EXECUTIONS :: nat where
  "FLAKY_MIN_CONCLUSIVE_EXECUTIONS = 3"

definition FLAKY_MIN_STATUS_TRANSITIONS :: int where
  "FLAKY_MIN_STATUS_TRANSITIONS = 2"

definition MAX_FLAKY_CASES :: nat where
  "MAX_FLAKY_CASES = 20"

definition MAX_FLAKY_ROWS :: nat where
  "MAX_FLAKY_ROWS = 5000"

definition count_transitions :: "bool list \<Rightarrow> int" where
  "count_transitions statuses = count_rows (\<lambda>(a, b). a \<noteq> b) (zip statuses (tl statuses))"

text \<open>The history of one case, in order of time and then of the run's identifier.\<close>

definition ordered_history :: "case_observation list \<Rightarrow> case_observation list" where
  "ordered_history obs = sort_key ob_at (sort_key ob_run obs)"

definition flaky_case_of :: "case_observation list \<Rightarrow> flaky_case option" where
  "flaky_case_of history =
     (if length history < FLAKY_MIN_CONCLUSIVE_EXECUTIONS then None
      else
      let statuses = map ob_passed history;
          passed = count_rows (\<lambda>s. s) statuses; failed = count_rows (\<lambda>s. \<not> s) statuses;
          transitions = count_transitions statuses;
          latest = last history
      in if passed = 0 \<or> failed = 0 \<or> transitions < FLAKY_MIN_STATUS_TRANSITIONS then None
         else case (percentage passed (int (length history)), percentage transitions (int (length history) - 1)) of
           (Some pass_rate, Some rate) \<Rightarrow>
             Some \<lparr>fk_case = ob_case latest, fk_code = ob_code latest, fk_executions = int (length history),
               fk_passed = passed, fk_failed = failed, fk_pass_rate = pass_rate, fk_transitions = transitions,
               fk_transition_rate = rate, fk_latest_passed = ob_passed latest, fk_latest_at = ob_at latest\<rparr>
         | _ \<Rightarrow> None)"

text \<open>Sorting by several keys: by the last key first, since the sort is stable.\<close>

definition sort_flaky :: "flaky_case list \<Rightarrow> flaky_case list" where
  "sort_flaky fs =
     sort_key (\<lambda>f. - fk_transition_rate f) (sort_key (\<lambda>f. - fk_transitions f) (sort_key (\<lambda>f. - fk_executions f)
       (sort_key (\<lambda>f. - fk_latest_at f) (sort_key fk_code (sort_key fk_case fs)))))"

definition detect_flaky_cases :: "case_observation list \<Rightarrow> flaky_case list \<times> nat" where
  "detect_flaky_cases rows =
     (let cases = remdups (map ob_case rows);
          detected = sort_flaky (concat (map (\<lambda>i.
            case flaky_case_of (ordered_history (filter (\<lambda>ob. ob_case ob = i) rows)) of
              None \<Rightarrow> [] | Some f \<Rightarrow> [f]) cases))
      in (take MAX_FLAKY_CASES detected, length detected))"

text \<open>The rows of the query: newest first.\<close>

definition flaky_rows :: "(run_row \<Rightarrow> bool) \<Rightarrow> db \<Rightarrow> case_observation list" where
  "flaky_rows P d =
     take (MAX_FLAKY_ROWS + 1) (sort_key (\<lambda>ob. - ob_at ob) (sort_key (\<lambda>ob. - int (ob_run ob))
       (map (\<lambda>(r, c). \<lparr>ob_case = c_case_id c, ob_code = c_case_code c, ob_passed = (c_status c = Value_of PASSED),
            ob_at = given_or (r_finished_at r) 0, ob_run = r_id r\<rparr>)
         (filter (\<lambda>(r, c). c_status c \<in> {Value_of PASSED, Value_of FAILED}) (cases_of_runs P d)))))"

datatype slo_status = Slo_NO_DATA | Slo_MET | Slo_BREACHED

definition slo_status_of :: "percent option \<Rightarrow> int \<Rightarrow> slo_status" where
  "slo_status_of rate target =
     (case rate of None \<Rightarrow> Slo_NO_DATA | Some r \<Rightarrow> if r \<ge> target * 100 then Slo_MET else Slo_BREACHED)"

record quality_analytics =
  qa_days :: int
  qa_snapshot :: comparison_snapshot
  qa_slo_status :: slo_status
  qa_trend :: "trend_point list"
  qa_flaky :: "flaky_case list"
  qa_flaky_count :: nat
  qa_flaky_analyzed :: nat
  qa_flaky_truncated :: bool

text \<open>\<open>get_quality_analytics\<close> without the clusters of failure messages.\<close>

definition get_quality_analytics ::
  "uuid \<Rightarrow> int option \<Rightarrow> dimension_filters \<Rightarrow> instant \<Rightarrow> db \<Rightarrow> service_error + quality_analytics" where
  "get_quality_analytics project days_given f moment d =
     bind_outcome (project_or_404 d project) (\<lambda>p.
     bind_outcome (validate_dimension_filters project f d) (\<lambda>_.
     bind_outcome (calculate_quality_comparison p days_given f moment d) (\<lambda>snapshot.
     let days = window_days days_given p;
         started = cs_started snapshot;
         current = quality_run_filter project started (cs_ended snapshot) True f;
         rows = flaky_rows current d;
         (flaky, flaky_count) = detect_flaky_cases (take MAX_FLAKY_ROWS rows)
     in Inr \<lparr>qa_days = days, qa_snapshot = snapshot,
          qa_slo_status = slo_status_of (qr_pass_rate (cs_runs snapshot)) (p_slo_target p),
          qa_trend = quality_trend started days current d, qa_flaky = flaky, qa_flaky_count = flaky_count,
          qa_flaky_analyzed = min (length rows) MAX_FLAKY_ROWS, qa_flaky_truncated = MAX_FLAKY_ROWS < length rows\<rparr>)))"

subsection \<open>The trend adds up\<close>

lemma count_rows_partition:
  assumes "distinct ks" "\<And>r. r \<in> set rows \<Longrightarrow> P r \<Longrightarrow> f r \<in> set ks"
  shows "count_rows P rows = (\<Sum>k\<leftarrow>ks. count_rows (\<lambda>r. P r \<and> f r = k) rows)"
  using assms(2)
proof (induction rows)
  case Nil
  then show ?case by simp
next
  case (Cons r rows)
  have one: "(\<Sum>k\<leftarrow>ks. if P r \<and> f r = k then 1 else 0 :: int) = (if P r \<and> f r \<in> set ks then 1 else 0)"
    using assms(1) by (induction ks) auto
  have "(\<Sum>k\<leftarrow>ks. count_rows (\<lambda>r. P r \<and> f r = k) (r # rows))
      = (\<Sum>k\<leftarrow>ks. (if P r \<and> f r = k then 1 else 0) + count_rows (\<lambda>r. P r \<and> f r = k) rows)"
    by (simp add: count_rows_Cons)
  also have "\<dots> = (if P r \<and> f r \<in> set ks then 1 else 0) + count_rows P rows"
    using Cons by (simp add: sum_list_addf one)
  finally show ?case using Cons.prems [of r] by (auto simp: count_rows_Cons)
qed

lemma count_rows_map_filter: "count_rows Q (map g (filter P rows)) = count_rows (\<lambda>r. P r \<and> Q (g r)) rows"
  by (induction rows) (simp_all add: count_rows_Cons)

lemma get_count_map: "get_count (count_map xs) s = count_rows (\<lambda>t. t = s) xs"
proof (cases "s \<in> set xs")
  case True
  then have "map_of (count_map xs) s = Some (count_rows (\<lambda>t. t = s) xs)"
    unfolding count_map_def by (subst map_of_map_restrict [unfolded comp_def]) simp_all
  then show ?thesis by (simp add: get_count_def)
next
  case False
  then have "map_of (count_map xs) s = None" "filter (\<lambda>t. t = s) xs = []"
    by (auto simp: count_map_def map_of_eq_None_iff image_iff filter_empty_conv)
  then show ?thesis by (simp add: get_count_def count_rows_def)
qed

lemma total_count_map: "total_count (count_map xs) = count_rows (\<lambda>t. True) xs"
  using count_rows_partition [of "remdups xs" xs "\<lambda>_. True" "\<lambda>t. t"]
  by (simp add: total_count_def count_map_def comp_def)

lemma bucket_in_window:
  assumes "quality_run_filter project (window_start moment days) moment True f r"
  shows "bucket_date r \<in> set (map (\<lambda>k. window_start moment days div day_length + int k) [0 ..< nat days])"
proof -
  from assms obtain t where t: "r_finished_at r = Some t" "window_start moment days \<le> t" "t \<le> moment"
    by (auto simp: quality_run_filter_def completed_within_def split: option.splits)
  have start: "window_start moment days div day_length = moment div day_length - (days - 1)"
    by (simp add: window_start_def day_length_def)
  have "window_start moment days div day_length \<le> t div day_length" "t div day_length \<le> moment div day_length"
    using t(2,3) by (simp_all add: zdiv_mono1 day_length_def)
  with t(1) start show ?thesis
    by (auto simp: bucket_date_def given_or_def image_iff
        intro!: bexI [of _ "nat (t div day_length - window_start moment days div day_length)"])
qed

lemma window_counts:
  "get_count (window_run_counts P d) s = count_rows (\<lambda>r. P r \<and> r_status r = s) (runs d)"
  "total_count (window_run_counts P d) = count_rows P (runs d)"
  by (simp_all add: window_run_counts_def get_count_map total_count_map count_rows_map_filter)

lemma trend_sums:
  fixes moment days project f d
  defines "P \<equiv> quality_run_filter project (window_start moment days) moment True f"
  defines "trend \<equiv> quality_trend (window_start moment days) days P d"
  shows "sum_list (map tp_total trend) = total_count (window_run_counts P d)"
    and "sum_list (map tp_passed trend) = get_count (window_run_counts P d) PASSED"
    and "sum_list (map tp_failed trend) = get_count (window_run_counts P d) FAILED"
    and "sum_list (map tp_canceled trend) = get_count (window_run_counts P d) CANCELED"
    and "sum_list (map tp_timed_out trend) = get_count (window_run_counts P d) TIMED_OUT"
    and "sum_list (map tp_infra_error trend) = get_count (window_run_counts P d) INFRA_ERROR"
proof -
  let ?days = "map (\<lambda>k. window_start moment days div day_length + int k) [0 ..< nat days]"
  have distinct: "distinct ?days" by (simp add: distinct_map inj_on_def)
  have inside: "bucket_date r \<in> set ?days" if "P r" for r
    using bucket_in_window that unfolding P_def .
  have part: "count_rows Q (runs d) = (\<Sum>k\<leftarrow>[0 ..< nat days]. count_rows
      (\<lambda>r. Q r \<and> bucket_date r = window_start moment days div day_length + int k) (runs d))"
    if "\<And>r. Q r \<Longrightarrow> P r" for Q
    using count_rows_partition [OF distinct, of "runs d" Q bucket_date] inside that by (auto simp: comp_def)
  have by_status: "(\<Sum>k\<leftarrow>[0 ..< nat days]. count_rows (\<lambda>r. P r \<and> bucket_date r = window_start moment days div day_length + int k
      \<and> r_status r = st) (runs d)) = count_rows (\<lambda>r. P r \<and> r_status r = st) (runs d)" for st
    by (subst part [of "\<lambda>r. P r \<and> r_status r = st"]) (simp_all add: conj_commute conj_left_commute)
  note defs = trend_def quality_trend_def trend_point_of_def Let_def window_counts comp_def by_status
  show "sum_list (map tp_total trend) = total_count (window_run_counts P d)"
    by (simp add: defs part [of P])
  show "sum_list (map tp_passed trend) = get_count (window_run_counts P d) PASSED"
    "sum_list (map tp_failed trend) = get_count (window_run_counts P d) FAILED"
    "sum_list (map tp_canceled trend) = get_count (window_run_counts P d) CANCELED"
    "sum_list (map tp_timed_out trend) = get_count (window_run_counts P d) TIMED_OUT"
    "sum_list (map tp_infra_error trend) = get_count (window_run_counts P d) INFRA_ERROR"
    by (simp_all add: defs)
qed

lemma get_quality_analytics_Inr:
  assumes "get_quality_analytics project days_given f moment d = Inr a"
  obtains p where "lookup_row p_id project (projects d) = Some p" "qa_days a = window_days days_given p"
    "calculate_quality_comparison p days_given f moment d = Inr (qa_snapshot a)"
    "qa_trend a = quality_trend (cs_started (qa_snapshot a)) (qa_days a)
       (quality_run_filter project (cs_started (qa_snapshot a)) (cs_ended (qa_snapshot a)) True f) d"
proof -
  note call = assms [unfolded get_quality_analytics_def Let_def case_prod_beta]
  from call obtain p where "project_or_404 d project = Inr p"
    and rest: "qa_days a = window_days days_given p"
      "calculate_quality_comparison p days_given f moment d = Inr (qa_snapshot a)"
      "qa_trend a = quality_trend (cs_started (qa_snapshot a)) (qa_days a)
         (quality_run_filter project (cs_started (qa_snapshot a)) (cs_ended (qa_snapshot a)) True f) d"
    by (elim bind_outcome_InrE) auto
  then show thesis by (intro that) (auto simp: project_or_404_def outcome_simps)
qed

lemma calculate_quality_comparison_Inr:
  assumes "calculate_quality_comparison p days_given f moment d = Inr c"
  shows "cs_started c = window_start moment (window_days days_given p)" "cs_ended c = moment"
    "1 \<le> window_days days_given p"
    "cs_runs c = summarize_runs (window_run_counts (quality_run_filter (p_id p) (cs_started c) moment True f) d)"
    "cs_previous_runs c = summarize_runs (window_run_counts
       (quality_run_filter (p_id p) (cs_started c - (moment - cs_started c)) (cs_started c) False f) d)"
  using assms unfolding calculate_quality_comparison_def Let_def by (auto split: if_split_asm)

text \<open>
  The trend adds up.  The points of the daily trend partition the runs of the window: there is
  one point per day of the window, and over all points the total, passed, failed, canceled, timed
  out and failed-by-infrastructure counts add up to the counts of the window's summary, for every
  window, filter and moment; and the previous window is as long as the current one and has no run
  in common with it.
\<close>

theorem trend_adds_up:
  assumes "get_quality_analytics project days_given f moment d = Inr a"
  shows "length (qa_trend a) = nat (qa_days a)
    \<and> sum_list (map tp_total (qa_trend a)) = qr_total (cs_runs (qa_snapshot a))
    \<and> sum_list (map tp_passed (qa_trend a)) = qr_passed (cs_runs (qa_snapshot a))
    \<and> sum_list (map tp_failed (qa_trend a)) = qr_failed (cs_runs (qa_snapshot a))
    \<and> sum_list (map tp_canceled (qa_trend a)) = qr_canceled (cs_runs (qa_snapshot a))
    \<and> sum_list (map tp_timed_out (qa_trend a)) = qr_timed_out (cs_runs (qa_snapshot a))
    \<and> sum_list (map tp_infra_error (qa_trend a)) = qr_infra_error (cs_runs (qa_snapshot a))
    \<and> (\<forall>r. \<not> (quality_run_filter project (cs_started (qa_snapshot a)) (cs_ended (qa_snapshot a)) True f r
         \<and> quality_run_filter project (2 * cs_started (qa_snapshot a) - cs_ended (qa_snapshot a))
             (cs_started (qa_snapshot a)) False f r))"
proof -
  obtain p where p: "lookup_row p_id project (projects d) = Some p" and days: "qa_days a = window_days days_given p"
    and c: "calculate_quality_comparison p days_given f moment d = Inr (qa_snapshot a)"
    and trend: "qa_trend a = quality_trend (cs_started (qa_snapshot a)) (qa_days a)
       (quality_run_filter project (cs_started (qa_snapshot a)) (cs_ended (qa_snapshot a)) True f) d"
    using assms by (rule get_quality_analytics_Inr)
  note w = calculate_quality_comparison_Inr [OF c]
  have id: "p_id p = project" using lookup_row_SomeD [OF p] by simp
  have disjoint: "\<not> (quality_run_filter project s e True f r \<and> quality_run_filter project s0 s False f r)" for s e s0 r
    by (auto simp: quality_run_filter_def completed_within_def split: option.splits)
  have "length (qa_trend a) = nat (qa_days a)" by (simp add: trend quality_trend_def)
  moreover note trend_sums [where moment = moment and days = "qa_days a" and project = project and f = f and d = d]
  ultimately show ?thesis
    using disjoint unfolding trend w(1,2,4) id days
    by (simp add: summarize_runs_def Let_def)
qed

definition demo_quality_db :: db where
  "demo_quality_db = demo_db\<lparr>runs :=
     [(demo_run PASSED)\<lparr>r_finished_at := Some (microseconds 1000)\<rparr>,
      (demo_run FAILED)\<lparr>r_id := 201, r_finished_at := Some (microseconds 90000)\<rparr>]\<rparr>"

theorem trend_adds_up_witness:
  "\<exists>a. get_quality_analytics 10 (Some 7) \<lparr>df_target = None, df_environment = None, df_baseline = None\<rparr>
      (microseconds 100000) demo_quality_db = Inr a
    \<and> length (qa_trend a) = 7 \<and> sum_list (map tp_total (qa_trend a)) = qr_total (cs_runs (qa_snapshot a))
    \<and> qr_total (cs_runs (qa_snapshot a)) = 2"
proof -
  let ?none = "\<lparr>df_target = None, df_environment = None, df_baseline = None\<rparr>"
  let ?call = "get_quality_analytics 10 (Some 7) ?none (microseconds 100000) demo_quality_db"
  have "case calculate_quality_comparison demo_project (Some 7) ?none (microseconds 100000) demo_quality_db of
      Inl _ \<Rightarrow> False | Inr c \<Rightarrow> qr_total (cs_runs c) = 2"
    by code_simp
  then obtain c where c: "calculate_quality_comparison demo_project (Some 7) ?none (microseconds 100000) demo_quality_db = Inr c"
    "qr_total (cs_runs c) = 2"
    by (auto split: sum.splits)
  have "project_or_404 demo_quality_db 10 = Inr demo_project" by code_simp
  then obtain a where a: "?call = Inr a" "qa_snapshot a = c" "qa_days a = 7"
    using c(1) by (simp add: get_quality_analytics_def validate_dimension_filters_def Let_def case_prod_beta window_days_def)
  with trend_adds_up [OF a(1)] c(2) show ?thesis by auto
qed

end
