(* ===== verification/Quality_Webhooks.thy ===== *)
theory Quality_Webhooks
  imports Scenario Run_Emails Python_Text
begin

section \<open>Quality webhooks\<close>

text \<open>
  \<open>quality_webhook_services.py\<close> and the dispatcher of \<open>quality_webhooks.py\<close>: the webhook of a
  project, silences and acknowledgements, test and replayed deliveries, and their bounded retries.
  The sender is an argument: it yields the HTTP status or how it failed.
\<close>

subsection \<open>Destinations\<close>

text \<open>
  \<open>urlsplit\<close> of a URL with an authority, as far as it is used: the host in lower case and the
  port.  The endpoint was validated when it was configured, so its port is a number.
\<close>

definition url_netloc :: "string \<Rightarrow> string" where
  "url_netloc url =
     (let rest = snd (snd (partition_at (CHR '':'') url))
      in if take 2 rest = ''//'' then takeWhile (\<lambda>c. c \<notin> {CHR ''/'', CHR ''?'', CHR ''#''}) (drop 2 rest) else [])"

definition url_hostinfo :: "string \<Rightarrow> string \<times> string option" where
  "url_hostinfo url =
     (let netloc = url_netloc url;
          hostinfo = last (split_on (CHR ''@'') netloc);
          (_, bracketed, tail) = partition_at (CHR ''['') hostinfo
      in if bracketed
         then (let (host, _, rest) = partition_at (CHR '']'') tail; (_, _, port) = partition_at (CHR '':'') rest
               in (host, if port = [] then None else Some port))
         else (let (host, _, port) = partition_at (CHR '':'') hostinfo
               in (host, if port = [] then None else Some port)))"

definition url_hostname :: "string \<Rightarrow> string option" where
  "url_hostname url = (let host = fst (url_hostinfo url) in if host = [] then None else Some (casefold host))"

definition url_port :: "string \<Rightarrow> int option" where
  "url_port url = (case snd (url_hostinfo url) of None \<Rightarrow> None | Some p \<Rightarrow> parse_int p)"

definition endpoint_display :: "string \<Rightarrow> string" where
  "endpoint_display url =
     (let host = given_or (url_hostname url) ''unknown'';
          display_host = (if CHR '':'' \<in> set host then ''['' @ host @ '']'' else host);
          authority = (case url_port url of
            None \<Rightarrow> display_host
          | Some p \<Rightarrow> if p = 443 then display_host else display_host @ '':'' @ decimal (nat p))
      in ''https://'' @ authority @ ''/***'')"

subsection \<open>Configuration\<close>

fun alert_status_value :: "alert_status \<Rightarrow> string" where
  "alert_status_value Alert_NO_DATA = ''NO_DATA''"
| "alert_status_value Alert_STABLE = ''STABLE''"
| "alert_status_value Alert_WARNING = ''WARNING''"
| "alert_status_value Alert_CRITICAL = ''CRITICAL''"

fun alert_metric_value :: "alert_metric \<Rightarrow> string" where
  "alert_metric_value RUN_PASS_RATE = ''RUN_PASS_RATE''"
| "alert_metric_value CASE_PASS_RATE = ''CASE_PASS_RATE''"
| "alert_metric_value EXECUTION_RELIABILITY = ''EXECUTION_RELIABILITY''"

fun webhook_event_value :: "webhook_event \<Rightarrow> string" where
  "webhook_event_value Alert_triggered = ''quality.alert.triggered''"
| "webhook_event_value Alert_escalated = ''quality.alert.escalated''"
| "webhook_event_value Alert_deescalated = ''quality.alert.deescalated''"
| "webhook_event_value Alert_recovered = ''quality.alert.recovered''"
| "webhook_event_value Alert_test = ''quality.alert.test''"

definition webhook_config :: "uuid \<Rightarrow> db \<Rightarrow> webhook_config_row option" where
  "webhook_config project d = lookup_row wc_project project (webhook_configs d)"

text \<open>
  A request: a name and a reference of the signing secret come together, and not with the request
  to clear it.
\<close>

record webhook_update =
  wu_enabled :: "bool option"
  wu_endpoint :: "string option"
  wu_minimum :: "alert_status option"
  wu_cooldown :: "int option"
  wu_secret :: "(string \<times> string) option"
  wu_clear_secret :: bool

definition validate_webhook_update :: "webhook_update \<Rightarrow> service_error + webhook_update" where
  "validate_webhook_update u =
     (if wu_minimum u \<notin> {None, Some Alert_WARNING, Some Alert_CRITICAL} then Inl (Value_error ''minimum_alert_status'')
      else if wu_secret u \<noteq> None \<and> wu_clear_secret u
      then Inl (Value_error ''cannot replace and clear the signing secret together'')
      else if wu_enabled u = None \<and> wu_endpoint u = None \<and> wu_minimum u = None \<and> wu_cooldown u = None
        \<and> wu_secret u = None \<and> \<not> wu_clear_secret u
      then Inl (Value_error ''clear_signing_secret must be true when used alone'')
      else Inr u)"

definition config_details :: "webhook_config_row option \<Rightarrow> json" where
  "config_details c =
     (case c of
        None \<Rightarrow> JObj [(''enabled'', JBool False), (''endpoint_configured'', JBool False),
          (''minimum_alert_status'', JStr ''WARNING''), (''signing_configured'', JBool False), (''silenced_until'', JNull)]
      | Some w \<Rightarrow> JObj [(''enabled'', JBool (wc_enabled w)), (''endpoint_configured'', JBool True),
          (''endpoint_display'', JStr (endpoint_display (wc_endpoint w))),
          (''minimum_alert_status'', JStr (alert_status_value (wc_minimum w))),
          (''cooldown_seconds'', JInt (wc_cooldown w)), (''signing_configured'', JBool (wc_secret_name w \<noteq> None)),
          (''silenced_until'', json_time (wc_silenced_until w))])"

definition new_webhook_config :: "txn \<Rightarrow> uuid \<Rightarrow> string \<Rightarrow> webhook_config_row" where
  "new_webhook_config x project endpoint =
     \<lparr>wc_id = txn_uuid x Draw_row, wc_project = project, wc_enabled = False, wc_endpoint = endpoint,
      wc_minimum = Alert_WARNING, wc_secret_name = None, wc_secret_ref = None, wc_cooldown = 3600,
      wc_last_evaluated_at = None, wc_next_evaluation_at = None, wc_silenced_until = None, wc_silenced_by = None,
      wc_silence_reason = None, wc_created_at = txn_now x\<rparr>"

definition apply_webhook_update :: "webhook_update \<Rightarrow> webhook_config_row \<Rightarrow> webhook_config_row" where
  "apply_webhook_update u w =
     (let w1 = w\<lparr>wc_endpoint := given_or (wu_endpoint u) (wc_endpoint w),
            wc_enabled := given_or (wu_enabled u) (wc_enabled w),
            wc_minimum := given_or (wu_minimum u) (wc_minimum w),
            wc_cooldown := given_or (wu_cooldown u) (wc_cooldown w)\<rparr>
      in if wu_clear_secret u then w1\<lparr>wc_secret_name := None, wc_secret_ref := None\<rparr>
         else case wu_secret u of
           None \<Rightarrow> w1
         | Some (name, ref) \<Rightarrow> w1\<lparr>wc_secret_name := Some name, wc_secret_ref := Some ref\<rparr>)"

definition reschedule_evaluation :: "instant \<Rightarrow> bool \<Rightarrow> webhook_config_row \<Rightarrow> webhook_config_row" where
  "reschedule_evaluation moment activation_changed w =
     (if wc_enabled w
      then (if activation_changed \<or> wc_next_evaluation_at w = None then w\<lparr>wc_next_evaluation_at := Some moment\<rparr> else w)
      else w\<lparr>wc_next_evaluation_at := None\<rparr>)"

definition unacknowledged :: "alert_state_row \<Rightarrow> alert_state_row" where
  "unacknowledged q = q\<lparr>qs_acknowledged_at := None, qs_acknowledged_by := None, qs_note := None\<rparr>"

definition reset_alert_states :: "uuid \<Rightarrow> db \<Rightarrow> db" where
  "reset_alert_states project d =
     d\<lparr>alert_states := update_where (\<lambda>q. qs_project q = project)
         (\<lambda>q. unacknowledged (q\<lparr>qs_active := None, qs_cooldown_until := None\<rparr>)) (alert_states d)\<rparr>"

definition store_webhook_config :: "webhook_config_row \<Rightarrow> db \<Rightarrow> db" where
  "store_webhook_config w d =
     d\<lparr>webhook_configs :=
        (if wc_id w \<in> wc_id ` set (webhook_configs d) then update_row wc_id (wc_id w) (\<lambda>_. w) (webhook_configs d)
         else webhook_configs d @ [w])\<rparr>"

definition update_quality_webhook_config ::
  "txn \<Rightarrow> uuid \<Rightarrow> webhook_update \<Rightarrow> uuid \<Rightarrow> db \<Rightarrow> service_error + db \<times> webhook_config_row" where
  "update_quality_webhook_config x project u actor d =
     bind_outcome (project_or_404 d project) (\<lambda>_.
     let config = webhook_config project d in
     bind_outcome
       (case config of
          Some w \<Rightarrow> Inr w
        | None \<Rightarrow> (case wu_endpoint u of
            None \<Rightarrow> Inl (InvalidRequest ''endpoint_url is required when configuring a quality webhook'')
          | Some url \<Rightarrow> Inr (new_webhook_config x project url)))
       (\<lambda>w.
       let was_enabled = (case config of None \<Rightarrow> False | Some c \<Rightarrow> wc_enabled c);
           was_minimum = (case config of None \<Rightarrow> Alert_WARNING | Some c \<Rightarrow> wc_minimum c);
           w1 = apply_webhook_update u w;
           activation_changed = (was_enabled \<noteq> wc_enabled w1 \<or> was_minimum \<noteq> wc_minimum w1);
           w2 = reschedule_evaluation (txn_now x) activation_changed w1;
           d1 = store_webhook_config w2 d;
           d2 = (if activation_changed then reset_alert_states project d1 else d1);
           d3 = audit x actor ''project.quality_webhook_updated'' ''project_quality_webhook'' (wc_id w2) (Some project)
             [(''before'', config_details config), (''after'', config_details (Some w2))] d2
       in bind_outcome (commit d3) (\<lambda>d4. Inr (d4, w2))))"

subsection \<open>Silences\<close>

definition MAX_QUALITY_ALERT_SILENCE :: int where
  "MAX_QUALITY_ALERT_SILENCE = 30 * day_length"

definition enabled_config :: "uuid \<Rightarrow> string \<Rightarrow> db \<Rightarrow> service_error + webhook_config_row" where
  "enabled_config project message d =
     (case webhook_config project d of
        None \<Rightarrow> Inl (ResourceConflict message)
      | Some w \<Rightarrow> if \<not> wc_enabled w then Inl (ResourceConflict message) else Inr w)"

definition set_quality_alert_silence ::
  "txn \<Rightarrow> uuid \<Rightarrow> instant \<Rightarrow> string \<Rightarrow> uuid \<Rightarrow> db \<Rightarrow> service_error + db \<times> webhook_config_row" where
  "set_quality_alert_silence x project silenced_until reason actor d =
     bind_outcome (project_or_404 d project) (\<lambda>_.
     bind_outcome (enabled_config project ''quality webhook must be configured and enabled before silencing'' d) (\<lambda>w.
     if silenced_until \<le> txn_now x then Inl (InvalidRequest ''quality alert silence must end in the future'')
     else if silenced_until > txn_now x + MAX_QUALITY_ALERT_SILENCE
     then Inl (InvalidRequest ''quality alert silence cannot exceed 30 days'')
     else
     let w' = w\<lparr>wc_silenced_until := Some silenced_until, wc_silenced_by := Some actor,
           wc_silence_reason := Some reason, wc_next_evaluation_at := Some (txn_now x)\<rparr>;
         d1 = audit x actor ''project.quality_alert_silenced'' ''project_quality_webhook'' (wc_id w) (Some project)
           [(''previous_silenced_until'', json_time (wc_silenced_until w)), (''silenced_until'', JTime silenced_until),
            (''reason'', JStr reason)] (store_webhook_config w' d)
     in bind_outcome (commit d1) (\<lambda>d2. Inr (d2, w'))))"

definition clear_quality_alert_silence ::
  "txn \<Rightarrow> uuid \<Rightarrow> uuid \<Rightarrow> db \<Rightarrow> service_error + db \<times> webhook_config_row" where
  "clear_quality_alert_silence x project actor d =
     bind_outcome (project_or_404 d project) (\<lambda>_.
     case webhook_config project d of
       None \<Rightarrow> Inl (ResourceConflict ''quality webhook is not configured'')
     | Some w \<Rightarrow>
         (case wc_silenced_until w of
            None \<Rightarrow> Inr (d, w)
          | Some previous_until \<Rightarrow>
              (let w' = w\<lparr>wc_silenced_until := None, wc_silenced_by := None, wc_silence_reason := None,
                     wc_next_evaluation_at := (if wc_enabled w then Some (txn_now x) else None)\<rparr>;
                   d1 = audit x actor ''project.quality_alert_silence_cleared'' ''project_quality_webhook'' (wc_id w)
                     (Some project) [(''previous_silenced_until'', JTime previous_until)] (store_webhook_config w' d)
               in bind_outcome (commit d1) (\<lambda>d2. Inr (d2, w')))))"

subsection \<open>Test deliveries and replays\<close>

definition new_delivery ::
  "uuid \<Rightarrow> webhook_config_row \<Rightarrow> webhook_event \<Rightarrow> webhook_key \<Rightarrow> (string \<times> json) list \<Rightarrow> instant \<Rightarrow> webhook_delivery_row" where
  "new_delivery i w event key payload moment =
     \<lparr>wd_id = i, wd_project = wc_project w, wd_config = wc_id w, wd_event = event, wd_key = key,
      wd_destination = endpoint_display (wc_endpoint w), wd_payload = payload, wd_status = Delivery_PENDING,
      wd_attempts = 0, wd_available_at = moment, wd_response_status = None, wd_last_error = None,
      wd_replay_of = None, wd_replayed_by = None, wd_replay_reason = None, wd_created_at = moment,
      wd_delivered_at = None\<rparr>"

definition project_payload :: "project_row \<Rightarrow> json" where
  "project_payload p = JObj [(''id'', JId (p_id p)), (''key'', JStr (p_key p)), (''name'', JStr (p_name p))]"

definition test_payload :: "uuid \<Rightarrow> project_row \<Rightarrow> instant \<Rightarrow> (string \<times> json) list" where
  "test_payload i p moment =
     [(''schema_version'', JStr ''1.0''), (''event_id'', JId i), (''event_type'', JStr ''quality.alert.test''),
      (''occurred_at'', JTime moment), (''project'', project_payload p),
      (''alert'', JObj [(''status'', JStr ''TEST''), (''message'', JStr ''TestOps Platform quality Webhook test delivery'')])]"

definition enqueue_quality_webhook_test ::
  "txn \<Rightarrow> uuid \<Rightarrow> uuid \<Rightarrow> db \<Rightarrow> service_error + db \<times> webhook_delivery_row" where
  "enqueue_quality_webhook_test x project actor d =
     bind_outcome (project_or_404 d project) (\<lambda>p.
     bind_outcome (enabled_config project ''quality webhook must be configured and enabled before testing'' d) (\<lambda>w.
     let i = txn_uuid x Draw_row;
         v = new_delivery i w Alert_test (Key_webhook_test i) (test_payload i p (txn_now x)) (txn_now x);
         d1 = audit x actor ''project.quality_webhook_test_queued'' ''quality_webhook_delivery'' i (Some project)
           [(''event_type'', JStr (webhook_event_value (wd_event v))), (''destination_display'', JStr (wd_destination v))]
           (d\<lparr>webhook_deliveries := webhook_deliveries d @ [v]\<rparr>)
     in bind_outcome (commit d1) (\<lambda>d2. Inr (d2, v))))"

definition replay_failed_quality_webhook_delivery ::
  "txn \<Rightarrow> uuid \<Rightarrow> uuid \<Rightarrow> string \<Rightarrow> uuid \<Rightarrow> db \<Rightarrow> service_error + db \<times> webhook_delivery_row" where
  "replay_failed_quality_webhook_delivery x project i reason actor d =
     bind_outcome (project_or_404 d project) (\<lambda>_.
     bind_outcome (require_row (ResourceNotFound ''quality webhook delivery not found'')
       (find (\<lambda>v. wd_id v = i \<and> wd_project v = project) (webhook_deliveries d))) (\<lambda>source.
     if wd_status source \<noteq> Delivery_FAILED
     then Inl (ResourceConflict ''only a failed quality webhook delivery can be replayed'')
     else if (\<exists>v\<in>set (webhook_deliveries d). wd_replay_of v = Some (wd_id source))
     then Inl (ResourceConflict ''quality webhook delivery has already been replayed'')
     else
     bind_outcome (enabled_config project ''quality webhook must be configured and enabled before replaying'' d) (\<lambda>w.
     let v = (new_delivery (txn_uuid x Draw_row) w (wd_event source) (Key_webhook_replay (wd_id source))
           (wd_payload source) (txn_now x))
           \<lparr>wd_replay_of := Some (wd_id source), wd_replayed_by := Some actor, wd_replay_reason := Some reason\<rparr>;
         d1 = audit x actor ''project.quality_webhook_delivery_replayed'' ''quality_webhook_delivery'' (wd_id v) (Some project)
           [(''source_delivery_id'', JId (wd_id source)), (''event_type'', JStr (webhook_event_value (wd_event source))),
            (''source_attempts'', JInt (int (wd_attempts source))),
            (''source_response_status'', (case wd_response_status source of None \<Rightarrow> JNull | Some n \<Rightarrow> JInt n)),
            (''destination_display'', JStr (wd_destination v)), (''reason'', JStr reason)]
           (d\<lparr>webhook_deliveries := webhook_deliveries d @ [v]\<rparr>)
     in bind_outcome (commit d1) (\<lambda>d2. Inr (d2, v)))))"

subsection \<open>Acknowledgements\<close>

definition alert_state :: "uuid \<Rightarrow> alert_metric \<Rightarrow> db \<Rightarrow> service_error + alert_state_row" where
  "alert_state project metric d =
     require_row (ResourceNotFound ''quality alert state not found'')
       (find (\<lambda>q. qs_project q = project \<and> qs_metric q = metric) (alert_states d))"

definition store_alert_state :: "alert_state_row \<Rightarrow> db \<Rightarrow> db" where
  "store_alert_state q d =
     d\<lparr>alert_states := update_row (\<lambda>r. (qs_project r, qs_metric r)) (qs_project q, qs_metric q) (\<lambda>_. q) (alert_states d)\<rparr>"

definition acknowledge_quality_alert ::
  "txn \<Rightarrow> uuid \<Rightarrow> alert_metric \<Rightarrow> string \<Rightarrow> uuid \<Rightarrow> db \<Rightarrow> service_error + db \<times> alert_state_row" where
  "acknowledge_quality_alert x project metric note_text actor d =
     bind_outcome (project_or_404 d project) (\<lambda>_.
     bind_outcome (alert_state project metric d) (\<lambda>q.
     if qs_status q \<notin> {Alert_WARNING, Alert_CRITICAL}
     then Inl (ResourceConflict ''only an active quality alert can be acknowledged'')
     else
     let q' = q\<lparr>qs_acknowledged_at := Some (txn_now x), qs_acknowledged_by := Some actor, qs_note := Some note_text\<rparr>;
         d1 = audit x actor ''project.quality_alert_acknowledged'' ''quality_alert_state'' (qs_id q) (Some project)
           [(''metric'', JStr (alert_metric_value metric)), (''status'', JStr (alert_status_value (qs_status q))),
            (''note'', JStr note_text), (''signal_fingerprint'', JStr (qs_fingerprint q))] (store_alert_state q' d)
     in bind_outcome (commit d1) (\<lambda>d2. Inr (d2, q'))))"

definition clear_quality_alert_acknowledgement ::
  "txn \<Rightarrow> uuid \<Rightarrow> alert_metric \<Rightarrow> uuid \<Rightarrow> db \<Rightarrow> service_error + db \<times> alert_state_row" where
  "clear_quality_alert_acknowledgement x project metric actor d =
     bind_outcome (project_or_404 d project) (\<lambda>_.
     bind_outcome (alert_state project metric d) (\<lambda>q.
       case qs_acknowledged_at q of
         None \<Rightarrow> Inr (d, q)
       | Some previous \<Rightarrow>
           (let q' = unacknowledged q;
                d1 = audit x actor ''project.quality_alert_acknowledgement_cleared'' ''quality_alert_state'' (qs_id q)
                  (Some project) [(''metric'', JStr (alert_metric_value metric)),
                    (''status'', JStr (alert_status_value (qs_status q))), (''previous_acknowledged_at'', JTime previous)]
                  (store_alert_state q' d)
            in bind_outcome (commit d1) (\<lambda>d2. Inr (d2, q')))))"

subsection \<open>Sending the deliveries\<close>

text \<open>
  What \<open>sender.send\<close> does: it returns the HTTP status, raises \<open>WebhookDeliveryError\<close> or its
  permanent form with a message, or any other exception, known by the name of its type.
\<close>

datatype send_outcome = Responded int | Delivery_error string | Permanent_error string | Unexpected_error string

datatype delivery_verdict = Verdict_delivered | Verdict_retrying | Verdict_failed

definition is_retryable_status :: "int \<Rightarrow> bool" where
  "is_retryable_status code \<longleftrightarrow> code \<in> {408, 425, 429} \<or> code \<ge> 500"

definition retry_at :: "instant \<Rightarrow> nat \<Rightarrow> instant" where
  "retry_at moment attempts = moment + microseconds (min 300 (2 ^ min attempts 8))"

definition give_up :: "string \<Rightarrow> webhook_delivery_row \<Rightarrow> webhook_delivery_row" where
  "give_up message v = v\<lparr>wd_status := Delivery_FAILED, wd_last_error := Some message\<rparr>"

definition retry_or_give_up ::
  "nat \<Rightarrow> instant \<Rightarrow> bool \<Rightarrow> string \<Rightarrow> webhook_delivery_row \<Rightarrow> webhook_delivery_row \<times> delivery_verdict" where
  "retry_or_give_up max_attempts moment retryable message v =
     (if retryable \<and> wd_attempts v < max_attempts
      then (v\<lparr>wd_last_error := Some message, wd_available_at := retry_at moment (wd_attempts v)\<rparr>, Verdict_retrying)
      else (give_up message v, Verdict_failed))"

definition settle_response ::
  "nat \<Rightarrow> instant \<Rightarrow> int \<Rightarrow> webhook_delivery_row \<Rightarrow> webhook_delivery_row \<times> delivery_verdict" where
  "settle_response max_attempts moment code v =
     (let v1 = v\<lparr>wd_response_status := Some code\<rparr> in
      if 200 \<le> code \<and> code < 300
      then (v1\<lparr>wd_status := Delivery_DELIVERED, wd_delivered_at := Some moment, wd_last_error := None\<rparr>, Verdict_delivered)
      else retry_or_give_up max_attempts moment (is_retryable_status code)
        (''Webhook endpoint returned HTTP '' @ decimal (nat code)) v1)"

definition settle_delivery ::
  "(webhook_config_row \<Rightarrow> webhook_delivery_row \<Rightarrow> send_outcome) \<Rightarrow> nat \<Rightarrow> instant \<Rightarrow> webhook_config_row list
   \<Rightarrow> webhook_delivery_row \<Rightarrow> webhook_delivery_row \<times> delivery_verdict" where
  "settle_delivery send max_attempts moment configs v0 =
     (let v = v0\<lparr>wd_attempts := wd_attempts v0 + 1\<rparr>;
          missing = (give_up ''Webhook configuration is missing or disabled'' v, Verdict_failed) in
      case lookup_row wc_id (wd_config v) configs of
        None \<Rightarrow> missing
      | Some w \<Rightarrow>
          if \<not> wc_enabled w then missing
          else case send w v of
            Permanent_error m \<Rightarrow> (give_up (take 500 m) v, Verdict_failed)
          | Delivery_error m \<Rightarrow> retry_or_give_up max_attempts moment True (take 500 m) v
          | Unexpected_error name \<Rightarrow> retry_or_give_up max_attempts moment True
              (''Unexpected Webhook sender error ('' @ name @ '')'') v
          | Responded code \<Rightarrow> settle_response max_attempts moment code v)"

record webhook_summary =
  ws_selected :: nat
  ws_delivered :: nat
  ws_retrying :: nat
  ws_failed :: nat

definition count_verdict :: "delivery_verdict \<Rightarrow> webhook_summary \<Rightarrow> webhook_summary" where
  "count_verdict v t =
     (let t1 = t\<lparr>ws_selected := ws_selected t + 1\<rparr> in
      case v of
        Verdict_delivered \<Rightarrow> t1\<lparr>ws_delivered := ws_delivered t + 1\<rparr>
      | Verdict_retrying \<Rightarrow> t1\<lparr>ws_retrying := ws_retrying t + 1\<rparr>
      | Verdict_failed \<Rightarrow> t1\<lparr>ws_failed := ws_failed t + 1\<rparr>)"

fun send_each ::
  "(webhook_config_row \<Rightarrow> webhook_delivery_row \<Rightarrow> send_outcome) \<Rightarrow> nat \<Rightarrow> instant \<Rightarrow> webhook_delivery_row list
   \<Rightarrow> db \<times> webhook_summary \<Rightarrow> db \<times> webhook_summary" where
  "send_each send max_attempts moment [] acc = acc"
| "send_each send max_attempts moment (v # vs) (d, t) =
     (let (v', verdict) = settle_delivery send max_attempts moment (webhook_configs d) v in
      send_each send max_attempts moment vs
        (d\<lparr>webhook_deliveries := update_row wd_key (wd_key v) (\<lambda>_. v') (webhook_deliveries d)\<rparr>, count_verdict verdict t))"

definition due_delivery :: "instant \<Rightarrow> webhook_delivery_row \<Rightarrow> bool" where
  "due_delivery moment v \<longleftrightarrow> wd_status v = Delivery_PENDING \<and> wd_available_at v \<le> moment"

definition due_deliveries :: "(webhook_key \<Rightarrow> bool) \<Rightarrow> nat \<Rightarrow> instant \<Rightarrow> db \<Rightarrow> webhook_delivery_row list" where
  "due_deliveries busy limit moment d =
     take limit (sort_key wd_created_at (filter (\<lambda>v. due_delivery moment v \<and> \<not> busy (wd_key v)) (webhook_deliveries d)))"

definition dispatch_quality_webhook_batch ::
  "(webhook_config_row \<Rightarrow> webhook_delivery_row \<Rightarrow> send_outcome) \<Rightarrow> (webhook_key \<Rightarrow> bool) \<Rightarrow> nat \<Rightarrow> nat \<Rightarrow> instant \<Rightarrow> db
   \<Rightarrow> service_error + db \<times> webhook_summary" where
  "dispatch_quality_webhook_batch send busy limit max_attempts moment d =
     (if \<not> (1 \<le> limit \<and> limit \<le> 500) then Inl (Value_error ''Webhook dispatch limit must be between 1 and 500'')
      else if \<not> (1 \<le> max_attempts \<and> max_attempts \<le> 20)
      then Inl (Value_error ''Webhook maximum attempts must be between 1 and 20'')
      else
      let (d1, t) = send_each send max_attempts moment (due_deliveries busy limit moment d)
            (d, \<lparr>ws_selected = 0, ws_delivered = 0, ws_retrying = 0, ws_failed = 0\<rparr>)
      in bind_outcome (commit d1) (\<lambda>d2. Inr (d2, t)))"

subsection \<open>Retries are bounded\<close>

text \<open>What one attempt does to a delivery.\<close>

definition same_delivery :: "webhook_delivery_row \<Rightarrow> webhook_delivery_row \<Rightarrow> bool" where
  "same_delivery v v' \<longleftrightarrow> wd_id v' = wd_id v \<and> wd_project v' = wd_project v \<and> wd_config v' = wd_config v
     \<and> wd_event v' = wd_event v \<and> wd_key v' = wd_key v \<and> wd_destination v' = wd_destination v
     \<and> wd_payload v' = wd_payload v \<and> wd_replay_of v' = wd_replay_of v \<and> wd_replayed_by v' = wd_replayed_by v
     \<and> wd_replay_reason v' = wd_replay_reason v \<and> wd_created_at v' = wd_created_at v"

definition delivery_attempted :: "nat \<Rightarrow> instant \<Rightarrow> webhook_delivery_row \<Rightarrow> webhook_delivery_row \<Rightarrow> bool" where
  "delivery_attempted max_attempts moment v v' \<longleftrightarrow>
     same_delivery v v' \<and> wd_attempts v' = wd_attempts v + 1
     \<and> (wd_status v' = Delivery_DELIVERED \<and> wd_delivered_at v' = Some moment
            \<and> (\<exists>code. wd_response_status v' = Some code \<and> 200 \<le> code \<and> code < 300)
        \<or> wd_status v' = Delivery_FAILED \<and> wd_last_error v' \<noteq> None \<and> wd_delivered_at v' = wd_delivered_at v
        \<or> wd_status v' = wd_status v \<and> wd_delivered_at v' = wd_delivered_at v \<and> wd_attempts v' < max_attempts
            \<and> moment + microseconds 2 \<le> wd_available_at v' \<and> wd_available_at v' \<le> moment + microseconds 256)"

lemma retry_delay: "1 \<le> n \<Longrightarrow> moment + microseconds 2 \<le> retry_at moment n \<and> retry_at moment n \<le> moment + microseconds 256"
proof -
  assume "1 \<le> n"
  then have "(2 :: int) ^ 1 \<le> 2 ^ min n 8" "(2 :: int) ^ min n 8 \<le> 2 ^ 8"
    by (intro power_increasing; simp)+
  then show ?thesis by (simp add: retry_at_def microseconds_def)
qed

lemma settle_delivery_attempted:
  "delivery_attempted max_attempts moment v (fst (settle_delivery send max_attempts moment configs v))"
proof -
  have retry: "delivery_attempted max_attempts moment v
      (fst (retry_or_give_up max_attempts moment retryable message (v\<lparr>wd_attempts := wd_attempts v + 1, wd_response_status := c\<rparr>)))"
    for retryable message c
    using retry_delay [of "wd_attempts v + 1" moment]
    by (auto simp: delivery_attempted_def same_delivery_def retry_or_give_up_def give_up_def)
  note retry' = retry [where c = "wd_response_status v", simplified]
  show ?thesis
    using retry' retry
    by (auto simp: settle_delivery_def Let_def settle_response_def give_up_def
        split: option.split send_outcome.split)
      (auto simp: delivery_attempted_def same_delivery_def)
qed

lemma settle_delivery_key [simp]:
  "wd_key (fst (settle_delivery send max_attempts moment configs v)) = wd_key v"
  using settle_delivery_attempted [of max_attempts moment v send configs] by (simp add: delivery_attempted_def same_delivery_def)

text \<open>A batch as one update of the table: every selected delivery is settled, the others stay.\<close>

lemma send_each_deliveries:
  assumes "distinct (map wd_key vs)"
  shows "fst (send_each send max_attempts moment vs (d, t)) = d\<lparr>webhook_deliveries :=
    map (\<lambda>v. case lookup_row wd_key (wd_key v) vs of
        None \<Rightarrow> v | Some u \<Rightarrow> fst (settle_delivery send max_attempts moment (webhook_configs d) u))
      (webhook_deliveries d)\<rparr>"
  using assms
proof (induction vs arbitrary: d t)
  case (Cons u us)
  let ?settle = "\<lambda>v. fst (settle_delivery send max_attempts moment (webhook_configs d) v)"
  have "lookup_row wd_key (wd_key u) us = None" using Cons.prems by (auto simp: lookup_row_None_iff)
  then have "map (\<lambda>v. case lookup_row wd_key (wd_key v) us of None \<Rightarrow> v | Some w \<Rightarrow> ?settle w)
        (update_row wd_key (wd_key u) (\<lambda>_. ?settle u) (webhook_deliveries d))
      = map (\<lambda>v. case lookup_row wd_key (wd_key v) (u # us) of None \<Rightarrow> v | Some w \<Rightarrow> ?settle w) (webhook_deliveries d)"
    by (simp add: update_row_def update_where_def lookup_row_Cons)
  moreover have "distinct (map wd_key us)" using Cons.prems by simp
  ultimately show ?case by (simp add: case_prod_beta Cons.IH cong: option.case_cong)
qed simp

lemma send_each_counts:
  "ws_selected (snd (send_each send max_attempts moment vs (d, t))) = ws_selected t + length vs"
  "ws_delivered t + ws_retrying t + ws_failed t = ws_selected t \<Longrightarrow>
    (let t' = snd (send_each send max_attempts moment vs (d, t))
     in ws_delivered t' + ws_retrying t' + ws_failed t' = ws_selected t')"
proof (induction vs arbitrary: d t)
  case (Cons v vs)
  case 1
  show ?case
    by (cases "snd (settle_delivery send max_attempts moment (webhook_configs d) v)")
      (simp_all add: case_prod_beta Cons.IH(1) count_verdict_def)
  case 2
  then show ?case
    by (cases "snd (settle_delivery send max_attempts moment (webhook_configs d) v)")
      (simp_all add: case_prod_beta Cons.IH(2) count_verdict_def)
qed simp_all

lemma due_deliveries_set:
  "v \<in> set (due_deliveries busy limit moment d) \<Longrightarrow> v \<in> set (webhook_deliveries d) \<and> due_delivery moment v \<and> \<not> busy (wd_key v)"
  unfolding due_deliveries_def by (auto dest: in_set_takeD)

lemma due_deliveries_distinct:
  assumes "unique_ok d"
  shows "distinct (map wd_key (due_deliveries busy limit moment d))"
proof -
  have "distinct (map wd_key (webhook_deliveries d))"
    using assms by (simp add: unique_ok_def unique_quality_def unique_on_def)
  then have "distinct (map wd_key (filter P (webhook_deliveries d)))" for P by (rule distinct_map_filter)
  then have "distinct (map wd_key (sort_key wd_created_at (filter P (webhook_deliveries d))))" for P
    by (simp add: distinct_map)
  then show ?thesis unfolding due_deliveries_def by (simp only: distinct_take flip: take_map)
qed

lemma dispatch_quality_webhook_batch_Inr:
  assumes "dispatch_quality_webhook_batch send busy limit max_attempts moment d = Inr (d', t)"
  shows "unique_ok d'" "1 \<le> limit" "1 \<le> max_attempts"
    "(d', t) = send_each send max_attempts moment (due_deliveries busy limit moment d)
       (d, \<lparr>ws_selected = 0, ws_delivered = 0, ws_retrying = 0, ws_failed = 0\<rparr>)"
  using assms unfolding dispatch_quality_webhook_batch_def Let_def
  by (auto simp: case_prod_beta outcome_simps prod_eq_iff split: if_split_asm)

lemma dispatch_batch_rows:
  assumes "dispatch_quality_webhook_batch send busy limit max_attempts moment d = Inr (d', t)" and "unique_ok d"
  shows "d' = d\<lparr>webhook_deliveries := map (\<lambda>v. if v \<in> set (due_deliveries busy limit moment d)
      then fst (settle_delivery send max_attempts moment (webhook_configs d) v) else v) (webhook_deliveries d)\<rparr>"
proof -
  let ?vs = "due_deliveries busy limit moment d"
  have unique: "unique_on wd_key (webhook_deliveries d)" using assms(2) by (simp add: unique_ok_def unique_quality_def)
  have "lookup_row wd_key (wd_key v) ?vs = (if v \<in> set ?vs then Some v else None)" if "v \<in> set (webhook_deliveries d)" for v
  proof (cases "v \<in> set ?vs")
    case True
    with lookup_row_unique [OF due_deliveries_distinct [OF assms(2)]] show ?thesis by simp
  next
    case False
    moreover have "wd_key v \<notin> wd_key ` set ?vs"
    proof
      assume "wd_key v \<in> wd_key ` set ?vs"
      then obtain u where "u \<in> set ?vs" "wd_key v = wd_key u" by auto
      with unique_on_eq [OF unique that, of u] due_deliveries_set [of u] False show False by auto
    qed
    ultimately show ?thesis by (simp add: lookup_row_None_iff)
  qed
  then have "map (\<lambda>v. case lookup_row wd_key (wd_key v) ?vs of None \<Rightarrow> v
        | Some u \<Rightarrow> fst (settle_delivery send max_attempts moment (webhook_configs d) u)) (webhook_deliveries d)
      = map (\<lambda>v. if v \<in> set ?vs then fst (settle_delivery send max_attempts moment (webhook_configs d) v) else v)
        (webhook_deliveries d)"
    by (intro map_cong) auto
  moreover have "d' = fst (send_each send max_attempts moment ?vs
      (d, \<lparr>ws_selected = 0, ws_delivered = 0, ws_retrying = 0, ws_failed = 0\<rparr>))"
    using dispatch_quality_webhook_batch_Inr(4) [OF assms(1)] by (metis fst_conv)
  ultimately show ?thesis by (simp add: send_each_deliveries due_deliveries_distinct [OF assms(2)])
qed

lemma dispatch_batch_steps:
  assumes "dispatch_quality_webhook_batch send busy limit max_attempts moment d = Inr (d', t)" and "unique_ok d"
  shows "d' = d\<lparr>webhook_deliveries := webhook_deliveries d'\<rparr>"
    and "list_all2 (\<lambda>v v'. v' = v \<or> due_delivery moment v \<and> delivery_attempted max_attempts moment v v')
      (webhook_deliveries d) (webhook_deliveries d')"
proof -
  note d' = dispatch_batch_rows [OF assms]
  show "d' = d\<lparr>webhook_deliveries := webhook_deliveries d'\<rparr>" by (simp add: d')
  show "list_all2 (\<lambda>v v'. v' = v \<or> due_delivery moment v \<and> delivery_attempted max_attempts moment v v')
      (webhook_deliveries d) (webhook_deliveries d')"
    unfolding d' using due_deliveries_set settle_delivery_attempted
    by (fastforce simp: list_all2_map2 intro: list.rel_refl_strong)
qed

text \<open>
  The attempts a table of deliveries can still see: none for a finished delivery, and for a pending
  one the attempts left, or the one that will give it up.
\<close>

definition attempts_left :: "nat \<Rightarrow> webhook_delivery_row list \<Rightarrow> nat" where
  "attempts_left max_attempts vs =
     sum_list (map (\<lambda>v. if wd_status v = Delivery_PENDING then max 1 (max_attempts - wd_attempts v) else 0) vs)"

lemma attempts_left_batch:
  assumes "\<And>v. v \<in> set vs \<Longrightarrow> sent v \<Longrightarrow> wd_status v = Delivery_PENDING \<and> delivery_attempted max_attempts moment v (g v)"
  shows "attempts_left max_attempts (map (\<lambda>v. if sent v then g v else v) vs) + length (filter sent vs)
    \<le> attempts_left max_attempts vs"
  using assms
proof (induction vs)
  case (Cons v vs)
  then have IH: "attempts_left max_attempts (map (\<lambda>v. if sent v then g v else v) vs) + length (filter sent vs)
      \<le> attempts_left max_attempts vs" by simp
  show ?case
  proof (cases "sent v")
    case True
    with Cons.prems have "wd_status v = Delivery_PENDING" "delivery_attempted max_attempts moment v (g v)" by simp_all
    then show ?thesis using True IH by (auto simp: attempts_left_def delivery_attempted_def)
  qed (use IH in \<open>simp add: attempts_left_def\<close>)
qed (simp add: attempts_left_def)

lemma due_deliveries_length:
  assumes "unique_ok d"
  shows "length (due_deliveries busy limit moment d)
    = length (filter (\<lambda>v. v \<in> set (due_deliveries busy limit moment d)) (webhook_deliveries d))"
proof -
  let ?vs = "due_deliveries busy limit moment d"
  have "distinct ?vs" using due_deliveries_distinct [OF assms] by (simp add: distinct_map)
  moreover have "distinct (filter (\<lambda>v. v \<in> set ?vs) (webhook_deliveries d))"
    using assms by (simp add: unique_ok_def unique_quality_def unique_on_def distinct_map)
  moreover have "set ?vs = set (filter (\<lambda>v. v \<in> set ?vs) (webhook_deliveries d))"
    using due_deliveries_set by auto
  ultimately show ?thesis by (metis distinct_card)
qed

text \<open>
  C38: webhook deliveries are attempted a bounded number of times.  A batch of the dispatcher changes
  only the deliveries that were pending and due: each is attempted once and ends delivered, failed,
  or pending for between 2 and 256 seconds with fewer attempts than the maximum; finished
  deliveries and every other table stay.  Every attempt uses up one of the attempts the table has
  left, and a batch makes one when a free delivery is due, so after finitely many batches
  nothing is pending, whatever the endpoints answer.
\<close>

theorem webhook_retries_end:
  assumes "dispatch_quality_webhook_batch send busy limit max_attempts moment d = Inr (d', t)" and "unique_ok d"
  shows "d' = d\<lparr>webhook_deliveries := webhook_deliveries d'\<rparr>
    \<and> list_all2 (\<lambda>v v'. v' = v \<or> due_delivery moment v \<and> delivery_attempted max_attempts moment v v')
        (webhook_deliveries d) (webhook_deliveries d')
    \<and> attempts_left max_attempts (webhook_deliveries d') + ws_selected t \<le> attempts_left max_attempts (webhook_deliveries d)
    \<and> (0 < ws_selected t \<longleftrightarrow> (\<exists>v\<in>set (webhook_deliveries d). due_delivery moment v \<and> \<not> busy (wd_key v)))
    \<and> ws_delivered t + ws_retrying t + ws_failed t = ws_selected t"
proof -
  let ?vs = "due_deliveries busy limit moment d"
  note call = dispatch_quality_webhook_batch_Inr [OF assms(1)]
  note d' = dispatch_batch_rows [OF assms]
  have t: "ws_selected t = length ?vs" "ws_delivered t + ws_retrying t + ws_failed t = ws_selected t"
    using send_each_counts [where send = send and max_attempts = max_attempts and moment = moment and vs = ?vs and d = d
        and t = "\<lparr>ws_selected = 0, ws_delivered = 0, ws_retrying = 0, ws_failed = 0\<rparr>"]
    by (simp_all add: call(4) [symmetric] Let_def)
  have left: "attempts_left max_attempts (webhook_deliveries d') + ws_selected t
      \<le> attempts_left max_attempts (webhook_deliveries d)"
    unfolding t(1) due_deliveries_length [OF assms(2), of busy limit moment]
    using due_deliveries_set [of _ busy limit moment d]
    by (simp add: d') (rule attempts_left_batch [where moment = moment], auto simp: due_delivery_def settle_delivery_attempted)
  have "0 < ws_selected t \<longleftrightarrow> filter (\<lambda>v. due_delivery moment v \<and> \<not> busy (wd_key v)) (webhook_deliveries d) \<noteq> []"
    using call(2) by (simp add: t(1) due_deliveries_def)
  then show ?thesis using dispatch_batch_steps [OF assms] left t(2) by (auto simp: filter_empty_conv)
qed

definition demo_webhook_db :: db where
  "demo_webhook_db = demo_db\<lparr>
     webhook_configs := [(new_webhook_config (demo_txn 1000 500) 10 ''https://hooks.example.com/x'')\<lparr>wc_enabled := True\<rparr>],
     webhook_deliveries := [new_delivery 600 (new_webhook_config (demo_txn 1000 500) 10 ''https://hooks.example.com/x'')
       Alert_test (Key_webhook_test 600) [] (microseconds 1000)]\<rparr>"

theorem webhook_retries_end_witness:
  "\<exists>d' t. dispatch_quality_webhook_batch (\<lambda>_ _. Responded 503) (\<lambda>_. False) 50 5 (microseconds 1001) demo_webhook_db = Inr (d', t)
     \<and> ws_selected t = 1 \<and> ws_retrying t = 1
     \<and> attempts_left 5 (webhook_deliveries d') + 1 \<le> attempts_left 5 (webhook_deliveries demo_webhook_db)"
proof -
  let ?call = "dispatch_quality_webhook_batch (\<lambda>_ _. Responded 503) (\<lambda>_. False) 50 5 (microseconds 1001) demo_webhook_db"
  have "case ?call of Inl _ \<Rightarrow> False | Inr (d', t) \<Rightarrow> ws_selected t = 1 \<and> ws_retrying t = 1" by code_simp
  then obtain d' t where call: "?call = Inr (d', t)" and t: "ws_selected t = 1" "ws_retrying t = 1"
    by (auto split: sum.splits)
  have "unique_ok demo_webhook_db" by code_simp
  with webhook_retries_end [OF call] call t show ?thesis by auto
qed

end
