(* ===== verification/Quality_Alerts.thy ===== *)
theory Quality_Alerts
  imports Quality_Analytics Quality_Webhooks
begin

section \<open>Quality alerts\<close>

text \<open>
  \<open>quality_alert_services.py\<close>: the evaluation of the projects whose webhook is due, and the deliveries
  it queues; and the numbers of \<open>quality_operations_services.py\<close>.  The alert of a metric is a small
  machine: nothing was notified, or a warning or a critical drop was.
\<close>

subsection \<open>Deciding on a signal\<close>

record alert_decision =
  ad_event :: "webhook_event option"
  ad_active :: "alert_status option"
  ad_reason :: string

definition decision :: "webhook_event option \<Rightarrow> alert_status option \<Rightarrow> string \<Rightarrow> alert_decision" where
  "decision event active reason = \<lparr>ad_event = event, ad_active = active, ad_reason = reason\<rparr>"

definition decide_quality_alert_event ::
  "alert_status \<Rightarrow> alert_status option \<Rightarrow> alert_status \<Rightarrow> instant option \<Rightarrow> instant \<Rightarrow> alert_decision" where
  "decide_quality_alert_event current active minimum cooldown_until moment =
     (if current = Alert_NO_DATA then decision None active ''insufficient_data''
      else case active of
        Some a \<Rightarrow>
          if current = Alert_STABLE then decision (Some Alert_recovered) None ''signal_recovered''
          else if alert_rank current > alert_rank a
          then decision (Some Alert_escalated) (Some current) ''severity_increased''
          else if alert_rank current < alert_rank a
          then decision (Some Alert_deescalated)
            (if alert_rank current \<ge> alert_rank minimum then Some current else None) ''severity_decreased''
          else decision None active ''active_state_unchanged''
      | None \<Rightarrow>
          if alert_rank current < alert_rank minimum then decision None None ''below_minimum_severity''
          else if (case cooldown_until of None \<Rightarrow> False | Some t \<Rightarrow> t > moment)
          then decision None None ''cooldown_active''
          else decision (Some Alert_triggered) (Some current) ''qualifying_signal'')"

subsection \<open>Evaluating a project\<close>

definition signal_fingerprint :: "txn \<Rightarrow> uuid \<Rightarrow> quality_signal \<Rightarrow> comparison_snapshot \<Rightarrow> digest" where
  "signal_fingerprint x project sg c =
     txn_digest x (Hash_signal
       \<lparr>sd_project = project, sd_metric = sg_metric sg, sd_status = sg_status sg, sd_current = sg_current sg,
        sd_previous = sg_previous sg, sd_delta = sg_delta sg, sd_latest = cs_latest c,
        sd_counts = [qr_total (cs_runs c), qr_total (cs_previous_runs c), qc_total (cs_cases c),
          qc_total (cs_previous_cases c)]\<rparr>)"

definition json_percent :: "percent option \<Rightarrow> json" where
  "json_percent p = (case p of None \<Rightarrow> JNull | Some n \<Rightarrow> JPercent n)"

definition delivery_payload ::
  "uuid \<Rightarrow> webhook_event \<Rightarrow> project_row \<Rightarrow> quality_signal \<Rightarrow> alert_status \<Rightarrow> alert_decision \<Rightarrow> comparison_snapshot
   \<Rightarrow> instant \<Rightarrow> (string \<times> json) list" where
  "delivery_payload i event p sg previous_status dec c moment =
     (let w = cs_comparison c in
      [(''schema_version'', JStr ''1.0''), (''event_id'', JId i), (''event_type'', JStr (webhook_event_value event)),
       (''occurred_at'', JTime moment), (''project'', project_payload p),
       (''alert'', JObj [(''metric'', JStr (alert_metric_value (sg_metric sg))),
          (''status'', JStr (alert_status_value (sg_status sg))),
          (''previous_status'', JStr (alert_status_value previous_status)),
          (''current_percent'', json_percent (sg_current sg)), (''previous_percent'', json_percent (sg_previous sg)),
          (''delta_percentage_points'', json_percent (sg_delta sg)), (''reason'', JStr (ad_reason dec))]),
       (''window'', JObj [(''current_started_at'', JTime (cs_started c)), (''current_ended_at'', JTime (cs_ended c)),
          (''previous_started_at'', JTime (cmp_previous_started w)), (''previous_ended_at'', JTime (cmp_previous_ended w)),
          (''warning_drop_percentage_points'', JInt (cmp_warning_drop w)),
          (''critical_drop_percentage_points'', JInt (cmp_critical_drop w)),
          (''latest_completed_at'', json_time (cs_latest c))])])"

definition find_alert_state :: "uuid \<Rightarrow> alert_metric \<Rightarrow> db \<Rightarrow> alert_state_row option" where
  "find_alert_state project metric d = find (\<lambda>q. qs_project q = project \<and> qs_metric q = metric) (alert_states d)"

definition new_alert_state :: "txn \<Rightarrow> uuid \<Rightarrow> quality_signal \<Rightarrow> digest \<Rightarrow> alert_state_row" where
  "new_alert_state x project sg fingerprint =
     \<lparr>qs_id = txn_uuid x (Draw_state (sg_metric sg)), qs_project = project, qs_metric = sg_metric sg,
      qs_status = sg_status sg, qs_active = None, qs_current = sg_current sg, qs_previous = sg_previous sg,
      qs_delta = sg_delta sg, qs_fingerprint = fingerprint, qs_sequence = 0, qs_last_evaluated_at = txn_now x,
      qs_last_transition_at = txn_now x, qs_last_notified_at = None, qs_cooldown_until = None,
      qs_last_delivery = None, qs_acknowledged_at = None, qs_acknowledged_by = None, qs_note = None\<rparr>"

definition observe_signal :: "txn \<Rightarrow> quality_signal \<Rightarrow> digest \<Rightarrow> alert_state_row \<Rightarrow> alert_state_row" where
  "observe_signal x sg fingerprint q =
     (let q1 = q\<lparr>qs_status := sg_status sg, qs_current := sg_current sg, qs_previous := sg_previous sg,
           qs_delta := sg_delta sg, qs_fingerprint := fingerprint, qs_last_evaluated_at := txn_now x\<rparr>
      in if qs_status q \<noteq> sg_status sg then unacknowledged (q1\<lparr>qs_last_transition_at := txn_now x\<rparr>) else q1)"

definition observed_state :: "txn \<Rightarrow> project_row \<Rightarrow> comparison_snapshot \<Rightarrow> quality_signal \<Rightarrow> db \<Rightarrow> alert_state_row" where
  "observed_state x p c sg d =
     (let fingerprint = signal_fingerprint x (p_id p) sg c in
      case find_alert_state (p_id p) (sg_metric sg) d of
        None \<Rightarrow> new_alert_state x (p_id p) sg fingerprint
      | Some q \<Rightarrow> observe_signal x sg fingerprint q)"

record alert_counts =
  ac_transitions :: nat
  ac_queued :: nat
  ac_cooldown :: nat
  ac_silenced :: nat

definition notified_state :: "txn \<Rightarrow> webhook_config_row \<Rightarrow> alert_decision \<Rightarrow> uuid \<Rightarrow> alert_state_row \<Rightarrow> alert_state_row" where
  "notified_state x w dec i q =
     (let q1 = (unacknowledged q)\<lparr>qs_sequence := qs_sequence q + 1, qs_active := ad_active dec,
           qs_last_notified_at := Some (txn_now x), qs_last_delivery := Some i\<rparr>
      in if ad_active dec = None then q1
         else q1\<lparr>qs_cooldown_until := Some (txn_now x + microseconds (wc_cooldown w))\<rparr>)"

definition put_alert_state :: "alert_state_row \<Rightarrow> db \<Rightarrow> db" where
  "put_alert_state q d =
     (if find_alert_state (qs_project q) (qs_metric q) d = None then d\<lparr>alert_states := alert_states d @ [q]\<rparr>
      else store_alert_state q d)"

text \<open>The branch that queues a delivery; flushing it checks the constraints of its table.\<close>

definition queue_alert ::
  "txn \<Rightarrow> webhook_config_row \<Rightarrow> project_row \<Rightarrow> comparison_snapshot \<Rightarrow> quality_signal \<Rightarrow> alert_status \<Rightarrow> alert_decision
   \<Rightarrow> webhook_event \<Rightarrow> alert_state_row \<Rightarrow> db \<Rightarrow> service_error + db" where
  "queue_alert x w p c sg previous_status dec event q d =
     (let i = txn_uuid x (Draw_delivery (sg_metric sg));
          v = new_delivery i w event (Key_alert (p_id p) (sg_metric sg) (qs_sequence q + 1) (qs_fingerprint q))
            (delivery_payload i event p sg previous_status dec c (txn_now x)) (txn_now x);
          d1 = put_alert_state q (d\<lparr>webhook_deliveries := webhook_deliveries d @ [v\<lparr>wd_project := p_id p\<rparr>]\<rparr>)
      in bind_outcome (commit d1) (\<lambda>d2.
         Inr (audit x SYSTEM_ACTOR_ID ''project.quality_alert_queued'' ''quality_webhook_delivery'' i (Some (p_id p))
           [(''event_type'', JStr (webhook_event_value event)), (''metric'', JStr (alert_metric_value (sg_metric sg))),
            (''previous_status'', JStr (alert_status_value previous_status)),
            (''status'', JStr (alert_status_value (sg_status sg))), (''reason'', JStr (ad_reason dec)),
            (''destination_display'', JStr (wd_destination v)), (''signal_fingerprint'', JStr (qs_fingerprint q))]
           (store_alert_state (notified_state x w dec i q) d2))))"

definition silence_active :: "webhook_config_row \<Rightarrow> instant \<Rightarrow> bool" where
  "silence_active w moment = (case wc_silenced_until w of None \<Rightarrow> False | Some t \<Rightarrow> t > moment)"

definition evaluate_signal ::
  "txn \<Rightarrow> webhook_config_row \<Rightarrow> project_row \<Rightarrow> comparison_snapshot \<Rightarrow> quality_signal \<Rightarrow> db \<times> alert_counts
   \<Rightarrow> service_error + db \<times> alert_counts" where
  "evaluate_signal x w p c sg acc =
     (let (d, n) = acc;
          previous_status = (case find_alert_state (p_id p) (sg_metric sg) d of None \<Rightarrow> Alert_NO_DATA | Some q \<Rightarrow> qs_status q);
          status_changed = (previous_status \<noteq> sg_status sg);
          q = observed_state x p c sg d;
          dec = decide_quality_alert_event (sg_status sg) (qs_active q) (wc_minimum w) (qs_cooldown_until q) (txn_now x);
          silenced = (ad_event dec \<noteq> None \<and> silence_active w (txn_now x));
          n1 = n\<lparr>ac_transitions := ac_transitions n + (if status_changed then 1 else 0),
                ac_cooldown := ac_cooldown n + (if ad_reason dec = ''cooldown_active'' then 1 else 0),
                ac_silenced := ac_silenced n + (if silenced then 1 else 0)\<rparr>;
          kept = (let d1 = put_alert_state q d
                  in if status_changed
                     then audit x SYSTEM_ACTOR_ID ''project.quality_alert_state_changed'' ''quality_alert_state'' (qs_id q)
                       (Some (p_id p)) [(''metric'', JStr (alert_metric_value (sg_metric sg))),
                         (''previous_status'', JStr (alert_status_value previous_status)),
                         (''status'', JStr (alert_status_value (sg_status sg))),
                         (''reason'', JStr (if silenced then ''silence_active'' else ad_reason dec)),
                         (''signal_fingerprint'', JStr (qs_fingerprint q))] d1
                     else d1)
      in case ad_event dec of
           None \<Rightarrow> Inr (kept, n1)
         | Some event \<Rightarrow>
             if silenced then Inr (kept, n1)
             else bind_outcome (queue_alert x w p c sg previous_status dec event q d) (\<lambda>d1.
               Inr (d1, n1\<lparr>ac_queued := ac_queued n1 + 1\<rparr>)))"

fun evaluate_signals ::
  "txn \<Rightarrow> webhook_config_row \<Rightarrow> project_row \<Rightarrow> comparison_snapshot \<Rightarrow> quality_signal list \<Rightarrow> db \<times> alert_counts
   \<Rightarrow> service_error + db \<times> alert_counts" where
  "evaluate_signals x w p c [] acc = Inr acc"
| "evaluate_signals x w p c (sg # sgs) acc =
     bind_outcome (evaluate_signal x w p c sg acc) (evaluate_signals x w p c sgs)"

definition evaluate_project ::
  "txn \<Rightarrow> webhook_config_row \<Rightarrow> project_row \<Rightarrow> db \<times> alert_counts \<Rightarrow> service_error + db \<times> alert_counts" where
  "evaluate_project x w p acc =
     bind_outcome
       (calculate_quality_comparison p (Some (p_slo_window_days p))
         \<lparr>df_target = None, df_environment = None, df_baseline = None\<rparr> (txn_now x) (fst acc))
       (\<lambda>c. evaluate_signals x w p c (cmp_signals (cs_comparison c)) acc)"

subsection \<open>The batch\<close>

definition evaluation_due :: "instant \<Rightarrow> webhook_config_row \<Rightarrow> bool" where
  "evaluation_due moment w \<longleftrightarrow>
     wc_enabled w \<and> (case wc_next_evaluation_at w of None \<Rightarrow> True | Some t \<Rightarrow> t \<le> moment)"

definition due_configs :: "(uuid \<Rightarrow> bool) \<Rightarrow> nat \<Rightarrow> instant \<Rightarrow> db \<Rightarrow> webhook_config_row list" where
  "due_configs busy limit moment d =
     take limit (sort_key (\<lambda>w. given_or (wc_next_evaluation_at w) (wc_created_at w))
       (sort_key wc_project (filter (\<lambda>w. evaluation_due moment w \<and> \<not> busy (wc_id w)) (webhook_configs d))))"

definition next_evaluation :: "instant \<Rightarrow> instant \<Rightarrow> webhook_config_row \<Rightarrow> instant" where
  "next_evaluation moment next_at w =
     (case wc_silenced_until w of
        None \<Rightarrow> next_at
      | Some t \<Rightarrow> if moment < t \<and> t < next_at then t else next_at)"

definition evaluated_config :: "instant \<Rightarrow> instant \<Rightarrow> webhook_config_row \<Rightarrow> webhook_config_row" where
  "evaluated_config moment next_at w =
     w\<lparr>wc_last_evaluated_at := Some moment, wc_next_evaluation_at := Some (next_evaluation moment next_at w)\<rparr>"

text \<open>
  The loop over the selected webhooks.  Each project has one webhook, so the three identifiers of
  a project's states and the three of its deliveries are drawn once per project: the transaction of a
  project is an argument of its own.
\<close>

fun evaluate_configs ::
  "(uuid \<Rightarrow> txn) \<Rightarrow> instant \<Rightarrow> instant \<Rightarrow> webhook_config_row list \<Rightarrow> db \<times> alert_counts \<times> nat
   \<Rightarrow> service_error + db \<times> alert_counts \<times> nat" where
  "evaluate_configs xs moment next_at [] acc = Inr acc"
| "evaluate_configs xs moment next_at (w # ws) (d, n, evaluated) =
     (case lookup_row p_id (wc_project w) (projects d) of
        None \<Rightarrow> evaluate_configs xs moment next_at ws (d, n, evaluated)
      | Some p \<Rightarrow>
          bind_outcome (evaluate_project ((xs (wc_project w))\<lparr>txn_now := moment\<rparr>) w p (d, n)) (\<lambda>(d1, n1).
          evaluate_configs xs moment next_at ws
            (d1\<lparr>webhook_configs := update_row wc_id (wc_id w) (evaluated_config moment next_at) (webhook_configs d1)\<rparr>,
             n1, evaluated + 1)))"

record evaluation_summary =
  es_selected :: nat
  es_evaluated :: nat
  es_counts :: alert_counts

definition evaluate_quality_alert_batch ::
  "(uuid \<Rightarrow> txn) \<Rightarrow> (uuid \<Rightarrow> bool) \<Rightarrow> nat \<Rightarrow> int \<Rightarrow> instant \<Rightarrow> db \<Rightarrow> service_error + db \<times> evaluation_summary" where
  "evaluate_quality_alert_batch xs busy batch_size interval moment d =
     (if \<not> (1 \<le> batch_size \<and> batch_size \<le> 500)
      then Inl (Value_error ''quality alert batch size must be between 1 and 500'')
      else if \<not> (5 \<le> interval \<and> interval \<le> 3600)
      then Inl (Value_error ''quality alert evaluation interval must be between 5 and 3600 seconds'')
      else
      let configs = due_configs busy batch_size moment d
      in bind_outcome (evaluate_configs xs moment (moment + microseconds interval) configs
             (d, \<lparr>ac_transitions = 0, ac_queued = 0, ac_cooldown = 0, ac_silenced = 0\<rparr>, 0)) (\<lambda>(d1, n, evaluated).
         bind_outcome (commit d1) (\<lambda>d2.
         Inr (d2, \<lparr>es_selected = length configs, es_evaluated = evaluated, es_counts = n\<rparr>))))"

subsection \<open>Numbers for the operators\<close>

record operations_snapshot =
  os_due :: int
  os_lag :: instant
  os_silences :: int
  os_pending :: int
  os_failed :: int
  os_oldest_pending :: instant
  os_replays :: int

definition oldest :: "instant list \<Rightarrow> instant option" where
  "oldest ts = (case ts of [] \<Rightarrow> None | t # us \<Rightarrow> Some (fold min us t))"

text \<open>Ages are in microseconds; the code divides them down to seconds.\<close>

definition age :: "instant \<Rightarrow> instant option \<Rightarrow> instant" where
  "age moment t = (case t of None \<Rightarrow> 0 | Some u \<Rightarrow> max 0 (moment - u))"

definition collect_quality_operations_snapshot :: "instant \<Rightarrow> db \<Rightarrow> operations_snapshot" where
  "collect_quality_operations_snapshot moment d =
     (let due_at = List.map_filter (\<lambda>w. if wc_enabled w then (case wc_next_evaluation_at w of
            None \<Rightarrow> None | Some t \<Rightarrow> if t \<le> moment then Some t else None) else None) (webhook_configs d)
      in \<lparr>os_due = int (length due_at), os_lag = age moment (oldest due_at),
          os_silences = count_rows (\<lambda>w. wc_enabled w \<and> silence_active w moment) (webhook_configs d),
          os_pending = count_rows (\<lambda>v. wd_status v = Delivery_PENDING) (webhook_deliveries d),
          os_failed = count_rows (\<lambda>v. wd_status v = Delivery_FAILED) (webhook_deliveries d),
          os_oldest_pending = age moment (oldest (map wd_created_at
            (filter (\<lambda>v. wd_status v = Delivery_PENDING) (webhook_deliveries d)))),
          os_replays = count_rows (\<lambda>v. wd_replay_of v \<noteq> None) (webhook_deliveries d)\<rparr>)"

end
