(* ===== verification/Quality_Guarantees.thy ===== *)
theory Quality_Guarantees
  imports Quality_Alerts
begin

section \<open>What quality alerts guarantee\<close>

text \<open>
  The quality services and workers as steps on the database, the invariant of their tables, and the
  abstract machine of an alert that the scheduled evaluation follows.
\<close>

subsection \<open>The calls\<close>

inductive quality_call :: "db \<Rightarrow> db \<Rightarrow> bool" where
  Policy_update: "update_quality_policy x project v actor d = Inr (d', p) \<Longrightarrow> quality_call d d'"
| Webhook_configure: "update_quality_webhook_config x project u actor d = Inr (d', w)
    \<Longrightarrow> validate_webhook_update u = Inr u \<Longrightarrow> quality_call d d'"
| Alert_silence: "set_quality_alert_silence x project until reason actor d = Inr (d', w) \<Longrightarrow> quality_call d d'"
| Alert_unsilence: "clear_quality_alert_silence x project actor d = Inr (d', w) \<Longrightarrow> quality_call d d'"
| Webhook_test: "enqueue_quality_webhook_test x project actor d = Inr (d', v') \<Longrightarrow> quality_call d d'"
| Webhook_replay: "replay_failed_quality_webhook_delivery x project i reason actor d = Inr (d', v') \<Longrightarrow> quality_call d d'"
| Alert_acknowledge: "acknowledge_quality_alert x project metric txt actor d = Inr (d', q) \<Longrightarrow> quality_call d d'"
| Alert_unacknowledge: "clear_quality_alert_acknowledgement x project metric actor d = Inr (d', q) \<Longrightarrow> quality_call d d'"
| Webhook_dispatch: "dispatch_quality_webhook_batch send busy limit max_attempts moment d = Inr (d', t)
    \<Longrightarrow> quality_call d d'"
| Alert_evaluate: "evaluate_quality_alert_batch xs busy limit interval moment d = Inr (d', s) \<Longrightarrow> quality_call d d'"

lemma same_run_tables_quality [simp]:
  "same_run_tables d (webhook_configs_update f d') = same_run_tables d d'"
  "same_run_tables d (webhook_deliveries_update g d') = same_run_tables d d'"
  "same_run_tables d (alert_states_update h d') = same_run_tables d d'"
  "same_run_tables d (projects_update k d') = same_run_tables d d'"
  by (simp_all add: same_run_tables_def)

lemma store_webhook_config_frame [simp]:
  "webhook_deliveries (store_webhook_config w d) = webhook_deliveries d"
  "alert_states (store_webhook_config w d) = alert_states d"
  "same_run_tables d' (store_webhook_config w d) = same_run_tables d' d"
  by (simp_all add: store_webhook_config_def)

lemma reset_alert_states_frame [simp]:
  "webhook_deliveries (reset_alert_states project d) = webhook_deliveries d"
  "webhook_configs (reset_alert_states project d) = webhook_configs d"
  "same_run_tables d' (reset_alert_states project d) = same_run_tables d' d"
  by (simp_all add: reset_alert_states_def)

lemma store_alert_state_frame [simp]:
  "webhook_deliveries (store_alert_state q d) = webhook_deliveries d"
  "webhook_configs (store_alert_state q d) = webhook_configs d"
  "projects (store_alert_state q d) = projects d"
  "same_run_tables d' (store_alert_state q d) = same_run_tables d' d"
  by (simp_all add: store_alert_state_def)

lemma put_alert_state_frame [simp]:
  "webhook_deliveries (put_alert_state q d) = webhook_deliveries d"
  "webhook_configs (put_alert_state q d) = webhook_configs d"
  "projects (put_alert_state q d) = projects d"
  "same_run_tables d' (put_alert_state q d) = same_run_tables d' d"
  by (simp_all add: put_alert_state_def)

subsection \<open>One row per alert\<close>

lemma find_alert_lookup: "find_alert_state p m d = lookup_row (\<lambda>q. (qs_project q, qs_metric q)) (p, m) (alert_states d)"
  by (simp add: find_alert_state_def lookup_row_def)

lemma lookup_replaced_row:
  "key new = k \<Longrightarrow> lookup_row key j (update_row key k (\<lambda>_. new) rows) =
     (if j = k \<and> k \<in> key ` set rows then Some new else lookup_row key j rows)"
  by (induction rows) (auto simp: update_row_def row_simps)

lemma find_put_alert:
  "find_alert_state p m (put_alert_state q d) = (if p = qs_project q \<and> m = qs_metric q then Some q else find_alert_state p m d)"
proof (cases "find_alert_state (qs_project q) (qs_metric q) d")
  case None
  then show ?thesis
    by (auto simp: put_alert_state_def find_alert_lookup row_simps split: option.split)
next
  case (Some r)
  then have "(qs_project q, qs_metric q) \<in> (\<lambda>q. (qs_project q, qs_metric q)) ` set (alert_states d)"
    unfolding find_alert_lookup by (metis lookup_row_None_iff option.distinct(1))
  with Some show ?thesis
    by (simp add: put_alert_state_def store_alert_state_def find_alert_lookup lookup_replaced_row)
qed

lemma find_store_alert:
  "find_alert_state p m (store_alert_state q d) = (if p = qs_project q \<and> m = qs_metric q
      \<and> find_alert_state p m d \<noteq> None then Some q else find_alert_state p m d)"
  by (auto simp: store_alert_state_def find_alert_lookup lookup_replaced_row lookup_row_None_iff)

lemma store_after_put:
  assumes "qs_project q' = qs_project q" "qs_metric q' = qs_metric q"
  shows "alert_states (store_alert_state q' (put_alert_state q d)) = alert_states (put_alert_state q' d)"
proof (cases "find_alert_state (qs_project q) (qs_metric q) d")
  case None
  then have "map (\<lambda>r. if qs_project r = qs_project q \<and> qs_metric r = qs_metric q then q' else r) (alert_states d) = alert_states d"
    by (intro map_idI) (auto simp: find_alert_state_def find_None_iff)
  with None assms show ?thesis
    by (simp add: put_alert_state_def store_alert_state_def update_row_def update_where_def)
next
  case (Some r)
  with assms show ?thesis
    by (simp add: put_alert_state_def store_alert_state_def update_row_def update_where_def)
qed

lemma set_put_alert: "r \<in> set (alert_states (put_alert_state q d)) \<Longrightarrow> r = q \<or> r \<in> set (alert_states d)"
  by (auto simp: put_alert_state_def store_alert_state_def dest: set_update_row split: if_split_asm)

lemma find_alert_stateD:
  "find_alert_state p m d = Some q \<Longrightarrow> q \<in> set (alert_states d) \<and> qs_project q = p \<and> qs_metric q = m"
  by (auto simp: find_alert_state_def find_Some_iff)

text \<open>How many times the alert of a project's metric notified, and its state as it was notified last.\<close>

definition notifications :: "uuid \<Rightarrow> alert_metric \<Rightarrow> db \<Rightarrow> nat" where
  "notifications p m d = (case find_alert_state p m d of None \<Rightarrow> 0 | Some q \<Rightarrow> qs_sequence q)"

definition active_alert :: "uuid \<Rightarrow> alert_metric \<Rightarrow> db \<Rightarrow> alert_status option" where
  "active_alert p m d = (case find_alert_state p m d of None \<Rightarrow> None | Some q \<Rightarrow> qs_active q)"

fun alert_number :: "uuid \<Rightarrow> alert_metric \<Rightarrow> webhook_key \<Rightarrow> nat list" where
  "alert_number p m (Key_alert p' m' n g) = (if p' = p \<and> m' = m then [n] else [])"
| "alert_number p m (Key_webhook_test i) = []"
| "alert_number p m (Key_webhook_replay i) = []"

definition alert_numbers :: "uuid \<Rightarrow> alert_metric \<Rightarrow> webhook_delivery_row list \<Rightarrow> nat list" where
  "alert_numbers p m vs = concat (map (alert_number p m) (map wd_key vs))"

subsection \<open>The invariant\<close>

definition config_ok :: "webhook_config_row \<Rightarrow> bool" where
  "config_ok w \<longleftrightarrow> wc_minimum w \<in> {Alert_WARNING, Alert_CRITICAL}
     \<and> (wc_enabled w \<longleftrightarrow> wc_next_evaluation_at w \<noteq> None)
     \<and> (wc_secret_name w = None \<longleftrightarrow> wc_secret_ref w = None)
     \<and> (wc_silenced_until w = None \<longleftrightarrow> wc_silenced_by w = None)
     \<and> (wc_silenced_until w = None \<longleftrightarrow> wc_silence_reason w = None)"

definition alert_ok :: "alert_state_row \<Rightarrow> bool" where
  "alert_ok q \<longleftrightarrow> qs_active q \<in> {None, Some Alert_WARNING, Some Alert_CRITICAL}
     \<and> (qs_acknowledged_at q \<noteq> None \<longrightarrow> qs_status q \<in> {Alert_WARNING, Alert_CRITICAL})
     \<and> (qs_acknowledged_at q = None \<longleftrightarrow> qs_acknowledged_by q = None)
     \<and> (qs_acknowledged_at q = None \<longleftrightarrow> qs_note q = None)
     \<and> (qs_sequence q = 0 \<longleftrightarrow> qs_last_delivery q = None) \<and> (qs_active q \<noteq> None \<longrightarrow> 0 < qs_sequence q)"

definition delivery_settled :: "webhook_delivery_row \<Rightarrow> bool" where
  "delivery_settled v \<longleftrightarrow>
     (case wd_status v of
        Delivery_PENDING \<Rightarrow> wd_delivered_at v = None
      | Delivery_DELIVERED \<Rightarrow> wd_delivered_at v \<noteq> None
          \<and> (\<exists>code. wd_response_status v = Some code \<and> 200 \<le> code \<and> code < 300)
      | Delivery_FAILED \<Rightarrow> wd_delivered_at v = None \<and> wd_last_error v \<noteq> None
      | Delivery_CANCELED \<Rightarrow> False)"

definition replays :: "webhook_delivery_row list \<Rightarrow> webhook_delivery_row \<Rightarrow> uuid \<Rightarrow> bool" where
  "replays vs v i \<longleftrightarrow> wd_replay_of v = Some i \<and> wd_replayed_by v \<noteq> None
     \<and> (\<exists>u\<in>set vs. wd_id u = i \<and> wd_status u = Delivery_FAILED \<and> wd_payload u = wd_payload v \<and> wd_event u = wd_event v)"

definition delivery_ok :: "webhook_delivery_row list \<Rightarrow> webhook_delivery_row \<Rightarrow> bool" where
  "delivery_ok vs v \<longleftrightarrow> delivery_settled v
     \<and> (case wd_key v of
          Key_webhook_replay i \<Rightarrow> replays vs v i
        | Key_webhook_test i \<Rightarrow> wd_replay_of v = None \<and> wd_event v = Alert_test
        | Key_alert p m n g \<Rightarrow> wd_replay_of v = None)"

definition numbered :: "db \<Rightarrow> bool" where
  "numbered d \<longleftrightarrow> (\<forall>p m. alert_numbers p m (webhook_deliveries d) = [1 ..< Suc (notifications p m d)])"

definition quality_ok :: "db \<Rightarrow> bool" where
  "quality_ok d \<longleftrightarrow> (\<forall>w\<in>set (webhook_configs d). config_ok w) \<and> (\<forall>q\<in>set (alert_states d). alert_ok q)
     \<and> (\<forall>v\<in>set (webhook_deliveries d). delivery_ok (webhook_deliveries d) v) \<and> numbered d"

text \<open>The steps the services share.\<close>

lemma quality_ok_step:
  assumes "quality_ok d" "webhook_deliveries d' = webhook_deliveries d"
    and "\<And>w. w \<in> set (webhook_configs d') \<Longrightarrow> w \<in> set (webhook_configs d) \<or> config_ok w"
    and "\<And>q. q \<in> set (alert_states d') \<Longrightarrow> q \<in> set (alert_states d) \<or> alert_ok q"
    and "\<And>p m. notifications p m d' = notifications p m d"
  shows "quality_ok d'"
  unfolding quality_ok_def numbered_def
  using assms(1) [unfolded quality_ok_def numbered_def] assms(2-5) by metis

lemma notifications_cong: "alert_states d' = alert_states d \<Longrightarrow> notifications p m d' = notifications p m d"
  by (simp add: notifications_def find_alert_state_def)

lemma delivery_ok_more: "delivery_ok vs v \<Longrightarrow> set vs \<subseteq> set vs' \<Longrightarrow> delivery_ok vs' v"
  by (auto simp: delivery_ok_def replays_def split: webhook_key.splits)

lemma quality_ok_delivery:
  assumes "quality_ok d" "webhook_deliveries d' = webhook_deliveries d @ [v]" "delivery_ok (webhook_deliveries d) v"
    and "webhook_configs d' = webhook_configs d" "alert_states d' = alert_states d"
    and "\<And>p m. alert_number p m (wd_key v) = []"
  shows "quality_ok d'"
proof -
  have "delivery_ok (webhook_deliveries d') u" if "u \<in> set (webhook_deliveries d')" for u
    using that assms(1,2,3) delivery_ok_more [of "webhook_deliveries d" u "webhook_deliveries d'"]
    by (auto simp: quality_ok_def)
  moreover have "numbered d'"
    using assms(1,2,6) notifications_cong [OF assms(5)] by (simp add: quality_ok_def numbered_def alert_numbers_def)
  ultimately show ?thesis using assms(1,4,5) by (simp add: quality_ok_def)
qed

lemma delivery_settled_attempted:
  "delivery_attempted max_attempts moment v v' \<Longrightarrow> delivery_settled v \<Longrightarrow> wd_status v = Delivery_PENDING \<Longrightarrow> delivery_settled v'"
  by (auto simp: delivery_attempted_def delivery_settled_def)

lemma list_all2_sources: "list_all2 P xs ys \<Longrightarrow> y \<in> set ys \<Longrightarrow> \<exists>x\<in>set xs. P x y"
  by (induction rule: list_all2_induct) auto

lemma list_all2_targets: "list_all2 P xs ys \<Longrightarrow> x \<in> set xs \<Longrightarrow> \<exists>y\<in>set ys. P x y"
  by (induction rule: list_all2_induct) auto

lemma list_all2_same_map: "list_all2 P xs ys \<Longrightarrow> (\<And>x y. P x y \<Longrightarrow> f y = f x) \<Longrightarrow> map f ys = map f xs"
  by (induction rule: list_all2_induct) auto

lemma same_delivery_refl [simp]: "same_delivery v v"
  by (simp add: same_delivery_def)

lemma delivery_ok_transfer:
  assumes "delivery_ok vs u" "same_delivery u v" "delivery_settled v"
    and "\<And>s. s \<in> set vs \<Longrightarrow> wd_status s = Delivery_FAILED \<Longrightarrow> s \<in> set vs'"
  shows "delivery_ok vs' v"
proof -
  have "wd_key v = wd_key u" "wd_replay_of v = wd_replay_of u" "wd_event v = wd_event u"
    and same: "wd_payload v = wd_payload u" "wd_replayed_by v = wd_replayed_by u"
    using assms(2) by (simp_all add: same_delivery_def)
  moreover have "replays vs' v i" if "replays vs u i" for i
    using that assms(4) calculation(2,3) same unfolding replays_def by metis
  ultimately show ?thesis
    using assms(1,3) by (cases "wd_key u") (simp_all add: delivery_ok_def)
qed

lemma quality_ok_batch:
  assumes "quality_ok d" "d' = d\<lparr>webhook_deliveries := webhook_deliveries d'\<rparr>"
    and step: "list_all2 (\<lambda>v v'. v' = v \<or> due_delivery moment v \<and> delivery_attempted max_attempts moment v v')
        (webhook_deliveries d) (webhook_deliveries d')"
  shows "quality_ok d'"
proof -
  let ?vs = "webhook_deliveries d" and ?vs' = "webhook_deliveries d'"
  have attempted: "same_delivery v v'" if "delivery_attempted max_attempts moment v v'" for v v'
    using that by (simp add: delivery_attempted_def)
  have "map wd_key ?vs' = map wd_key ?vs"
    using step by (rule list_all2_same_map) (auto simp: same_delivery_def dest: attempted)
  then have numbers: "alert_numbers p m ?vs' = alert_numbers p m ?vs" for p m by (simp only: alert_numbers_def)
  have failed: "v \<in> set ?vs'" if "v \<in> set ?vs" "wd_status v = Delivery_FAILED" for v
    using list_all2_targets [OF step that(1)] that(2) by (auto simp: due_delivery_def)
  have "delivery_ok ?vs' v" if "v \<in> set ?vs'" for v
  proof -
    obtain u where u: "u \<in> set ?vs" "v = u \<or> due_delivery moment u \<and> delivery_attempted max_attempts moment u v"
      using list_all2_sources [OF step \<open>v \<in> set ?vs'\<close>] by blast
    have ok: "delivery_ok ?vs u" using assms(1) u(1) by (simp add: quality_ok_def)
    then have settled: "delivery_settled v"
      using u(2) delivery_settled_attempted [of max_attempts moment u v] unfolding due_delivery_def delivery_ok_def by metis
    have "same_delivery u v" using u(2) attempted by auto
    from delivery_ok_transfer [OF ok this settled, of ?vs'] failed show ?thesis by blast
  qed
  moreover have "alert_states d' = alert_states d" "webhook_configs d' = webhook_configs d"
    by (subst assms(2), simp)+
  ultimately show ?thesis
    using assms(1) numbers notifications_cong [of d' d] by (simp add: quality_ok_def numbered_def)
qed

subsection \<open>What each service reads and commits\<close>

lemma update_quality_policy_Inr:
  assumes "update_quality_policy x project u actor d = Inr (d', p)"
  shows "unique_ok d'" "same_run_tables d d'" "webhook_deliveries d' = webhook_deliveries d"
    "webhook_configs d' = webhook_configs d" "alert_states d' = alert_states d"
  using assms unfolding update_quality_policy_def Let_def
  by (auto elim!: bind_outcome_InrE commit_bind_InrE split: if_split_asm)

lemma webhook_config_InrD: "webhook_config project d = Some w \<Longrightarrow> w \<in> set (webhook_configs d) \<and> wc_project w = project"
  by (auto simp: webhook_config_def dest: lookup_row_SomeD)

lemma enabled_config_InrD:
  "enabled_config project message d = Inr w \<Longrightarrow> w \<in> set (webhook_configs d) \<and> wc_enabled w \<and> wc_project w = project"
  by (auto simp: enabled_config_def dest: webhook_config_InrD split: option.split_asm if_split_asm)

lemma set_store_webhook_config:
  "v \<in> set (webhook_configs (store_webhook_config w d)) \<Longrightarrow> v = w \<or> v \<in> set (webhook_configs d)"
  by (auto simp: store_webhook_config_def dest: set_update_row split: if_split_asm)

lemma apply_webhook_update_columns:
  "wc_minimum (apply_webhook_update u w) = given_or (wu_minimum u) (wc_minimum w)"
  "wc_next_evaluation_at (apply_webhook_update u w) = wc_next_evaluation_at w"
  "wc_silenced_until (apply_webhook_update u w) = wc_silenced_until w"
  "wc_silenced_by (apply_webhook_update u w) = wc_silenced_by w"
  "wc_silence_reason (apply_webhook_update u w) = wc_silence_reason w"
  by (cases "wu_clear_secret u"; cases "wu_secret u"; simp add: apply_webhook_update_def case_prod_beta)+

lemma apply_webhook_update_secret:
  "(wc_secret_name w = None) = (wc_secret_ref w = None) \<Longrightarrow>
    (wc_secret_name (apply_webhook_update u w) = None) = (wc_secret_ref (apply_webhook_update u w) = None)"
  by (cases "wu_clear_secret u"; cases "wu_secret u"; simp add: apply_webhook_update_def case_prod_beta)

lemma reschedule_evaluation_ok:
  assumes "wc_minimum w \<in> {Alert_WARNING, Alert_CRITICAL}" "(wc_secret_name w = None) = (wc_secret_ref w = None)"
    "(wc_silenced_until w = None) = (wc_silenced_by w = None)" "(wc_silenced_until w = None) = (wc_silence_reason w = None)"
  shows "config_ok (reschedule_evaluation moment changed w)"
  using assms by (simp add: config_ok_def reschedule_evaluation_def)

lemma config_ok_updated:
  assumes "config_ok w" "validate_webhook_update u = Inr u"
  shows "config_ok (reschedule_evaluation moment changed (apply_webhook_update u w))"
proof -
  from assms(2) have "wu_minimum u \<in> {None, Some Alert_WARNING, Some Alert_CRITICAL}"
    unfolding validate_webhook_update_def by (rule guard_InrE) simp
  then have "given_or (wu_minimum u) (wc_minimum w) \<in> {Alert_WARNING, Alert_CRITICAL}"
    using assms(1) by (auto simp: config_ok_def)
  with assms(1) show ?thesis
    by (intro reschedule_evaluation_ok apply_webhook_update_secret)
      (auto simp: config_ok_def apply_webhook_update_columns)
qed

lemma find_reset_alert:
  "find_alert_state p m (reset_alert_states project d) = map_option
     (\<lambda>q. if qs_project q = project then unacknowledged (q\<lparr>qs_active := None, qs_cooldown_until := None\<rparr>) else q)
     (find_alert_state p m d)"
  unfolding find_alert_lookup reset_alert_states_def
  by (simp add: lookup_update_where unacknowledged_def cong: if_cong)

lemma notifications_reset [simp]: "notifications p m (reset_alert_states project d) = notifications p m d"
  by (simp add: notifications_def find_reset_alert unacknowledged_def split: option.split)

lemma alert_ok_unacknowledged: "alert_ok q \<Longrightarrow> alert_ok (unacknowledged q)"
  by (simp add: alert_ok_def unacknowledged_def)

lemma set_reset_alert_states:
  assumes "q \<in> set (alert_states (reset_alert_states project d))" "\<forall>q\<in>set (alert_states d). alert_ok q"
  shows "alert_ok q"
proof -
  have "alert_ok (unacknowledged (r\<lparr>qs_active := None, qs_cooldown_until := None\<rparr>))" if "alert_ok r" for r
    using that by (simp add: alert_ok_def unacknowledged_def)
  moreover obtain r where "r \<in> set (alert_states d)"
    "q = (if qs_project r = project then unacknowledged (r\<lparr>qs_active := None, qs_cooldown_until := None\<rparr>) else r)"
    using assms(1) by (auto simp: reset_alert_states_def in_set_update_where)
  ultimately show ?thesis using assms(2) by (simp split: if_split_asm)
qed

lemma update_quality_webhook_config_Inr:
  assumes "update_quality_webhook_config x project u actor d = Inr (d', w')"
  obtains w changed d1 where "w \<in> set (webhook_configs d) \<or> (\<exists>url. w = new_webhook_config x project url)"
    "w' = reschedule_evaluation (txn_now x) changed (apply_webhook_update u w)" "d1 = store_webhook_config w' d"
    "alert_states d' = alert_states d \<or> alert_states d' = alert_states (reset_alert_states project d1)"
    "webhook_configs d' = webhook_configs d1" "webhook_deliveries d' = webhook_deliveries d"
    "unique_ok d'" "same_run_tables d d'"
proof -
  note call = assms [unfolded update_quality_webhook_config_def Let_def]
  from call obtain w where w: "(case webhook_config project d of Some w \<Rightarrow> Inr w
        | None \<Rightarrow> (case wu_endpoint u of
            None \<Rightarrow> Inl (InvalidRequest ''endpoint_url is required when configuring a quality webhook'')
          | Some url \<Rightarrow> Inr (new_webhook_config x project url))) = Inr w"
    by (elim bind_outcome_InrE)
  then have known: "w \<in> set (webhook_configs d) \<or> (\<exists>url. w = new_webhook_config x project url)"
    by (cases "webhook_config project d"; cases "wu_endpoint u") (auto dest: webhook_config_InrD)
  define changed where "changed \<longleftrightarrow> ((case webhook_config project d of None \<Rightarrow> False | Some c \<Rightarrow> wc_enabled c)
        \<noteq> wc_enabled (apply_webhook_update u w)
      \<or> (case webhook_config project d of None \<Rightarrow> Alert_WARNING | Some c \<Rightarrow> wc_minimum c)
        \<noteq> wc_minimum (apply_webhook_update u w))"
  let ?w = "reschedule_evaluation (txn_now x) changed (apply_webhook_update u w)"
  let ?d1 = "store_webhook_config ?w d"
  from call have "d' = audit x actor ''project.quality_webhook_updated'' ''project_quality_webhook'' (wc_id ?w) (Some project)
        [(''before'', config_details (webhook_config project d)), (''after'', config_details (Some ?w))]
        (if changed then reset_alert_states project ?d1 else ?d1)" "w' = ?w" "unique_ok d'"
    unfolding w changed_def by (auto elim!: bind_outcome_InrE simp: commit_Inr_iff)
  then show thesis using known by (intro that [of w changed ?d1]) simp_all
qed

lemma configure_keeps_quality:
  assumes "update_quality_webhook_config x project u actor d = Inr (d', w')" "validate_webhook_update u = Inr u" "quality_ok d"
  shows "quality_ok d'"
  using assms(1)
proof (rule update_quality_webhook_config_Inr)
  fix w changed d1
  assume w: "w \<in> set (webhook_configs d) \<or> (\<exists>url. w = new_webhook_config x project url)"
    and w': "w' = reschedule_evaluation (txn_now x) changed (apply_webhook_update u w)"
    and d1: "d1 = store_webhook_config w' d"
    and states: "alert_states d' = alert_states d \<or> alert_states d' = alert_states (reset_alert_states project d1)"
    and rest: "webhook_configs d' = webhook_configs d1" "webhook_deliveries d' = webhook_deliveries d"
  have "config_ok w" using w assms(3) by (auto simp: quality_ok_def config_ok_def new_webhook_config_def)
  then have "config_ok w'" unfolding w' using assms(2) by (rule config_ok_updated)
  moreover have "alert_ok q" if "q \<in> set (alert_states d')" for q
    using that states set_reset_alert_states [of q project d1] assms(3) by (auto simp: d1 quality_ok_def)
  moreover have "notifications p m d' = notifications p m d" for p m
    using states notifications_cong [of d' d] notifications_cong [of d' "reset_alert_states project d1"]
      notifications_cong [of d1 d] by (auto simp: d1)
  ultimately show ?thesis
    using set_store_webhook_config [of _ w' d]
    by (intro quality_ok_step [OF assms(3) rest(2)]) (auto simp: rest(1) d1)
qed

lemma stored_config_keeps_quality:
  assumes "quality_ok d" "w \<in> set (webhook_configs d)" "webhook_configs d' = webhook_configs (store_webhook_config w' d)"
    "webhook_deliveries d' = webhook_deliveries d" "alert_states d' = alert_states d" "config_ok w \<Longrightarrow> config_ok w'"
  shows "quality_ok d'"
proof (rule quality_ok_step [OF assms(1,4)])
  have "config_ok w" using assms(1,2) by (simp add: quality_ok_def)
  then show "v \<in> set (webhook_configs d) \<or> config_ok v" if "v \<in> set (webhook_configs d')" for v
    using that assms(6) set_store_webhook_config [of v w' d] by (auto simp: assms(3))
qed (simp_all add: assms(5) notifications_cong [of d' d])

lemma set_quality_alert_silence_Inr:
  assumes "set_quality_alert_silence x project until reason actor d = Inr (d', w')"
  obtains w where "w \<in> set (webhook_configs d)" "wc_enabled w" "txn_now x < until"
    "until \<le> txn_now x + MAX_QUALITY_ALERT_SILENCE"
    "w' = w\<lparr>wc_silenced_until := Some until, wc_silenced_by := Some actor, wc_silence_reason := Some reason,
       wc_next_evaluation_at := Some (txn_now x)\<rparr>"
    "webhook_configs d' = webhook_configs (store_webhook_config w' d)" "webhook_deliveries d' = webhook_deliveries d"
    "alert_states d' = alert_states d" "unique_ok d'" "same_run_tables d d'"
proof -
  note call = assms [unfolded set_quality_alert_silence_def Let_def]
  from call show thesis
    by (elim bind_outcome_InrE) (auto simp: commit_Inr_iff elim!: bind_outcome_InrE intro!: that dest: enabled_config_InrD split: if_split_asm)
qed

lemma clear_quality_alert_silence_Inr:
  assumes "clear_quality_alert_silence x project actor d = Inr (d', w')"
  obtains (nothing) "d' = d"
  | (cleared) w where "w \<in> set (webhook_configs d)"
    "w' = w\<lparr>wc_silenced_until := None, wc_silenced_by := None, wc_silence_reason := None,
       wc_next_evaluation_at := (if wc_enabled w then Some (txn_now x) else None)\<rparr>"
    "webhook_configs d' = webhook_configs (store_webhook_config w' d)" "webhook_deliveries d' = webhook_deliveries d"
    "alert_states d' = alert_states d" "unique_ok d'" "same_run_tables d d'"
proof -
  note call = assms [unfolded clear_quality_alert_silence_def Let_def]
  from call obtain w where w: "webhook_config project d = Some w"
    by (elim bind_outcome_InrE) (auto split: option.split_asm)
  show thesis
  proof (cases "wc_silenced_until w")
    case None
    with call w have "d' = d" by (auto elim!: bind_outcome_InrE)
    then show thesis by (rule nothing)
  next
    case (Some t)
    then show thesis using call w webhook_config_InrD [OF w]
      by (elim bind_outcome_InrE) (auto simp: commit_Inr_iff elim!: bind_outcome_InrE intro!: cleared)
  qed
qed

lemma enqueue_quality_webhook_test_Inr:
  assumes "enqueue_quality_webhook_test x project actor d = Inr (d', v)"
  obtains w p where "v = new_delivery (txn_uuid x Draw_row) w Alert_test (Key_webhook_test (txn_uuid x Draw_row))
      (test_payload (txn_uuid x Draw_row) p (txn_now x)) (txn_now x)"
    "webhook_deliveries d' = webhook_deliveries d @ [v]" "webhook_configs d' = webhook_configs d"
    "alert_states d' = alert_states d" "unique_ok d'" "same_run_tables d d'"
proof -
  note call = assms [unfolded enqueue_quality_webhook_test_def Let_def]
  from call show thesis
    by (elim bind_outcome_InrE) (auto simp: commit_Inr_iff intro!: that)
qed

lemma replay_failed_quality_webhook_delivery_Inr:
  assumes "replay_failed_quality_webhook_delivery x project i reason actor d = Inr (d', v)"
  obtains u w where "u \<in> set (webhook_deliveries d)" "wd_id u = i" "wd_status u = Delivery_FAILED"
    "\<forall>t\<in>set (webhook_deliveries d). wd_replay_of t \<noteq> Some i"
    "v = (new_delivery (txn_uuid x Draw_row) w (wd_event u) (Key_webhook_replay i) (wd_payload u) (txn_now x))
       \<lparr>wd_replay_of := Some i, wd_replayed_by := Some actor, wd_replay_reason := Some reason\<rparr>"
    "webhook_deliveries d' = webhook_deliveries d @ [v]" "webhook_configs d' = webhook_configs d"
    "alert_states d' = alert_states d" "unique_ok d'" "same_run_tables d d'"
proof -
  note call = assms [unfolded replay_failed_quality_webhook_delivery_def Let_def]
  from call obtain u where u: "find (\<lambda>v. wd_id v = i \<and> wd_project v = project) (webhook_deliveries d) = Some u"
    by (elim bind_outcome_InrE) (auto simp: outcome_simps)
  then have "u \<in> set (webhook_deliveries d)" "wd_id u = i" by (auto simp: find_Some_iff)
  with call u show thesis
    by (elim bind_outcome_InrE) (auto simp: commit_Inr_iff elim!: bind_outcome_InrE intro!: that split: if_split_asm)
qed

lemma acknowledge_quality_alert_Inr:
  assumes "acknowledge_quality_alert x project metric txt actor d = Inr (d', q')"
  obtains q where "find_alert_state project metric d = Some q" "qs_status q \<in> {Alert_WARNING, Alert_CRITICAL}"
    "q' = q\<lparr>qs_acknowledged_at := Some (txn_now x), qs_acknowledged_by := Some actor, qs_note := Some txt\<rparr>"
    "alert_states d' = alert_states (store_alert_state q' d)" "webhook_deliveries d' = webhook_deliveries d"
    "webhook_configs d' = webhook_configs d" "unique_ok d'" "same_run_tables d d'"
proof -
  note call = assms [unfolded acknowledge_quality_alert_def alert_state_def find_alert_state_def [symmetric] Let_def]
  from call show thesis
    by (elim bind_outcome_InrE) (auto simp: commit_Inr_iff require_row_Inr_iff elim!: bind_outcome_InrE intro!: that split: if_split_asm)
qed

lemma clear_quality_alert_acknowledgement_Inr:
  assumes "clear_quality_alert_acknowledgement x project metric actor d = Inr (d', q')"
  obtains (nothing) "d' = d"
  | (cleared) q where "find_alert_state project metric d = Some q" "q' = unacknowledged q"
    "alert_states d' = alert_states (store_alert_state q' d)" "webhook_deliveries d' = webhook_deliveries d"
    "webhook_configs d' = webhook_configs d" "unique_ok d'" "same_run_tables d d'"
proof -
  note call = assms [unfolded clear_quality_alert_acknowledgement_def alert_state_def find_alert_state_def [symmetric] Let_def]
  from call obtain q where q: "find_alert_state project metric d = Some q"
    by (elim bind_outcome_InrE) (auto simp: outcome_simps)
  show thesis
  proof (cases "qs_acknowledged_at q")
    case None
    with call q have "d' = d" by (auto elim!: bind_outcome_InrE)
    then show thesis by (rule nothing)
  next
    case (Some t)
    then show thesis using call q
      by (elim bind_outcome_InrE) (auto simp: commit_Inr_iff elim!: bind_outcome_InrE intro!: cleared)
  qed
qed

lemma stored_alert_keeps_quality:
  assumes "quality_ok d" "find_alert_state p m d = Some q" "alert_ok q'" "qs_sequence q' = qs_sequence q"
    "qs_project q' = qs_project q" "qs_metric q' = qs_metric q"
    and "alert_states d' = alert_states (store_alert_state q' d)" "webhook_deliveries d' = webhook_deliveries d"
    "webhook_configs d' = webhook_configs d"
  shows "quality_ok d'"
proof (rule quality_ok_step [OF assms(1,8)])
  note q = find_alert_stateD [OF assms(2)]
  show "notifications p' m' d' = notifications p' m' d" for p' m'
    using assms(2,4-6) q notifications_cong [OF assms(7)] by (auto simp: notifications_def find_store_alert)
  show "r \<in> set (alert_states d) \<or> alert_ok r" if "r \<in> set (alert_states d')" for r
    using that assms(3) unfolding assms(7) by (auto simp: store_alert_state_def dest: set_update_row)
qed (simp add: assms(9))

lemma acknowledge_keeps_quality:
  assumes "acknowledge_quality_alert x project metric txt actor d = Inr (d', q')" "quality_ok d"
  shows "quality_ok d'"
  using assms(1)
proof (rule acknowledge_quality_alert_Inr)
  fix q assume q: "find_alert_state project metric d = Some q" "qs_status q \<in> {Alert_WARNING, Alert_CRITICAL}"
    and q': "q' = q\<lparr>qs_acknowledged_at := Some (txn_now x), qs_acknowledged_by := Some actor, qs_note := Some txt\<rparr>"
    and rows: "alert_states d' = alert_states (store_alert_state q' d)" "webhook_deliveries d' = webhook_deliveries d"
      "webhook_configs d' = webhook_configs d"
  have "alert_ok q" using assms(2) find_alert_stateD [OF q(1)] by (simp add: quality_ok_def)
  with q(2) have "alert_ok q'" by (simp add: alert_ok_def q')
  then show ?thesis by (rule stored_alert_keeps_quality [OF assms(2) q(1)]) (simp_all add: q' rows)
qed

subsection \<open>The machine of an alert\<close>

text \<open>
  What an event says of an alert: it was quiet and is raised to at least the minimum, it got worse,
  it got better (and is forgotten below the minimum), or it is over.
\<close>

fun alert_moves :: "alert_status \<Rightarrow> alert_status option \<Rightarrow> webhook_event \<Rightarrow> alert_status option \<Rightarrow> bool" where
  "alert_moves minimum a Alert_triggered b \<longleftrightarrow> a = None \<and> (\<exists>s. b = Some s \<and> alert_rank minimum \<le> alert_rank s)"
| "alert_moves minimum a Alert_escalated b \<longleftrightarrow> (\<exists>s t. a = Some s \<and> b = Some t \<and> alert_rank s < alert_rank t)"
| "alert_moves minimum a Alert_deescalated b \<longleftrightarrow> (\<exists>s. a = Some s
     \<and> (case b of None \<Rightarrow> True | Some t \<Rightarrow> alert_rank t < alert_rank s \<and> alert_rank minimum \<le> alert_rank t))"
| "alert_moves minimum a Alert_recovered b \<longleftrightarrow> a \<noteq> None \<and> b = None"
| "alert_moves minimum a Alert_test b \<longleftrightarrow> False"

lemma decide_moves:
  "ad_event (decide_quality_alert_event s a minimum cooldown moment) = Some event
     \<Longrightarrow> alert_moves minimum a event (ad_active (decide_quality_alert_event s a minimum cooldown moment))"
  by (auto simp: decide_quality_alert_event_def decision_def split: if_split_asm option.split_asm)

lemma decide_quiet:
  "ad_event (decide_quality_alert_event s a minimum cooldown moment) = None
     \<Longrightarrow> ad_active (decide_quality_alert_event s a minimum cooldown moment) = a"
  by (auto simp: decide_quality_alert_event_def decision_def split: if_split_asm option.split_asm)

lemma decide_active:
  assumes "minimum \<in> {Alert_WARNING, Alert_CRITICAL}" "a \<in> {None, Some Alert_WARNING, Some Alert_CRITICAL}"
  shows "ad_active (decide_quality_alert_event s a minimum cooldown moment) \<in> {None, Some Alert_WARNING, Some Alert_CRITICAL}"
  using assms by (cases s) (auto simp: decide_quality_alert_event_def decision_def)

text \<open>
  A signal notifies once.  After an evaluation decided to send an event, the same signal decides
  no further event, whatever the clock and the cooldown; an event is a move of the alert's machine
  and no event leaves the machine where it is; an alert is raised only when its cooldown is over
  and the drop reaches the configured minimum, and missing data never notifies.
\<close>

lemma signal_notifies_once:
  assumes "ad_event (decide_quality_alert_event s a minimum cooldown moment) = Some event"
    and "minimum \<in> {Alert_WARNING, Alert_CRITICAL}"
  shows "ad_event (decide_quality_alert_event s (ad_active (decide_quality_alert_event s a minimum cooldown moment))
      minimum cooldown' moment') = None
    \<and> alert_moves minimum a event (ad_active (decide_quality_alert_event s a minimum cooldown moment))
    \<and> s \<noteq> Alert_NO_DATA
    \<and> (event = Alert_triggered \<longrightarrow> alert_rank minimum \<le> alert_rank s \<and> (\<forall>t. cooldown = Some t \<longrightarrow> t \<le> moment))"
proof -
  have "s \<noteq> Alert_NO_DATA" "event = Alert_triggered \<longrightarrow> alert_rank minimum \<le> alert_rank s \<and> (\<forall>t. cooldown = Some t \<longrightarrow> t \<le> moment)"
    using assms(1) by (auto simp: decide_quality_alert_event_def decision_def split: if_split_asm option.split_asm)
  moreover have "ad_event (decide_quality_alert_event s (ad_active (decide_quality_alert_event s a minimum cooldown moment))
      minimum cooldown' moment') = None"
    using assms by (cases s; cases a) (auto simp: decide_quality_alert_event_def decision_def split: if_split_asm)
  ultimately show ?thesis using decide_moves [OF assms(1)] by blast
qed

subsection \<open>One signal\<close>

lemma observed_state_key [simp]:
  "qs_project (observed_state x p c sg d) = p_id p" "qs_metric (observed_state x p c sg d) = sg_metric sg"
  by (auto simp: observed_state_def new_alert_state_def observe_signal_def unacknowledged_def Let_def
      dest: find_alert_stateD split: option.split)

lemma observed_state_columns:
  "qs_status (observed_state x p c sg d) = sg_status sg"
  "qs_sequence (observed_state x p c sg d) = notifications (p_id p) (sg_metric sg) d"
  "qs_active (observed_state x p c sg d) = active_alert (p_id p) (sg_metric sg) d"
  by (auto simp: observed_state_def new_alert_state_def observe_signal_def unacknowledged_def Let_def
      notifications_def active_alert_def split: option.split)

lemma observed_state_ok:
  assumes "\<forall>q\<in>set (alert_states d). alert_ok q"
  shows "alert_ok (observed_state x p c sg d)"
proof (cases "find_alert_state (p_id p) (sg_metric sg) d")
  case None
  then show ?thesis by (simp add: observed_state_def new_alert_state_def alert_ok_def)
next
  case (Some q)
  then have "alert_ok q" using assms find_alert_stateD by blast
  with Some show ?thesis
    by (auto simp: observed_state_def observe_signal_def unacknowledged_def alert_ok_def Let_def)
qed

lemma notified_state_columns [simp]:
  "qs_project (notified_state x w dec i q) = qs_project q" "qs_metric (notified_state x w dec i q) = qs_metric q"
  "qs_sequence (notified_state x w dec i q) = qs_sequence q + 1" "qs_active (notified_state x w dec i q) = ad_active dec"
  by (simp_all add: notified_state_def unacknowledged_def Let_def)

lemma queue_alert_Inr:
  assumes "queue_alert x w p c sg previous dec event q d = Inr d'"
  obtains i v where "wd_key v = Key_alert (p_id p) (sg_metric sg) (qs_sequence q + 1) (qs_fingerprint q)"
    "wd_event v = event" "wd_status v = Delivery_PENDING" "wd_delivered_at v = None" "wd_replay_of v = None"
    "alert_states d' = alert_states (put_alert_state (notified_state x w dec i q) d)"
    "webhook_deliveries d' = webhook_deliveries d @ [v]" "webhook_configs d' = webhook_configs d"
    "projects d' = projects d" "same_run_tables d d'"
proof -
  have states: "alert_states (store_alert_state r' (put_alert_state r (d\<lparr>webhook_deliveries := vs\<rparr>))) =
      alert_states (store_alert_state r' (put_alert_state r d))" for r r' vs
    by (simp add: put_alert_state_def store_alert_state_def find_alert_state_def)
  have "alert_states (store_alert_state (notified_state x w dec i q) (put_alert_state q (d\<lparr>webhook_deliveries := vs\<rparr>)))
      = alert_states (put_alert_state (notified_state x w dec i q) d)" for i vs
    unfolding states by (rule store_after_put) simp_all
  with assms show thesis
    unfolding queue_alert_def Let_def
    by (elim bind_outcome_InrE) (auto simp: commit_Inr_iff new_delivery_def intro!: that)
qed

lemma evaluate_signal_Inr:
  assumes "evaluate_signal x w p c sg (d, n) = Inr (d', n')"
  obtains (kept) "alert_states d' = alert_states (put_alert_state (observed_state x p c sg d) d)"
      "webhook_deliveries d' = webhook_deliveries d" "webhook_configs d' = webhook_configs d" "projects d' = projects d"
      "same_run_tables d d'"
  | (notified) q dec event i v where "q = observed_state x p c sg d"
      "dec = decide_quality_alert_event (sg_status sg) (qs_active q) (wc_minimum w) (qs_cooldown_until q) (txn_now x)"
      "ad_event dec = Some event" "\<not> silence_active w (txn_now x)"
      "wd_key v = Key_alert (p_id p) (sg_metric sg) (qs_sequence q + 1) (qs_fingerprint q)" "wd_event v = event"
      "wd_status v = Delivery_PENDING" "wd_delivered_at v = None" "wd_replay_of v = None"
      "alert_states d' = alert_states (put_alert_state (notified_state x w dec i q) d)"
      "webhook_deliveries d' = webhook_deliveries d @ [v]" "webhook_configs d' = webhook_configs d"
      "projects d' = projects d" "same_run_tables d d'"
proof -
  let ?q = "observed_state x p c sg d"
  let ?dec = "decide_quality_alert_event (sg_status sg) (qs_active ?q) (wc_minimum w) (qs_cooldown_until ?q) (txn_now x)"
  note call = assms [unfolded evaluate_signal_def Let_def prod.case]
  show thesis
  proof (cases "ad_event ?dec = None \<or> silence_active w (txn_now x)")
    case True
    with call have "alert_states d' = alert_states (put_alert_state ?q d) \<and> webhook_deliveries d' = webhook_deliveries d
        \<and> webhook_configs d' = webhook_configs d \<and> projects d' = projects d \<and> same_run_tables d d'"
      by (cases "ad_event ?dec"; simp split: if_split_asm; (elim conjE; hypsubst; simp)?)
    then show thesis by (elim conjE) (rule kept)
  next
    case False
    then obtain event where event: "ad_event ?dec = Some event" by auto
    from call event False obtain d1 where d1: "queue_alert x w p c sg (case find_alert_state (p_id p) (sg_metric sg) d of
        None \<Rightarrow> Alert_NO_DATA | Some q \<Rightarrow> qs_status q) ?dec event ?q d = Inr d1" and "d' = d1"
      by (auto elim!: bind_outcome_InrE)
    then show thesis
      using event False by (elim queue_alert_Inr) (intro notified [of ?q ?dec event], simp_all)
  qed
qed

definition announces ::
  "instant \<Rightarrow> webhook_config_row set \<Rightarrow> uuid \<Rightarrow> alert_metric \<Rightarrow> nat \<Rightarrow> alert_status option \<Rightarrow> alert_status option
   \<Rightarrow> webhook_delivery_row \<Rightarrow> bool" where
  "announces moment ws p m n a b v \<longleftrightarrow> wd_status v = Delivery_PENDING \<and> (\<exists>g. wd_key v = Key_alert p m n g)
     \<and> (\<exists>w\<in>ws. wc_project w = p \<and> wc_enabled w \<and> \<not> silence_active w moment
          \<and> alert_moves (wc_minimum w) a (wd_event v) b)"

definition alert_advanced :: "instant \<Rightarrow> webhook_config_row set \<Rightarrow> db \<Rightarrow> db \<Rightarrow> uuid \<Rightarrow> alert_metric \<Rightarrow> bool" where
  "alert_advanced moment ws d d' p m \<longleftrightarrow>
     notifications p m d' = notifications p m d \<and> active_alert p m d' = active_alert p m d
     \<or> notifications p m d' = notifications p m d + 1
       \<and> (\<exists>v\<in>set (webhook_deliveries d').
            announces moment ws p m (notifications p m d') (active_alert p m d) (active_alert p m d') v)"

text \<open>The alerts of \<open>S\<close> follow their machine, the others stay.\<close>

definition alerts_follow :: "(uuid \<times> alert_metric) set \<Rightarrow> instant \<Rightarrow> webhook_config_row set \<Rightarrow> db \<Rightarrow> db \<Rightarrow> bool" where
  "alerts_follow S moment ws d d' \<longleftrightarrow> same_run_tables d d' \<and> projects d' = projects d
     \<and> set (webhook_deliveries d) \<subseteq> set (webhook_deliveries d')
     \<and> (\<forall>p m. if (p, m) \<in> S then alert_advanced moment ws d d' p m else find_alert_state p m d' = find_alert_state p m d)"

lemma alerts_follow_refl: "alerts_follow {} moment ws d d"
  by (simp add: alerts_follow_def)

lemma alert_columns_cong:
  assumes "find_alert_state p m d' = find_alert_state p m d"
  shows "notifications p m d' = notifications p m d" "active_alert p m d' = active_alert p m d"
  by (simp_all add: notifications_def active_alert_def assms)

lemma alerts_follow_trans:
  assumes "alerts_follow S moment ws d d1" "alerts_follow T moment ws d1 d2" "S \<inter> T = {}"
  shows "alerts_follow (S \<union> T) moment ws d d2"
proof -
  have "alert_advanced moment ws d d2 p m" if "(p, m) \<in> S" for p m
  proof -
    have "find_alert_state p m d2 = find_alert_state p m d1" "alert_advanced moment ws d d1 p m"
      using assms that unfolding alerts_follow_def by (metis disjoint_iff)+
    then show ?thesis
      using assms(2) alert_columns_cong [of p m d2 d1] unfolding alert_advanced_def alerts_follow_def
      by (metis subset_iff)
  qed
  moreover have "alert_advanced moment ws d d2 p m" if "(p, m) \<in> T" for p m
  proof -
    have "find_alert_state p m d1 = find_alert_state p m d" "alert_advanced moment ws d1 d2 p m"
      using assms that unfolding alerts_follow_def by (metis disjoint_iff)+
    then show ?thesis
      using alert_columns_cong [of p m d1 d] unfolding alert_advanced_def by auto
  qed
  moreover have "find_alert_state p m d2 = find_alert_state p m d" if "(p, m) \<notin> S \<union> T" for p m
    using assms(1,2) that unfolding alerts_follow_def by (metis UnCI)
  ultimately show ?thesis
    using assms(1,2) same_run_tables_trans [of d d1 d2] unfolding alerts_follow_def by auto
qed

lemma evaluate_signal_follows:
  assumes "evaluate_signal x w p c sg (d, n) = Inr (d', n')" "w \<in> ws" "wc_project w = p_id p" "wc_enabled w"
  shows "alerts_follow {(p_id p, sg_metric sg)} (txn_now x) ws d d'"
  using assms(1)
proof (cases rule: evaluate_signal_Inr)
  case kept
  have "find_alert_state p' m d' = find_alert_state p' m (put_alert_state (observed_state x p c sg d) d)" for p' m
    by (simp add: find_alert_state_def kept(1))
  then show ?thesis
    using kept(2-5) by (auto simp: alerts_follow_def alert_advanced_def notifications_def active_alert_def find_put_alert
        observed_state_columns [unfolded notifications_def active_alert_def])
next
  case (notified q dec event i v)
  have found: "find_alert_state p' m d' = find_alert_state p' m (put_alert_state (notified_state x w dec i q) d)" for p' m
    by (simp add: find_alert_state_def notified(10))
  have q: "qs_project q = p_id p" "qs_metric q = sg_metric sg"
    "qs_sequence q = notifications (p_id p) (sg_metric sg) d" "qs_active q = active_alert (p_id p) (sg_metric sg) d"
    by (simp_all add: notified(1) observed_state_columns)
  have now: "notifications (p_id p) (sg_metric sg) d' = qs_sequence q + 1" "active_alert (p_id p) (sg_metric sg) d' = ad_active dec"
    by (simp_all add: notifications_def active_alert_def found find_put_alert q(1,2))
  have "alert_moves (wc_minimum w) (qs_active q) (wd_event v) (ad_active dec)"
    unfolding notified(2,6) by (rule decide_moves) (use notified(2,3) in simp)
  then have "announces (txn_now x) ws (p_id p) (sg_metric sg) (qs_sequence q + 1) (qs_active q) (ad_active dec) v"
    using assms(2-4) notified(4,5,7) unfolding announces_def by blast
  then have "alert_advanced (txn_now x) ws d d' (p_id p) (sg_metric sg)"
    unfolding alert_advanced_def now by (simp add: q(3,4) notified(11))
  then show ?thesis
    using notified(11-14) by (auto simp: alerts_follow_def found find_put_alert q(1,2))
qed

lemma evaluate_signal_keeps:
  assumes "evaluate_signal x w p c sg (d, n) = Inr (d', n')" "quality_ok d" "config_ok w"
  shows "quality_ok d' \<and> webhook_configs d' = webhook_configs d"
  using assms(1)
proof (cases rule: evaluate_signal_Inr)
  case kept
  have ok: "alert_ok (observed_state x p c sg d)" using assms(2) observed_state_ok by (simp add: quality_ok_def)
  have "find_alert_state p' m d' = find_alert_state p' m (put_alert_state (observed_state x p c sg d) d)" for p' m
    by (simp add: find_alert_state_def kept(1))
  then have "notifications p' m d' = notifications p' m d" for p' m
    by (auto simp: notifications_def find_put_alert observed_state_columns [unfolded notifications_def])
  then show ?thesis
    using ok set_put_alert [of _ "observed_state x p c sg d" d]
    by (intro conjI kept(3) quality_ok_step [OF assms(2) kept(2)]) (auto simp: kept(1,3))
next
  case (notified q dec event i v)
  have "alert_ok q" using assms(2) observed_state_ok by (simp add: notified(1) quality_ok_def)
  moreover from this have "ad_active dec \<in> {None, Some Alert_WARNING, Some Alert_CRITICAL}"
    unfolding notified(2) using assms(3) by (intro decide_active) (simp_all add: alert_ok_def config_ok_def)
  ultimately have ok: "alert_ok (notified_state x w dec i q)"
    by (auto simp: alert_ok_def notified_state_def unacknowledged_def Let_def)
  have "find_alert_state p' m d' = find_alert_state p' m (put_alert_state (notified_state x w dec i q) d)" for p' m
    by (simp add: find_alert_state_def notified(10))
  then have seq: "notifications p' m d' = notifications p' m d + (if p' = p_id p \<and> m = sg_metric sg then 1 else 0)" for p' m
    by (auto simp: notifications_def find_put_alert notified(1) observed_state_columns [unfolded notifications_def])
  have q_seq: "qs_sequence q = notifications (p_id p) (sg_metric sg) d" by (simp add: notified(1) observed_state_columns)
  have "numbered d'"
    using assms(2) unfolding numbered_def quality_ok_def
    by (auto simp: notified(5,11) seq q_seq alert_numbers_def)
  moreover have "delivery_ok (webhook_deliveries d') u" if "u \<in> set (webhook_deliveries d')" for u
    using that assms(2) delivery_ok_more [of "webhook_deliveries d" u "webhook_deliveries d'"] notified(5-9)
    by (auto simp: notified(11) quality_ok_def delivery_ok_def delivery_settled_def)
  moreover have "alert_ok r" if "r \<in> set (alert_states d')" for r
    using that ok assms(2) set_put_alert [of r "notified_state x w dec i q" d] by (auto simp: notified(10) quality_ok_def)
  ultimately show ?thesis using assms(2) notified(12) by (simp add: quality_ok_def)
qed

subsection \<open>A batch of evaluations\<close>

lemma evaluate_signals_follow:
  assumes "evaluate_signals x w p c sgs (d, n) = Inr (d', n')" "distinct (map sg_metric sgs)"
    and "w \<in> ws" "wc_project w = p_id p" "wc_enabled w"
  shows "alerts_follow ({p_id p} \<times> sg_metric ` set sgs) (txn_now x) ws d d'"
  using assms(1,2)
proof (induction sgs arbitrary: d n)
  case (Cons sg sgs)
  from Cons.prems(1) obtain d1 n1 where one: "evaluate_signal x w p c sg (d, n) = Inr (d1, n1)"
    and rest: "evaluate_signals x w p c sgs (d1, n1) = Inr (d', n')"
    by (auto elim: bind_outcome_InrE)
  have "alerts_follow ({(p_id p, sg_metric sg)} \<union> {p_id p} \<times> sg_metric ` set sgs) (txn_now x) ws d d'"
    using Cons.prems(2) by (intro alerts_follow_trans [OF evaluate_signal_follows [OF one assms(3-5)] Cons.IH [OF rest]]) auto
  moreover have "{(p_id p, sg_metric sg)} \<union> {p_id p} \<times> sg_metric ` set sgs = {p_id p} \<times> sg_metric ` set (sg # sgs)"
    by auto
  ultimately show ?case by simp
qed (simp add: alerts_follow_refl)

lemma evaluate_signals_keep:
  assumes "evaluate_signals x w p c sgs (d, n) = Inr (d', n')" "quality_ok d" "config_ok w"
  shows "quality_ok d' \<and> webhook_configs d' = webhook_configs d"
  using assms(1,2)
proof (induction sgs arbitrary: d n)
  case (Cons sg sgs)
  from Cons.prems(1) obtain d1 n1 where one: "evaluate_signal x w p c sg (d, n) = Inr (d1, n1)"
    and rest: "evaluate_signals x w p c sgs (d1, n1) = Inr (d', n')"
    by (auto elim: bind_outcome_InrE)
  with evaluate_signal_keeps [OF one Cons.prems(2) assms(3)] Cons.IH [OF rest] show ?case by simp
qed simp

lemma comparison_signals:
  "calculate_quality_comparison p days f moment d = Inr c
    \<Longrightarrow> map sg_metric (cmp_signals (cs_comparison c)) = [RUN_PASS_RATE, CASE_PASS_RATE, EXECUTION_RELIABILITY]"
  by (auto simp: calculate_quality_comparison_def Let_def quality_change_signal_def split: if_split_asm option.split)

lemma evaluate_project_Inr:
  assumes "evaluate_project x w p (d, n) = Inr (d', n')"
  obtains c where "map sg_metric (cmp_signals (cs_comparison c)) = [RUN_PASS_RATE, CASE_PASS_RATE, EXECUTION_RELIABILITY]"
    "evaluate_signals x w p c (cmp_signals (cs_comparison c)) (d, n) = Inr (d', n')"
  using assms unfolding evaluate_project_def by (auto elim!: bind_outcome_InrE dest: comparison_signals)

lemma evaluate_project_follows:
  assumes "evaluate_project x w p (d, n) = Inr (d', n')" "w \<in> ws" "wc_project w = p_id p" "wc_enabled w"
  shows "alerts_follow ({p_id p} \<times> UNIV) (txn_now x) ws d d'"
  using assms(1)
proof (rule evaluate_project_Inr)
  fix c assume metrics: "map sg_metric (cmp_signals (cs_comparison c)) = [RUN_PASS_RATE, CASE_PASS_RATE, EXECUTION_RELIABILITY]"
    and call: "evaluate_signals x w p c (cmp_signals (cs_comparison c)) (d, n) = Inr (d', n')"
  have "sg_metric ` set (cmp_signals (cs_comparison c)) = set [RUN_PASS_RATE, CASE_PASS_RATE, EXECUTION_RELIABILITY]"
    by (simp add: metrics flip: set_map)
  also have "\<dots> = UNIV" by (auto intro: alert_metric.exhaust)
  finally show ?thesis using evaluate_signals_follow [OF call _ assms(2-4)] by (simp add: metrics)
qed

lemma alerts_follow_configs:
  "alerts_follow S moment ws (d\<lparr>webhook_configs := cs\<rparr>) d' \<longleftrightarrow> alerts_follow S moment ws d d'"
proof -
  have find: "find_alert_state p m (d\<lparr>webhook_configs := cs\<rparr>) = find_alert_state p m d" for p m
    by (simp add: find_alert_state_def)
  have "alert_advanced moment ws (d\<lparr>webhook_configs := cs\<rparr>) d' p m = alert_advanced moment ws d d' p m" for p m
    by (simp add: alert_advanced_def notifications_def active_alert_def find)
  then show ?thesis by (simp add: alerts_follow_def find same_run_tables_def)
qed

text \<open>The webhook of a project is enabled and sound while the batch runs.\<close>

definition evaluable :: "webhook_config_row list \<Rightarrow> db \<Rightarrow> bool" where
  "evaluable ws d \<longleftrightarrow> (\<forall>w\<in>set ws. config_ok w \<and> wc_enabled w
     \<and> (\<forall>v\<in>set (webhook_configs d). wc_id v = wc_id w \<longrightarrow> wc_enabled v))"

lemma evaluable_update:
  assumes "evaluable ws d"
  shows "evaluable ws (d\<lparr>webhook_configs := update_row wc_id i (evaluated_config moment next_at) (webhook_configs d)\<rparr>)"
proof -
  have "wc_id (evaluated_config moment next_at r) = wc_id r" "wc_enabled (evaluated_config moment next_at r) = wc_enabled r" for r
    by (simp_all add: evaluated_config_def)
  with assms show ?thesis by (auto simp: evaluable_def update_row_def in_set_update_where split: if_split_asm)
qed

lemma config_ok_evaluated: "config_ok u \<Longrightarrow> wc_enabled u \<Longrightarrow> config_ok (evaluated_config moment next_at u)"
  by (auto simp: config_ok_def evaluated_config_def)

lemma evaluate_configs_keep:
  assumes "evaluate_configs xs moment next_at ws (d, n, k) = Inr (d', n', k')"
    and "quality_ok d" "evaluable ws d" "distinct (map wc_project ws)" "set ws \<subseteq> W"
  shows "quality_ok d' \<and> alerts_follow {(p, m). p \<in> wc_project ` set ws \<and> p \<in> p_id ` set (projects d)} moment W d d'"
  using assms
proof (induction ws arbitrary: d n k)
  case (Cons w ws)
  show ?case
  proof (cases "lookup_row p_id (wc_project w) (projects d)")
    case None
    then have "{(p, m :: alert_metric). p \<in> wc_project ` set (w # ws) \<and> p \<in> p_id ` set (projects d)}
        = {(p, m). p \<in> wc_project ` set ws \<and> p \<in> p_id ` set (projects d)}"
      by (auto simp: lookup_row_None_iff) (metis image_eqI)
    with None Cons.prems Cons.IH [of d n k] show ?thesis by (simp add: evaluable_def)
  next
    case (Some p)
    note p = lookup_row_SomeD [OF Some]
    let ?x = "(xs (wc_project w))\<lparr>txn_now := moment\<rparr>"
    from Cons.prems(1) Some obtain d1 n1 where one: "evaluate_project ?x w p (d, n) = Inr (d1, n1)"
      and rest: "evaluate_configs xs moment next_at ws (d1\<lparr>webhook_configs := update_row wc_id (wc_id w)
          (evaluated_config moment next_at) (webhook_configs d1)\<rparr>, n1, k + 1) = Inr (d', n', k')"
      by (auto elim: bind_outcome_InrE)
    let ?d2 = "d1\<lparr>webhook_configs := update_row wc_id (wc_id w) (evaluated_config moment next_at) (webhook_configs d1)\<rparr>"
    have w: "config_ok w" "wc_enabled w" "w \<in> W" using Cons.prems(3,5) by (simp_all add: evaluable_def)
    have d1: "quality_ok d1" "webhook_configs d1 = webhook_configs d"
      using evaluate_project_Inr [OF one] evaluate_signals_keep [OF _ Cons.prems(2) w(1)] by metis+
    have follows: "alerts_follow ({wc_project w} \<times> UNIV) moment W d d1"
      using evaluate_project_follows [OF one w(3) _ w(2)] p by simp
    have "evaluable ws ?d2"
      by (rule evaluable_update) (use Cons.prems(3) d1(2) in \<open>simp add: evaluable_def\<close>)
    moreover have "config_ok v" if "v \<in> set (webhook_configs ?d2)" for v
    proof -
      obtain u where "u \<in> set (webhook_configs d)" "v = (if wc_id u = wc_id w then evaluated_config moment next_at u else u)"
        using \<open>v \<in> set (webhook_configs ?d2)\<close> by (auto simp: update_row_def in_set_update_where d1(2))
      moreover from this have "config_ok u" using Cons.prems(2) by (simp add: quality_ok_def)
      moreover have "wc_enabled u" if "wc_id u = wc_id w"
        using Cons.prems(3) \<open>u \<in> set (webhook_configs d)\<close> that by (simp add: evaluable_def)
      ultimately show ?thesis using config_ok_evaluated by presburger
    qed
    then have "quality_ok ?d2"
      by (intro quality_ok_step [OF d1(1)]) (simp_all add: notifications_def find_alert_state_def)
    ultimately have IH: "quality_ok d'"
        "alerts_follow {(q, m). q \<in> wc_project ` set ws \<and> q \<in> p_id ` set (projects d)} moment W ?d2 d'"
      using Cons.IH [OF rest] Cons.prems(4,5) follows by (auto simp: alerts_follow_def)
    have "alerts_follow {(q, m). q \<in> wc_project ` set ws \<and> q \<in> p_id ` set (projects d)} moment W d1 d'"
      using IH(2) by (simp only: alerts_follow_configs)
    then have "alerts_follow ({wc_project w} \<times> UNIV \<union> {(q, m). q \<in> wc_project ` set ws \<and> q \<in> p_id ` set (projects d)}) moment W d d'"
      using Cons.prems(4) by (intro alerts_follow_trans [OF follows]) auto
    moreover have "{wc_project w} \<times> UNIV \<union> {(q, m :: alert_metric). q \<in> wc_project ` set ws \<and> q \<in> p_id ` set (projects d)}
        = {(q, m). q \<in> wc_project ` set (w # ws) \<and> q \<in> p_id ` set (projects d)}"
      using p by auto (metis image_eqI)
    ultimately show ?thesis using IH(1) by simp
  qed
qed (simp add: alerts_follow_def)

lemma due_configs_set:
  "w \<in> set (due_configs busy limit moment d) \<Longrightarrow> w \<in> set (webhook_configs d) \<and> wc_enabled w"
  unfolding due_configs_def by (auto dest!: in_set_takeD simp: evaluation_due_def)

lemma due_configs_distinct:
  assumes "unique_ok d"
  shows "distinct (map wc_project (due_configs busy limit moment d))"
proof -
  have "distinct (map wc_project (webhook_configs d))"
    using assms by (simp add: unique_ok_def unique_quality_def unique_on_def)
  then have "distinct (map wc_project (filter P (webhook_configs d)))" for P by (rule distinct_map_filter)
  then have "distinct (map wc_project (sort_key f (sort_key g (filter P (webhook_configs d)))))" for f :: "webhook_config_row \<Rightarrow> int" and g :: "webhook_config_row \<Rightarrow> nat" and P
    by (simp add: distinct_map)
  then show ?thesis unfolding due_configs_def by (simp only: distinct_take flip: take_map)
qed

lemma evaluate_batch_follows:
  assumes "evaluate_quality_alert_batch xs busy limit interval moment d = Inr (d', s)" "quality_ok d" "unique_ok d"
  shows "quality_ok d' \<and> unique_ok d'
    \<and> alerts_follow {(p, m). p \<in> wc_project ` set (due_configs busy limit moment d) \<and> p \<in> p_id ` set (projects d)}
        moment (set (webhook_configs d)) d d'"
proof -
  obtain n k where call: "evaluate_configs xs moment (moment + microseconds interval) (due_configs busy limit moment d)
      (d, \<lparr>ac_transitions = 0, ac_queued = 0, ac_cooldown = 0, ac_silenced = 0\<rparr>, 0) = Inr (d', n, k)" and "unique_ok d'"
    using assms(1) unfolding evaluate_quality_alert_batch_def Let_def
    by (auto elim!: bind_outcome_InrE commit_bind_InrE split: if_split_asm)
  moreover have "evaluable (due_configs busy limit moment d) d"
  proof -
    have "unique_on wc_id (webhook_configs d)" using assms(3) by (simp add: unique_ok_def unique_quality_def)
    have "config_ok w \<and> wc_enabled w \<and> (\<forall>v\<in>set (webhook_configs d). wc_id v = wc_id w \<longrightarrow> wc_enabled v)"
      if "w \<in> set (due_configs busy limit moment d)" for w
    proof -
      have w: "w \<in> set (webhook_configs d)" "wc_enabled w" using due_configs_set [OF that] by simp_all
      moreover have "wc_enabled v" if "v \<in> set (webhook_configs d)" "wc_id v = wc_id w" for v
        using unique_on_eq [OF \<open>unique_on wc_id (webhook_configs d)\<close> that(1) w(1) that(2)] w(2) by simp
      ultimately show ?thesis using assms(2) by (simp add: quality_ok_def)
    qed
    then show ?thesis by (simp add: evaluable_def)
  qed
  ultimately show ?thesis
    using evaluate_configs_keep [OF call assms(2) _ due_configs_distinct [OF assms(3)]] due_configs_set by blast
qed

subsection \<open>The services leave runs alone\<close>

lemma send_each_same: "same_run_tables d (fst (send_each send max_attempts moment vs (d, t)))"
  by (induction vs arbitrary: d t) (auto simp: case_prod_beta same_run_tables_def)

lemma dispatch_quality_webhook_batch_same:
  assumes "dispatch_quality_webhook_batch send busy limit max_attempts moment d = Inr (d', t)"
  shows "same_run_tables d d'" "unique_ok d'"
  using dispatch_quality_webhook_batch_Inr [OF assms] send_each_same by (metis fst_conv, simp)

lemma evaluate_signals_same:
  "evaluate_signals x w p c sgs (d, n) = Inr (d', n') \<Longrightarrow> same_run_tables d d'"
proof (induction sgs arbitrary: d n)
  case (Cons sg sgs)
  from Cons.prems obtain d1 n1 where one: "evaluate_signal x w p c sg (d, n) = Inr (d1, n1)"
    and rest: "evaluate_signals x w p c sgs (d1, n1) = Inr (d', n')"
    by (auto elim: bind_outcome_InrE)
  have "same_run_tables d d1" using one by (rule evaluate_signal_Inr)
  with Cons.IH [OF rest] show ?case by (rule same_run_tables_trans [rotated])
qed simp

lemma evaluate_configs_same:
  "evaluate_configs xs moment next_at ws (d, n, k) = Inr (d', n', k') \<Longrightarrow> same_run_tables d d'"
proof (induction ws arbitrary: d n k)
  case (Cons w ws)
  show ?case
  proof (cases "lookup_row p_id (wc_project w) (projects d)")
    case None
    with Cons show ?thesis by simp
  next
    case (Some p)
    with Cons.prems obtain d1 n1 where one: "evaluate_project ((xs (wc_project w))\<lparr>txn_now := moment\<rparr>) w p (d, n) = Inr (d1, n1)"
      and rest: "evaluate_configs xs moment next_at ws (d1\<lparr>webhook_configs := update_row wc_id (wc_id w)
          (evaluated_config moment next_at) (webhook_configs d1)\<rparr>, n1, k + 1) = Inr (d', n', k')"
      by (auto elim: bind_outcome_InrE)
    have "same_run_tables d d1" using one by (auto elim: evaluate_project_Inr dest: evaluate_signals_same)
    with Cons.IH [OF rest] show ?thesis by (simp add: same_run_tables_def)
  qed
qed simp

lemma evaluate_quality_alert_batch_same:
  assumes "evaluate_quality_alert_batch xs busy limit interval moment d = Inr (d', s)"
  shows "same_run_tables d d'" "unique_ok d'"
  using assms unfolding evaluate_quality_alert_batch_def Let_def
  by (auto elim!: bind_outcome_InrE commit_bind_InrE dest: evaluate_configs_same split: if_split_asm)

lemma quality_call_commits:
  assumes "quality_call d d'"
  shows "same_run_tables d d' \<and> (unique_ok d \<longrightarrow> unique_ok d')"
  using assms
proof (cases rule: quality_call.cases)
  case Policy_update
  note rows = update_quality_policy_Inr [OF this]
  show ?thesis by (simp add: rows)
next
  case Webhook_configure
  from this(1) show ?thesis by (rule update_quality_webhook_config_Inr) simp
next
  case Alert_silence
  then show ?thesis by (rule set_quality_alert_silence_Inr) simp
next
  case Alert_unsilence
  then show ?thesis by (cases rule: clear_quality_alert_silence_Inr) simp_all
next
  case Webhook_test
  then show ?thesis by (rule enqueue_quality_webhook_test_Inr) simp
next
  case Webhook_replay
  then show ?thesis by (rule replay_failed_quality_webhook_delivery_Inr) simp
next
  case Alert_acknowledge
  then show ?thesis by (rule acknowledge_quality_alert_Inr) simp
next
  case Alert_unacknowledge
  then show ?thesis by (cases rule: clear_quality_alert_acknowledgement_Inr) simp_all
next
  case Webhook_dispatch
  with dispatch_quality_webhook_batch_same [OF this] show ?thesis by simp
next
  case Alert_evaluate
  with evaluate_quality_alert_batch_same [OF this] show ?thesis by simp
qed

interpretation quality_services: side_service quality_call
  by unfold_locales (use quality_call_commits in blast)+

subsection \<open>The invariant is kept\<close>

text \<open>
  C39: the tables of quality alerts stay consistent.  Every service and worker step keeps the invariant:
  a webhook has a next evaluation exactly while it is enabled and an alert state is acknowledged
  only while it is a warning or critical; a delivery is pending, delivered with a 2xx answer, or
  failed with a reason, a replay repeats the payload of a failed delivery; and the deliveries of
  an alert are numbered 1, 2, 3 without a gap, up to the number of its notifications.
\<close>

theorem quality_preserved:
  assumes "quality_call d d'" and "unique_ok d" and "quality_ok d"
  shows "quality_ok d'"
  using assms(1)
proof (cases rule: quality_call.cases)
  case Policy_update
  note rows = update_quality_policy_Inr [OF this]
  show ?thesis by (rule quality_ok_step [OF assms(3)]) (simp_all add: rows notifications_cong [of d' d])
next
  case Webhook_configure
  then show ?thesis by (rule configure_keeps_quality [OF _ _ assms(3)])
next
  case Alert_silence
  then show ?thesis
  proof (rule set_quality_alert_silence_Inr)
  qed (rule stored_config_keeps_quality [OF assms(3)], assumption+, simp add: config_ok_def)
next
  case Alert_unsilence
  then show ?thesis
  proof (cases rule: clear_quality_alert_silence_Inr)
    case (cleared w)
    then show ?thesis
      by (intro stored_config_keeps_quality [OF assms(3) cleared(1,3)]) (simp_all add: config_ok_def)
  qed (simp add: assms(3))
next
  case Webhook_test
  then show ?thesis
    by (rule enqueue_quality_webhook_test_Inr)
      (rule quality_ok_delivery [OF assms(3)], assumption, simp_all add: delivery_ok_def delivery_settled_def new_delivery_def)
next
  case Webhook_replay
  then show ?thesis
    by (rule replay_failed_quality_webhook_delivery_Inr)
      (rule quality_ok_delivery [OF assms(3)], assumption,
        auto simp: delivery_ok_def delivery_settled_def new_delivery_def replays_def)
next
  case Alert_acknowledge
  then show ?thesis by (rule acknowledge_keeps_quality [OF _ assms(3)])
next
  case Alert_unacknowledge
  then show ?thesis
  proof (cases rule: clear_quality_alert_acknowledgement_Inr)
    case (cleared q)
    then have "alert_ok q" using assms(3) find_alert_stateD by (auto simp: quality_ok_def)
    with cleared show ?thesis
      by (intro stored_alert_keeps_quality [OF assms(3) cleared(1)])
        (simp_all add: alert_ok_unacknowledged, simp_all add: unacknowledged_def)
  qed (simp add: assms(3))
next
  case Webhook_dispatch
  then show ?thesis
    by (intro quality_ok_batch [OF assms(3)] dispatch_batch_steps [OF _ assms(2)])
next
  case Alert_evaluate
  with evaluate_batch_follows [OF this assms(3,2)] show ?thesis by simp
qed

text \<open>
  C40: scheduled evaluations follow the alert machine.  A batch changes no run and no project, and
  moves the alert of a project's metric at most once: either nothing is notified and the alert is as
  it was, or one more delivery is pending, numbered next, whose event is the move of the
  machine from the old to the new alert, for an enabled webhook of that project which is not silenced.
  Only projects whose webhook was due are touched.
\<close>

theorem alerts_refine_machine:
  assumes "evaluate_quality_alert_batch xs busy limit interval moment d = Inr (d', s)" and "unique_ok d" and "quality_ok d"
  shows "same_run_tables d d' \<and> projects d' = projects d
    \<and> (\<forall>p m. alert_advanced moment (set (webhook_configs d)) d d' p m)
    \<and> (\<forall>p m. p \<notin> wc_project ` set (due_configs busy limit moment d) \<longrightarrow> find_alert_state p m d' = find_alert_state p m d)"
proof -
  note follows = evaluate_batch_follows [OF assms(1,3,2), THEN conjunct2, THEN conjunct2, unfolded alerts_follow_def]
  have "alert_advanced moment (set (webhook_configs d)) d d' p m" for p m
  proof (cases "(p, m) \<in> {(p, m). p \<in> wc_project ` set (due_configs busy limit moment d) \<and> p \<in> p_id ` set (projects d)}")
    case True
    with follows show ?thesis by presburger
  next
    case False
    with follows have "find_alert_state p m d' = find_alert_state p m d" by presburger
    then show ?thesis using alert_columns_cong [of p m d' d] by (simp add: alert_advanced_def)
  qed
  with follows show ?thesis by (simp split: if_split_asm)
qed

definition demo_alert_db :: db where
  "demo_alert_db = demo_db\<lparr>
     webhook_configs := [(new_webhook_config (demo_txn 1000 500) 10 ''https://h.io/x'')
       \<lparr>wc_enabled := True, wc_next_evaluation_at := Some 0\<rparr>],
     runs := [(demo_run PASSED)\<lparr>r_finished_at := Some (20 * day_length)\<rparr>,
              (demo_run FAILED)\<lparr>r_id := 201, r_idempotency_key := ''k2'', r_finished_at := Some (40 * day_length)\<rparr>]\<rparr>"

lemma demo_evaluates:
  shows demo_alert_raised: "case evaluate_quality_alert_batch (\<lambda>_. demo_txn 0 700) (\<lambda>_. False) 50 60 (60 * day_length) demo_alert_db of
      Inl _ \<Rightarrow> False | Inr (d', s) \<Rightarrow> ac_queued (es_counts s) = 1 \<and> map wd_event (webhook_deliveries d') = [Alert_triggered]"
  and demo_alert_unique: "unique_ok demo_alert_db"
  by code_simp+

lemma demo_alert_quality: "quality_ok demo_alert_db"
  by (simp add: quality_ok_def demo_alert_db_def demo_db_def empty_db_def config_ok_def new_webhook_config_def
      numbered_def notifications_def find_alert_state_def alert_numbers_def)

theorem alerts_refine_machine_witness:
  "\<exists>d' s. evaluate_quality_alert_batch (\<lambda>_. demo_txn 0 700) (\<lambda>_. False) 50 60 (60 * day_length) demo_alert_db = Inr (d', s)
     \<and> map wd_event (webhook_deliveries d') = [Alert_triggered] \<and> runs d' = runs demo_alert_db"
proof -
  obtain d' s where call: "evaluate_quality_alert_batch (\<lambda>_. demo_txn 0 700) (\<lambda>_. False) 50 60 (60 * day_length) demo_alert_db = Inr (d', s)"
    and "map wd_event (webhook_deliveries d') = [Alert_triggered]"
    using demo_alert_raised by (auto split: sum.splits)
  with alerts_refine_machine [OF call demo_alert_unique demo_alert_quality] show ?thesis
    by (auto simp: same_run_tables_def)
qed

theorem quality_preserved_witness:
  "\<exists>d'. quality_call demo_alert_db d' \<and> map wd_event (webhook_deliveries d') = [Alert_triggered] \<and> quality_ok d'"
proof -
  obtain d' s where call: "evaluate_quality_alert_batch (\<lambda>_. demo_txn 0 700) (\<lambda>_. False) 50 60 (60 * day_length) demo_alert_db = Inr (d', s)"
    and "map wd_event (webhook_deliveries d') = [Alert_triggered]"
    using demo_alert_raised by (auto split: sum.splits)
  then show ?thesis
    using quality_preserved [OF Alert_evaluate [OF call] demo_alert_unique demo_alert_quality] Alert_evaluate [OF call] by metis
qed

end
