(* ===== verification/Execution_Isolation.thy ===== *)
theory Execution_Isolation
  imports Outbox_Dispatch Python_Text "HOL-Library.Sublist"
begin

section \<open>Where a run executes: packages, adapters, child environments, evidence\<close>

text \<open>
  \<open>services/worker\<close>: \<open>package_runtime.py\<close> (the catalog of hosted packages), \<open>adapter_factory.py\<close>,
  \<open>isolated_executor.py\<close> (virtual display, isolation evidence) and the parts of
  \<open>execution_isolation.py\<close> that read no process: the child's environment, the forwarding of the
  event file and the reading of the result file.

  An environment is a map from names to values.  \<open>resolve\<close>, which makes an entry of PYTHONPATH
  absolute, is the file system's.  \<open>decode\<close> is the JSON decoder followed by the schema of the
  events' endpoint.  The text of paths is POSIX (\<open>os.pathsep\<close> is a colon).
\<close>

subsection \<open>Packages a worker hosts\<close>

definition MAX_PACKAGE_RUNTIMES :: nat where
  "MAX_PACKAGE_RUNTIMES = 50"

definition runtime_key :: "runtime_ref \<Rightarrow> runner_type \<times> string \<times> string" where
  "runtime_key p = (rt_runner_type p, rt_image_repository p, map to_lower (rt_digest p))"

definition package_key :: "package_ref \<Rightarrow> runner_type \<times> string \<times> string" where
  "package_key k = (pref_runner_type k, pref_image_repository k, map to_lower (pref_digest k))"

text \<open>\<open>from_json\<close> after the decoder: the document is a list of references or nothing usable.\<close>

definition catalog_from :: "runtime_ref list option \<Rightarrow> string + runtime_ref list" where
  "catalog_from document =
     (case document of
        None \<Rightarrow> Inl ''RUNNER_PACKAGE_CATALOG contains an invalid runtime reference''
      | Some runtimes \<Rightarrow>
          if MAX_PACKAGE_RUNTIMES < length runtimes
          then Inl ''RUNNER_PACKAGE_CATALOG cannot contain more than 50 entries''
          else if \<not> distinct (map runtime_key runtimes)
          then Inl ''RUNNER_PACKAGE_CATALOG contains duplicate runtime references''
          else Inr runtimes)"

definition require_package :: "runtime_ref list \<Rightarrow> package_ref \<Rightarrow> string + runtime_ref" where
  "require_package runtimes k =
     (case find (\<lambda>p. runtime_key p = package_key k) runtimes of
        Some p \<Rightarrow> Inr p
      | None \<Rightarrow> Inl ''worker does not host automation package runtime {}:{}'')"

lemma require_package_Inr:
  "require_package runtimes k = Inr p \<Longrightarrow> p \<in> set runtimes \<and> runtime_key p = package_key k"
  by (auto simp: require_package_def split: option.splits dest: find_SomeD)

text \<open>
  The worker and the dispatcher agree on what is hosted: a worker that advertises its catalog is
  chosen for a package exactly when its own lookup of the package succeeds.
\<close>

lemma hosting_agrees:
  assumes "rc_packages (w_capabilities w) = runtimes"
  shows "worker_hosts_package k w \<longleftrightarrow> (\<exists>p. require_package runtimes k = Inr p \<and> rt_runner_type p = pref_runner_type k)"
proof
  assume "worker_hosts_package k w"
  then have "find (\<lambda>p. runtime_key p = package_key k) runtimes \<noteq> None"
    unfolding find_None_iff using assms by (auto simp: worker_hosts_package_def runtime_key_def package_key_def)
  then obtain p where p: "require_package runtimes k = Inr p" by (auto simp: require_package_def)
  from require_package_Inr [OF p] p show "\<exists>p. require_package runtimes k = Inr p \<and> rt_runner_type p = pref_runner_type k"
    by (auto simp: runtime_key_def package_key_def)
next
  assume "\<exists>p. require_package runtimes k = Inr p \<and> rt_runner_type p = pref_runner_type k"
  then show "worker_hosts_package k w"
    using assms by (auto simp: worker_hosts_package_def runtime_key_def package_key_def dest!: require_package_Inr)
qed

subsection \<open>The adapter of a snapshot\<close>

type_synonym environ = "string \<rightharpoonup> string"

datatype adapter = Playwright_adapter | Legacy_adapter string | Android_adapter string

definition ANDROID_PACKAGE_NAME :: string where
  "ANDROID_PACKAGE_NAME = ''yanjia-android-appium''"

definition LEGACY_PACKAGE_NAME :: string where
  "LEGACY_PACKAGE_NAME = ''yanjia-web-pytest''"

definition create_automation_adapter :: "run_snapshot \<Rightarrow> environ \<Rightarrow> bool \<Rightarrow> string + adapter" where
  "create_automation_adapter job source has_android =
     (if pref_name (snap_package job) = ANDROID_PACKAGE_NAME
         \<or> pref_runner_type (snap_package job) = ANDROID_APPIUM
      then
        (if \<not> has_android then Inl ''Android Appium adapter is unavailable in this Worker''
         else case given_or (source ''TESTOPS_ANDROID_APPIUM_PROJECT_ROOT'') [] of
           [] \<Rightarrow> Inl ''TESTOPS_ANDROID_APPIUM_PROJECT_ROOT is required''
         | c # cs \<Rightarrow> Inr (Android_adapter (c # cs)))
      else if pref_name (snap_package job) = LEGACY_PACKAGE_NAME
      then Inr (Legacy_adapter (given_or (source ''TESTOPS_LEGACY_PYTEST_PROJECT_ROOT'') ''/opt/yanjia-web''))
      else Inr Playwright_adapter)"

definition virtual_display_prefix :: "run_snapshot \<Rightarrow> string list" where
  "virtual_display_prefix job =
     (case snap_web_config job of
        None \<Rightarrow> []
      | Some config \<Rightarrow>
          if web_headless config then []
          else
            let screen_width = max 1280 (web_viewport_width config);
                screen_height = max 720 (web_viewport_height config)
            in [''xvfb-run'', ''--auto-servernum'',
                ''--server-args=-screen 0 '' @ decimal (nat screen_width) @ ''x''
                  @ decimal (nat screen_height) @ ''x24 -nolisten tcp''])"

subsection \<open>The environment of the child process\<close>

definition SAFE_PARENT_ENVIRONMENT :: "string list" where
  "SAFE_PARENT_ENVIRONMENT =
     [''PATH'', ''PATHEXT'', ''PYTHONPATH'', ''SYSTEMROOT'', ''WINDIR'', ''COMSPEC'', ''LD_LIBRARY_PATH'',
      ''LANG'', ''LC_ALL'', ''PLAYWRIGHT_BROWSERS_PATH'', ''TESTOPS_LEGACY_PYTEST_PROJECT_ROOT'',
      ''TESTOPS_ANDROID_APPIUM_PROJECT_ROOT'', ''SSL_CERT_FILE'', ''SSL_CERT_DIR'']"

definition secret_variable :: "string \<Rightarrow> string" where
  "secret_variable name = ''TESTOPS_SECRET_'' @ name"

definition resolve_python_path :: "(string \<Rightarrow> string) \<Rightarrow> string \<Rightarrow> string" where
  "resolve_python_path resolve path =
     join CHR '':'' (map resolve (filter (\<lambda>entry. entry \<noteq> []) (split_on CHR '':'' path)))"

definition sandbox_variables :: "string \<Rightarrow> string \<Rightarrow> (string \<times> string) list" where
  "sandbox_variables home executor_version =
     [(''HOME'', home), (''USERPROFILE'', home), (''TEMP'', home), (''TMP'', home), (''TMPDIR'', home),
      (''TESTOPS_EXECUTOR_MODE'', ''SUBPROCESS''), (''TESTOPS_EXECUTOR_VERSION'', executor_version)]"

definition bind_secret :: "environ \<Rightarrow> secret_binding \<Rightarrow> environ \<Rightarrow> environ" where
  "bind_secret source binding environment =
     (let name = secret_variable (secret_name binding) in
      case source name of
        None \<Rightarrow> environment
      | Some value \<Rightarrow> if value = [] then environment else environment(name \<mapsto> value))"

definition parent_variables :: "(string \<Rightarrow> string) \<Rightarrow> environ \<Rightarrow> environ" where
  "parent_variables resolve source =
     (let environment = (\<lambda>name. if name \<in> set SAFE_PARENT_ENVIRONMENT then source name else None) in
      case environment ''PYTHONPATH'' of
        None \<Rightarrow> environment
      | Some path \<Rightarrow>
          if path = [] then environment
          else environment(''PYTHONPATH'' \<mapsto> resolve_python_path resolve path))"

definition isolated_child_environment ::
  "(string \<Rightarrow> string) \<Rightarrow> run_snapshot \<Rightarrow> string \<Rightarrow> string \<Rightarrow> environ \<Rightarrow> environ" where
  "isolated_child_environment resolve job home executor_version source =
     fold (bind_secret source) (snap_secrets job)
       (parent_variables resolve source ++ map_of (sandbox_variables home executor_version))"

lemma parent_variables_SomeD: "parent_variables resolve source n = Some v \<Longrightarrow> n \<in> set SAFE_PARENT_ENVIRONMENT"
  by (auto simp: parent_variables_def Let_def SAFE_PARENT_ENVIRONMENT_def
      split: option.split_asm if_split_asm)

lemma bind_secret_apply: "bind_secret source b env n =
    (if n = secret_variable (secret_name b) \<and> source n \<notin> {None, Some []} then source n else env n)"
  by (auto simp: bind_secret_def Let_def split: option.split)

lemma fold_bind_secret: "fold (bind_secret source) bs env n =
    (if (\<exists>b\<in>set bs. n = secret_variable (secret_name b)) \<and> source n \<notin> {None, Some []} then source n else env n)"
  by (induction bs arbitrary: env) (auto simp: bind_secret_apply)

definition run_variables :: "run_snapshot \<Rightarrow> string set" where
  "run_variables job = set SAFE_PARENT_ENVIRONMENT \<union> (\<lambda>b. secret_variable (secret_name b)) ` set (snap_secrets job)"

lemma child_environment_cong:
  assumes "\<And>n. n \<in> run_variables job \<Longrightarrow> source n = source' n"
  shows "isolated_child_environment resolve job home version source
    = isolated_child_environment resolve job home version source'"
proof -
  have "(\<lambda>n. if n \<in> set SAFE_PARENT_ENVIRONMENT then source n else None)
      = (\<lambda>n. if n \<in> set SAFE_PARENT_ENVIRONMENT then source' n else None)"
    using assms by (auto simp: run_variables_def)
  then have "parent_variables resolve source = parent_variables resolve source'"
    by (simp only: parent_variables_def Let_def)
  moreover have "fold (bind_secret source) (snap_secrets job) env = fold (bind_secret source') (snap_secrets job) env" for env
    using assms by (intro ext) (auto simp: fold_bind_secret run_variables_def)
  ultimately show ?thesis by (simp add: isolated_child_environment_def)
qed

text \<open>
  C35: a run's child process sees no credential but its own.  Its environment depends only on the
  allowed variables of the worker and on the secrets the run binds: two workers that agree on
  these give the same environment, whatever else they hold (the callback token, the keys of the
  artifact store, the secrets of other runs).  Every variable of the child is an allowed one, a
  bound secret or one of the sandbox.
\<close>

theorem child_environment_minimal:
  assumes "\<And>n. n \<in> run_variables job \<Longrightarrow> source n = source' n"
  shows "isolated_child_environment resolve job home version source
      = isolated_child_environment resolve job home version source'
    \<and> dom (isolated_child_environment resolve job home version source)
      \<subseteq> run_variables job \<union> fst ` set (sandbox_variables home version)"
proof (intro conjI child_environment_cong subsetI)
  fix n assume n: "n \<in> dom (isolated_child_environment resolve job home version source)"
  then show "n \<in> run_variables job \<union> fst ` set (sandbox_variables home version)"
    unfolding dom_map_of_conv_image_fst [symmetric]
    by (auto simp: isolated_child_environment_def fold_bind_secret run_variables_def
        split: if_split_asm dest: parent_variables_SomeD)
qed (use assms in simp)

theorem child_environment_minimal_witness:
  "isolated_child_environment id (demo_snapshot\<lparr>snap_secrets := [\<lparr>secret_name = ''DB'', secret_ref = ''secret://db''\<rparr>]\<rparr>)
      ''/tmp/x'' ''1'' [''PATH'' \<mapsto> ''/bin'', ''TESTOPS_SECRET_DB'' \<mapsto> ''s'', ''RUNNER_CALLBACK_TOKEN'' \<mapsto> ''t'']
    = isolated_child_environment id (demo_snapshot\<lparr>snap_secrets := [\<lparr>secret_name = ''DB'', secret_ref = ''secret://db''\<rparr>]\<rparr>)
      ''/tmp/x'' ''1'' [''PATH'' \<mapsto> ''/bin'', ''TESTOPS_SECRET_DB'' \<mapsto> ''s'', ''TESTOPS_SECRET_OTHER'' \<mapsto> ''o'']"
  by (rule child_environment_minimal [THEN conjunct1])
    (auto simp: run_variables_def SAFE_PARENT_ENVIRONMENT_def secret_variable_def)

subsection \<open>Isolation evidence\<close>

definition subprocess_isolation_evidence :: "string \<Rightarrow> isolation_evidence" where
  "subprocess_isolation_evidence executor_version =
     \<lparr>iso_mode = SUBPROCESS, iso_executor_version = executor_version, iso_dedicated_process = True,
      iso_credential_scope = RUN_SECRETS_ONLY, iso_read_only_root = False,
      iso_network_policy = WORKER_DEFAULT, iso_limits_enforced = False, iso_image_id = None,
      iso_memory_limit = None, iso_cpu_limit = None, iso_pids_limit = None, iso_storage_limit = None,
      iso_namespace = None, iso_service_account = None, iso_token_automounted = None\<rparr>"

text \<open>The constraints on the fields of \<open>RunExecutionIsolationEvidence\<close>, then its validator.\<close>

definition dns_label :: "string \<Rightarrow> bool" where
  "dns_label s \<longleftrightarrow>
     s \<noteq> [] \<and> length s \<le> 63
     \<and> set s \<subseteq> set ''abcdefghijklmnopqrstuvwxyz0123456789-''
     \<and> hd s \<noteq> CHR ''-'' \<and> last s \<noteq> CHR ''-''"

definition sha256_digest :: "string \<Rightarrow> bool" where
  "sha256_digest s \<longleftrightarrow>
     take 7 s = ''sha256:'' \<and> length s = 71 \<and> set (drop 7 s) \<subseteq> set ''0123456789abcdefABCDEF''"

definition limit_ok :: "int \<Rightarrow> int option \<Rightarrow> int option \<Rightarrow> bool" where
  "limit_ok least greatest v =
     (case v of
        None \<Rightarrow> True
      | Some n \<Rightarrow> least \<le> n \<and> (case greatest of None \<Rightarrow> True | Some m \<Rightarrow> n \<le> m))"

definition evidence_fields_ok :: "isolation_evidence \<Rightarrow> bool" where
  "evidence_fields_ok i \<longleftrightarrow>
     strip (iso_executor_version i) \<noteq> []
     \<and> (case iso_image_id i of None \<Rightarrow> True | Some d \<Rightarrow> sha256_digest d)
     \<and> limit_ok (128 * 1024 * 1024) None (iso_memory_limit i)
     \<and> limit_ok 100 (Some 32000) (iso_cpu_limit i)
     \<and> limit_ok 16 (Some 4096) (iso_pids_limit i)
     \<and> limit_ok (64 * 1024 * 1024) None (iso_storage_limit i)
     \<and> (case iso_namespace i of None \<Rightarrow> True | Some s \<Rightarrow> dns_label s)
     \<and> (case iso_service_account i of None \<Rightarrow> True | Some s \<Rightarrow> dns_label s)"

definition make_evidence :: "isolation_evidence \<Rightarrow> string + isolation_evidence" where
  "make_evidence i =
     (if \<not> evidence_fields_ok i then Inl ''invalid field''
      else case validate_isolation (i\<lparr>iso_executor_version := strip (iso_executor_version i)\<rparr>) of
        Inl _ \<Rightarrow> Inl ''incomplete evidence''
      | Inr i' \<Rightarrow> Inr i')"

definition environment_int :: "environ \<Rightarrow> string \<Rightarrow> string + int" where
  "environment_int source name = require_row ''invalid literal for int()'' (parse_int (given_or (source name) ''0''))"

definition environment_policy :: "environ \<Rightarrow> string + network_policy" where
  "environment_policy source =
     (let v = given_or (source ''TESTOPS_NETWORK_POLICY'') ''WORKER_DEFAULT'' in
      if v = ''WORKER_DEFAULT'' then Inr WORKER_DEFAULT
      else if v = ''DENY_ALL'' then Inr DENY_ALL
      else if v = ''ALLOWLIST'' then Inr ALLOWLIST
      else Inl ''invalid network policy'')"

text \<open>The evidence of a container and of a pod agree up to the limits named last.\<close>

definition hard_evidence :: "isolation_mode \<Rightarrow> environ \<Rightarrow> string + isolation_evidence" where
  "hard_evidence mode source =
     bind_outcome (environment_int source ''TESTOPS_MEMORY_LIMIT_BYTES'') (\<lambda>memory.
     bind_outcome (environment_int source ''TESTOPS_CPU_LIMIT_MILLIS'') (\<lambda>cpu.
     bind_outcome (environment_policy source) (\<lambda>policy.
       Inr ((subprocess_isolation_evidence (given_or (source ''TESTOPS_EXECUTOR_VERSION'') ''unknown''))\<lparr>
         iso_mode := mode, iso_read_only_root := True, iso_network_policy := policy,
         iso_limits_enforced := True, iso_image_id := source ''TESTOPS_RUNTIME_IMAGE_ID'',
         iso_memory_limit := Some memory, iso_cpu_limit := Some cpu\<rparr>))))"

definition isolation_evidence_from_environment :: "environ \<Rightarrow> string + isolation_evidence" where
  "isolation_evidence_from_environment source =
     (let mode = given_or (source ''TESTOPS_EXECUTOR_MODE'') ''SUBPROCESS'' in
      if mode = ''SUBPROCESS''
      then make_evidence (subprocess_isolation_evidence (given_or (source ''TESTOPS_EXECUTOR_VERSION'') ''unknown''))
      else if mode \<notin> {''CONTAINER'', ''KUBERNETES''} then Inl ''unsupported isolated executor mode''
      else if mode = ''KUBERNETES''
      then bind_outcome (hard_evidence KUBERNETES source) (\<lambda>i.
           bind_outcome (environment_int source ''TESTOPS_EPHEMERAL_STORAGE_LIMIT_BYTES'') (\<lambda>storage.
             make_evidence (i\<lparr>iso_storage_limit := Some storage,
               iso_namespace := source ''TESTOPS_ORCHESTRATOR_NAMESPACE'',
               iso_service_account := source ''TESTOPS_SERVICE_ACCOUNT_NAME'',
               iso_token_automounted := Some (map to_lower
                 (given_or (source ''TESTOPS_SERVICE_ACCOUNT_TOKEN_AUTOMOUNTED'') ''true'') = ''true'')\<rparr>)))
      else bind_outcome (hard_evidence CONTAINER source) (\<lambda>i.
           bind_outcome (environment_int source ''TESTOPS_PIDS_LIMIT'') (\<lambda>pids.
             make_evidence (i\<lparr>iso_pids_limit := Some pids\<rparr>))))"

lemma validate_isolation_same: "validate_isolation i = Inr j \<Longrightarrow> j = i"
  by (auto simp: validate_isolation_def split: if_split_asm)

lemma make_evidence_valid: "make_evidence i = Inr j \<Longrightarrow> validate_isolation j = Inr j"
  by (auto simp: make_evidence_def split: if_split_asm sum.split_asm dest: validate_isolation_same)

text \<open>Evidence a child takes from its environment is accepted with its result.\<close>

lemma environment_evidence_valid:
  "isolation_evidence_from_environment source = Inr i \<Longrightarrow> validate_isolation i = Inr i"
  by (auto simp: isolation_evidence_from_environment_def Let_def outcome_simps make_evidence_valid
      split: if_split_asm)

lemma subprocess_evidence_valid [simp]:
  "validate_isolation (subprocess_isolation_evidence v) = Inr (subprocess_isolation_evidence v)"
  by (simp add: validate_isolation_def subprocess_isolation_evidence_def)

subsection \<open>The event file\<close>

text \<open>
  The runner appends one line per event to \<open>events.jsonl\<close>; a line may be torn when it is read.
  The lines of \<open>bytes.splitlines\<close> and of a text stream with universal newlines are the same.
\<close>

definition LF :: char where "LF = CHR 0x0A"

definition CR :: char where "CR = CHR 0x0D"

fun split_lines :: "string \<Rightarrow> string \<Rightarrow> string list" where
  "split_lines line [] = (if line = [] then [] else [line])"
| "split_lines line [c] =
     (if c = LF \<or> c = CR then [line] else [line @ [c]])"
| "split_lines line (c # c' # cs) =
     (if c = LF then line # split_lines [] (c' # cs)
      else if c = CR then line # (if c' = LF then split_lines [] cs else split_lines [] (c' # cs))
      else split_lines (line @ [c]) (c' # cs))"

definition splitlines :: "string \<Rightarrow> string list" where
  "splitlines text = split_lines [] text"

datatype event_document = Undecodable | Not_an_object | Refused_event | Event_document runner_event

text \<open>\<open>payload.rfind(newline) + 1\<close>: the length of the part that ends with the last newline.\<close>

definition complete_size :: "string \<Rightarrow> nat" where
  "complete_size payload = length (dropWhile (\<lambda>c. c \<noteq> LF) (rev payload))"

definition is_object :: "event_document \<Rightarrow> bool" where
  "is_object document \<longleftrightarrow> document \<notin> {Undecodable, Not_an_object}"

text \<open>What \<open>forward_new_events\<close> reports from a file, and the offset it returns.\<close>

definition forward_new_events ::
  "(string \<Rightarrow> event_document) \<Rightarrow> string option \<Rightarrow> nat \<Rightarrow> event_document list \<times> nat" where
  "forward_new_events decode file offset =
     (case file of
        None \<Rightarrow> ([], offset)
      | Some text \<Rightarrow>
          let payload = drop offset text; size = complete_size payload in
          if size = 0 then ([], offset)
          else (filter is_object (map decode (splitlines (take size payload))), offset + size))"

text \<open>The parent polls the file while the child appends to it.\<close>

fun tail_events ::
  "(string \<Rightarrow> event_document) \<Rightarrow> string option list \<Rightarrow> nat \<Rightarrow> event_document list \<times> nat" where
  "tail_events decode [] offset = ([], offset)"
| "tail_events decode (file # files) offset =
     (let (reported, offset1) = forward_new_events decode file offset;
          (later, offset2) = tail_events decode files offset1
      in (reported @ later, offset2))"

definition complete_part :: "string \<Rightarrow> string" where
  "complete_part text = take (complete_size text) text"

lemma LF_not_CR [simp]: "LF \<noteq> CR" "CR \<noteq> LF"
  by (simp_all add: LF_def CR_def)

lemma split_lines_LF [simp]: "split_lines line (LF # b) = line # split_lines [] b"
  by (cases b) simp_all

lemma split_lines_append: "split_lines line (a @ LF # b) = split_lines line (a @ [LF]) @ split_lines [] b"
  by (induction line a rule: split_lines.induct) simp_all

lemma splitlines_append:
  assumes "a = [] \<or> last a = LF"
  shows "splitlines (a @ b) = splitlines a @ splitlines b"
proof (cases "a = []")
  case False
  then obtain a' where "a = a' @ [LF]" using assms by (metis append_butlast_last_id)
  then show ?thesis using split_lines_append [of "[]" a' b] by (simp add: splitlines_def)
qed (simp add: splitlines_def)

text \<open>A text is its complete part followed by a part without newline.\<close>

lemma complete_size_split:
  obtains a b where "text = a @ b" "complete_size text = length a" "LF \<notin> set b" "a = [] \<or> last a = LF"
proof
  let ?d = "dropWhile (\<lambda>c. c \<noteq> LF) (rev text)" and ?t = "takeWhile (\<lambda>c. c \<noteq> LF) (rev text)"
  show "text = rev ?d @ rev ?t" by (metis rev_append rev_rev_ident takeWhile_dropWhile_id)
  show "complete_size text = length (rev ?d)" by (simp add: complete_size_def)
  show "LF \<notin> set (rev ?t)" by (auto dest: set_takeWhileD)
  show "rev ?d = [] \<or> last (rev ?d) = LF"
    using hd_dropWhile [of "\<lambda>c. c \<noteq> LF" "rev text"] by (auto simp: last_rev)
qed

lemma complete_size_unique:
  assumes "LF \<notin> set b" "a = [] \<or> last a = LF"
  shows "complete_size (a @ b) = length a"
proof -
  have "dropWhile (\<lambda>c. c \<noteq> LF) (rev b @ rev a) = dropWhile (\<lambda>c. c \<noteq> LF) (rev a)"
    using assms(1) by (subst dropWhile_append2) auto
  also have "\<dots> = rev a" using assms(2) by (cases a rule: rev_cases) simp_all
  finally show ?thesis by (simp add: complete_size_def)
qed

lemma complete_part_append:
  assumes "a = [] \<or> last a = LF"
  shows "complete_part (a @ b) = a @ complete_part b"
proof -
  obtain u v where b: "b = u @ v" "complete_size b = length u" "LF \<notin> set v" "u = [] \<or> last u = LF"
    by (rule complete_size_split)
  have "complete_size (a @ b) = length (a @ u)"
    using complete_size_unique [of v "a @ u"] b assms by (cases "u = []") simp_all
  moreover have "complete_size (u @ v) = length u" using b(1,2) by simp
  ultimately show ?thesis by (simp add: complete_part_def b(1))
qed

lemma complete_part_ends: "complete_part text = [] \<or> last (complete_part text) = LF"
  by (rule complete_size_split [of "text"]) (simp add: complete_part_def)

lemma forward_from_complete:
  assumes "seen = [] \<or> last seen = LF" "prefix seen text"
  shows "forward_new_events decode (Some text) (length seen) =
    (filter is_object (map decode (splitlines (drop (length seen) (complete_part text)))), length (complete_part text))"
proof -
  obtain rest where seen_rest: "text = seen @ rest" using assms(2) by (auto simp: prefix_def)
  have part: "complete_part text = seen @ complete_part rest"
    using complete_part_append [OF assms(1)] seen_rest by simp
  have len: "length (complete_part rest) = complete_size rest"
    by (rule complete_size_split [of rest]) (simp add: complete_part_def)
  show ?thesis
    by (simp add: forward_new_events_def Let_def seen_rest part [unfolded seen_rest] len)
      (auto simp: complete_part_def splitlines_def)
qed

fun growing :: "string \<Rightarrow> string option list \<Rightarrow> bool" where
  "growing text [] \<longleftrightarrow> True"
| "growing text (None # files) \<longleftrightarrow> text = [] \<and> growing text files"
| "growing text (Some text' # files) \<longleftrightarrow> prefix text text' \<and> growing text' files"

fun last_text :: "string \<Rightarrow> string option list \<Rightarrow> string" where
  "last_text text [] = text"
| "last_text text (None # files) = last_text text files"
| "last_text text (Some text' # files) = last_text text' files"

lemma complete_part_prefix: "prefix a b \<Longrightarrow> prefix (complete_part a) b"
  by (metis append_take_drop_id complete_part_def prefix_def append_assoc)

lemma complete_part_mono:
  assumes "prefix a b"
  shows "complete_part b = complete_part a @ drop (length (complete_part a)) (complete_part b)"
proof -
  obtain rest where "b = complete_part a @ rest" using complete_part_prefix [OF assms] by (auto simp: prefix_def)
  then show ?thesis using complete_part_append [OF complete_part_ends, of a rest] by simp
qed

lemma tail_events_from:
  assumes "growing content files"
  shows "tail_events decode files (length (complete_part content)) =
    (filter is_object (map decode (splitlines (drop (length (complete_part content)) (complete_part (last_text content files))))),
     length (complete_part (last_text content files)))"
  using assms
proof (induction content files rule: growing.induct)
  case (1 content)
  then show ?case by (simp add: splitlines_def)
next
  case (2 content files)
  then have c: "content = []" "growing content files" by auto
  from 2(1) [OF c(2)] c(1) show ?case by (simp add: forward_new_events_def)
next
  case (3 content content' files)
  let ?a = "complete_part content" and ?b = "complete_part content'" and ?c = "complete_part (last_text content' files)"
  have grow: "prefix content content'" "growing content' files" using 3(2) by simp_all
  have later: "prefix t (last_text t fs)" if "growing t fs" for t fs
    using that by (induction t fs rule: growing.induct) auto
  obtain u where b: "?b = ?a @ u" using complete_part_mono [OF grow(1)] by blast
  obtain v where c: "?c = ?b @ v" using complete_part_mono [OF later [OF grow(2)]] by blast
  have "u = [] \<or> last u = LF"
    using complete_part_ends [of content'] b by (cases "u = []") simp_all
  then have "splitlines (u @ v) = splitlines u @ splitlines v" by (rule splitlines_append)
  with 3(1) [OF grow(2)] forward_from_complete [OF complete_part_ends complete_part_prefix [OF grow(1)], of decode]
  show ?case by (simp add: b c)
qed

text \<open>
  C36: the progress of a run is reported without loss and without repetition.  However the child's
  writes and the parent's polls interleave, what the polls report together is exactly the list of
  the events of the complete lines of the file at the end, in their order, each once; a line that
  is torn at a poll is reported by the poll that finds it complete.
\<close>

theorem tailing_reports_each_line_once:
  assumes "growing [] files"
  shows "tail_events decode files 0 =
    (filter is_object (map decode (splitlines (complete_part (last_text [] files)))),
     complete_size (last_text [] files))"
proof -
  have "length (complete_part (last_text [] files)) = complete_size (last_text [] files)"
    by (rule complete_size_split [of "last_text [] files"]) (simp add: complete_part_def)
  then show ?thesis using tail_events_from [OF assms, of decode] by (simp add: complete_part_def complete_size_def)
qed

definition demo_decode :: "string \<Rightarrow> event_document" where
  "demo_decode line = (if line = ''{}'' then Refused_event else if line = ''1'' then Not_an_object else Undecodable)"

theorem tailing_reports_each_line_once_witness:
  "tail_events demo_decode [None, Some ''{'', Some (''{}'' @ [LF] @ ''1''), Some (''{}'' @ [LF] @ ''1'' @ [LF] @ ''{}'' @ [LF])] 0
    = ([Refused_event, Refused_event], 8)"
proof -
  let ?files = "[None, Some ''{'', Some (''{}'' @ [LF] @ ''1''), Some (''{}'' @ [LF] @ ''1'' @ [LF] @ ''{}'' @ [LF])]"
  have "growing [] ?files" by simp
  from tailing_reports_each_line_once [OF this, of demo_decode] show ?thesis
    by (simp add: complete_part_def complete_size_def splitlines_def LF_def CR_def demo_decode_def is_object_def)
qed

subsection \<open>The result file\<close>

datatype result_file = No_result | Malformed_result | Result_document run_result

definition read_result :: "result_file \<Rightarrow> run_snapshot \<Rightarrow> string + run_result" where
  "read_result file job =
     (case file of
        No_result \<Rightarrow> Inl ''isolated executor did not produce an immutable result''
      | Malformed_result \<Rightarrow> Inl ''isolated executor produced an invalid result''
      | Result_document document \<Rightarrow>
          (case parse_result document of
             Inl _ \<Rightarrow> Inl ''isolated executor produced an invalid result''
           | Inr result \<Rightarrow>
               if res_run_id result \<noteq> snap_run_id job \<or> res_isolation result = None
               then Inl ''isolated executor result evidence is inconsistent''
               else Inr result))"

end
