(* ===== verification/Task_Execution.thy ===== *)
theory Task_Execution
  imports Execution_Isolation Run_Outcomes
begin

section \<open>Executing a run on a worker\<close>

text \<open>
  \<open>services/worker/src/testops/worker/tasks.py\<close> with the client of \<open>control_plane.py\<close> and the
  executor of \<open>execution_isolation.py\<close>: the task \<open>execute_run\<close> from its snapshot to the result it
  reports.  The control plane behind the client is the model's own: each request is one of the
  services of \<open>Run_Execution\<close> on the database.

  A task shares the world with others.  The surroundings say for the \<open>n\<close>-th request of a task
  whether it arrives and is answered, in which transaction it is served, what everybody else has
  done to the database before it, the worker's clock, and what the artifact store makes of a
  result.  The automation itself (adapters, containers, pods, the child process) is a parameter:
  what it reported, what it left in the run's directory and how it ended.
\<close>

subsection \<open>The client of the control plane\<close>

datatype link = Answered | Request_lost | Answer_lost

datatype failure =
    Package_unavailable string
  | Isolation_failed string "isolation_evidence option"
  | Isolation_canceled string "isolation_evidence option"
  | Isolation_timed_out string "isolation_evidence option"
  | Other_failure string

fun failure_text :: "failure \<Rightarrow> string" where
  "failure_text (Package_unavailable t) = t"
| "failure_text (Isolation_failed t _) = t"
| "failure_text (Isolation_canceled t _) = t"
| "failure_text (Isolation_timed_out t _) = t"
| "failure_text (Other_failure t) = t"

record surroundings =
  su_link :: "nat \<Rightarrow> link"
  su_txn :: "nat \<Rightarrow> txn"
  su_others :: "nat \<Rightarrow> db \<Rightarrow> db"
  su_now :: "nat \<Rightarrow> instant"
  su_upload :: "run_result \<Rightarrow> string + run_result"
  su_decode :: "string \<Rightarrow> event_document"

text \<open>The database, the requests sent so far, and the two files of the run's directory.\<close>

record world =
  wd_db :: db
  wd_requests :: nat
  wd_result :: result_file
  wd_events :: "string option"

definition call_service ::
  "surroundings \<Rightarrow> (txn \<Rightarrow> db \<Rightarrow> service_error + db \<times> 'a) \<Rightarrow> world \<Rightarrow> world \<times> (failure + 'a)" where
  "call_service su service w =
     (let n = wd_requests w;
          seen = w\<lparr>wd_db := su_others su n (wd_db w), wd_requests := Suc n\<rparr>
      in if su_link su n = Request_lost then (seen, Inl (Other_failure ''connection failed''))
         else case service (su_txn su n) (wd_db seen) of
           Inl _ \<Rightarrow> (seen, Inl (Other_failure ''HTTP status error''))
         | Inr (d, a) \<Rightarrow>
             (seen\<lparr>wd_db := d\<rparr>,
              if su_link su n = Answer_lost then Inl (Other_failure ''timed out'') else Inr a))"

definition run_state :: "surroundings \<Rightarrow> uuid \<Rightarrow> world \<Rightarrow> world \<times> (failure + run_row)" where
  "run_state su i = call_service su (\<lambda>x d. bind_outcome (run_or_404 d i) (\<lambda>r. Inr (d, r)))"

definition cancel_requested :: "surroundings \<Rightarrow> uuid \<Rightarrow> world \<Rightarrow> world \<times> (failure + bool)" where
  "cancel_requested su i w =
     map_prod id (map_sum id (\<lambda>r. r_cancel_requested r \<or> r_status r = CANCELED)) (run_state su i w)"

definition report_status ::
  "surroundings \<Rightarrow> uuid \<Rightarrow> run_status \<Rightarrow> string option \<Rightarrow> world \<Rightarrow> world \<times> (failure + run_row \<times> bool)" where
  "report_status su i status worker_key =
     call_service su (\<lambda>x d. update_run_status x i status worker_key d)"

text \<open>The endpoint's schema refuses a document before any service runs.\<close>

definition report_event :: "surroundings \<Rightarrow> uuid \<Rightarrow> event_document \<Rightarrow> world \<Rightarrow> world \<times> (failure + event_row \<times> bool)" where
  "report_event su i document =
     call_service su (\<lambda>x d. case document of
         Event_document e \<Rightarrow> bind_outcome (validate_event_shape e) (\<lambda>e. record_run_event x i e d)
       | _ \<Rightarrow> Inl (InvalidRequest ''unprocessable event''))"

definition report_result :: "surroundings \<Rightarrow> run_result \<Rightarrow> world \<Rightarrow> world \<times> (failure + run_row \<times> bool)" where
  "report_result su result =
     call_service su (\<lambda>x d. case parse_result result of
         Inl _ \<Rightarrow> Inl (InvalidRequest ''unprocessable result'')
       | Inr document \<Rightarrow> record_run_result x (res_run_id result) document d)"

text \<open>One step of the task after another; an exception ends the sequence and leaves the world.\<close>

definition chain :: "world \<times> (failure + 'a) \<Rightarrow> ('a \<Rightarrow> world \<Rightarrow> world \<times> (failure + 'b)) \<Rightarrow> world \<times> (failure + 'b)" where
  "chain m k = (case m of (w, Inl e) \<Rightarrow> (w, Inl e) | (w, Inr a) \<Rightarrow> k a w)"

subsection \<open>Results the worker makes up\<close>

text \<open>
  One entry per case of the snapshot.  The constructors run the validators of the contracts, so a
  result that breaks them is an exception.
\<close>

definition fallback_case ::
  "instant \<Rightarrow> case_result_status \<Rightarrow> string \<Rightarrow> string option \<Rightarrow> case_definition \<Rightarrow> case_result" where
  "fallback_case moment status category message c =
     \<lparr>cres_case_id = case_id c, cres_case_code = case_code c, cres_status = status,
      cres_started_at = moment, cres_finished_at = moment, cres_duration_ms = 0,
      cres_failure_category = Some category, cres_error_message = message, cres_artifact_ids = []\<rparr>"

definition failed_or_disabled :: "instant \<Rightarrow> string \<Rightarrow> string \<Rightarrow> case_definition \<Rightarrow> case_result" where
  "failed_or_disabled moment category message c =
     (if case_enabled c then fallback_case moment Case_INFRA_ERROR category (Some message) c
      else fallback_case moment Case_SKIPPED ''case disabled'' None c)"

definition fallback_result ::
  "instant \<Rightarrow> run_snapshot \<Rightarrow> run_status \<Rightarrow> string \<Rightarrow> (case_definition \<Rightarrow> case_result)
     \<Rightarrow> isolation_evidence option \<Rightarrow> run_result" where
  "fallback_result moment job status runner_version entry isolation =
     \<lparr>res_run_id = snap_run_id job, res_status = status, res_started_at = moment,
      res_finished_at = moment, res_runner_version = runner_version,
      res_case_results = map entry (snap_cases job), res_artifacts = [], res_isolation = isolation\<rparr>"

fun failure_category :: "failure \<Rightarrow> string" where
  "failure_category (Package_unavailable _) = ''AUTOMATION_PACKAGE_UNAVAILABLE''"
| "failure_category (Isolation_failed _ _) = ''EXECUTOR_ISOLATION''"
| "failure_category (Isolation_canceled _ _) = ''EXECUTOR_ISOLATION''"
| "failure_category (Isolation_timed_out _ _) = ''EXECUTOR_ISOLATION''"
| "failure_category (Other_failure _) = ''WORKER_INFRASTRUCTURE''"

definition recovery_result ::
  "instant \<Rightarrow> run_snapshot \<Rightarrow> failure \<Rightarrow> string \<Rightarrow> isolation_evidence option \<Rightarrow> contract_error + run_result" where
  "recovery_result moment job e runner_version isolation =
     parse_result (fallback_result moment job INFRA_ERROR runner_version
       (failed_or_disabled moment (failure_category e) (take 2000 (failure_text e))) isolation)"

definition canceled_result ::
  "instant \<Rightarrow> run_snapshot \<Rightarrow> string \<Rightarrow> isolation_evidence option \<Rightarrow> contract_error + run_result" where
  "canceled_result moment job runner_version isolation =
     parse_result (fallback_result moment job CANCELED runner_version
       (fallback_case moment Case_SKIPPED ''run canceled'' None) isolation)"

definition timed_out_result ::
  "instant \<Rightarrow> run_snapshot \<Rightarrow> string \<Rightarrow> isolation_evidence \<Rightarrow> contract_error + run_result" where
  "timed_out_result moment job runner_version isolation =
     parse_result (fallback_result moment job TIMED_OUT runner_version
       (failed_or_disabled moment ''EXECUTOR_TIMEOUT'' ''isolated Run exceeded executor timeout'') (Some isolation))"

definition in_process_isolation_evidence :: "string \<Rightarrow> isolation_evidence" where
  "in_process_isolation_evidence runner_version =
     (subprocess_isolation_evidence runner_version)\<lparr>iso_mode := IN_PROCESS,
       iso_dedicated_process := False, iso_credential_scope := WORKER\<rparr>"

subsection \<open>Settings, and what the automation did\<close>

record worker_settings =
  ws_mode :: isolation_mode
  ws_version :: string
  ws_worker_key :: "string option"
  ws_packages :: "runtime_ref list"
  ws_environ :: environ
  ws_poll :: int
  ws_timeout :: int

text \<open>
  An adapter in the worker's process, a container or a pod: the observed behaviour.  What an adapter
  ends with depends on the answers its reporter got when it asked whether to cancel.
\<close>

record hosted_run =
  hr_reports :: "event_document list"
  hr_outcome :: "(failure + bool) list \<Rightarrow> failure + run_result"
  hr_events :: "string option"
  hr_result :: result_file

text \<open>
  A child process: what \<open>poll()\<close>, the event file and the monotonic clock (microseconds) show at
  each turn of the parent's loop.
\<close>

record child_run =
  ch_payload_size :: nat
  ch_start_error :: "string option"
  ch_started :: int
  ch_exit :: "nat \<Rightarrow> int option"
  ch_reports :: "nat \<Rightarrow> string option"
  ch_clock :: "nat \<Rightarrow> int"
  ch_events :: "string option"
  ch_result :: result_file

definition MAX_SNAPSHOT_BYTES :: nat where
  "MAX_SNAPSHOT_BYTES = 5 * 1024 * 1024"

text \<open>Progress is reported as well as possible: an exception of a request is dropped.\<close>

fun post_events :: "surroundings \<Rightarrow> uuid \<Rightarrow> event_document list \<Rightarrow> world \<Rightarrow> world" where
  "post_events su i [] w = w"
| "post_events su i (e # es) w = post_events su i es (fst (report_event su i e w))"

subsection \<open>The subprocess executor\<close>

definition forward_events :: "surroundings \<Rightarrow> uuid \<Rightarrow> string option \<Rightarrow> nat \<Rightarrow> world \<Rightarrow> world \<times> nat" where
  "forward_events su i file offset w =
     (let (documents, offset') = forward_new_events (su_decode su) file offset
      in (post_events su i documents w, offset'))"

fun watch_child ::
  "surroundings \<Rightarrow> run_snapshot \<Rightarrow> child_run \<Rightarrow> int \<Rightarrow> nat \<Rightarrow> nat \<Rightarrow> nat \<Rightarrow> world
     \<Rightarrow> (world \<times> (failure + run_result)) option" where
  "watch_child su job ch until 0 n offset w = None"
| "watch_child su job ch until (Suc turns) n offset w =
     (let i = snap_run_id job; (w1, offset1) = forward_events su i (ch_reports ch n) offset w in
      case ch_exit ch n of
        Some code \<Rightarrow>
          Some (w1,
            if code \<noteq> 0 then Inl (Isolation_failed ''isolated executor exited without a result (code {})'' None)
            else map_sum (\<lambda>t. Isolation_failed t None) id (read_result (ch_result ch) job))
      | None \<Rightarrow>
          (case cancel_requested su i w1 of
             (w2, Inl e) \<Rightarrow> Some (w2, Inl e)
           | (w2, Inr canceled) \<Rightarrow>
               if canceled then Some (w2, Inl (Isolation_canceled ''isolated Run was canceled'' None))
               else if until \<le> ch_clock ch n
               then Some (w2, Inl (Isolation_timed_out ''isolated Run exceeded executor timeout'' None))
               else watch_child su job ch until turns (Suc n) offset1 w2))"

declare watch_child.simps [simp del]

definition leave_files :: "string option \<Rightarrow> result_file \<Rightarrow> world \<Rightarrow> world" where
  "leave_files events_file result_file w = w\<lparr>wd_events := events_file, wd_result := result_file\<rparr>"

definition execute_subprocess ::
  "surroundings \<Rightarrow> worker_settings \<Rightarrow> child_run \<Rightarrow> nat \<Rightarrow> run_snapshot \<Rightarrow> world
     \<Rightarrow> (world \<times> (failure + run_result)) option" where
  "execute_subprocess su st ch turns job w =
     (if MAX_SNAPSHOT_BYTES < ch_payload_size ch
      then Some (w, Inl (Isolation_failed ''Run Snapshot exceeds isolated executor input limit'' None))
      else case ch_start_error ch of
        Some t \<Rightarrow> Some (w, Inl (Other_failure t))
      | None \<Rightarrow>
          map_option (map_prod (leave_files (ch_events ch) (ch_result ch)) id)
            (watch_child su job ch (ch_started ch + ws_timeout st) turns 0 0 w))"

subsection \<open>One attempt\<close>

definition reporter ::
  "surroundings \<Rightarrow> uuid \<Rightarrow> event_document \<Rightarrow> world \<Rightarrow> world \<times> (failure + bool) list" where
  "reporter su i document w =
     (let w1 = fst (report_event su i document w) in
      case document of
        Event_document e \<Rightarrow>
          if ev_event e = case_started
          then (let (w2, answer) = cancel_requested su i w1 in (w2, [answer])) else (w1, [])
      | _ \<Rightarrow> (w1, []))"

fun run_adapter ::
  "surroundings \<Rightarrow> uuid \<Rightarrow> event_document list \<Rightarrow> world \<Rightarrow> world \<times> (failure + bool) list" where
  "run_adapter su i [] w = (w, [])"
| "run_adapter su i (e # es) w =
     (let (w1, answers) = reporter su i e w; (w2, more) = run_adapter su i es w1
      in (w2, answers @ more))"

definition execute_in_process ::
  "surroundings \<Rightarrow> worker_settings \<Rightarrow> hosted_run \<Rightarrow> run_snapshot \<Rightarrow> world \<Rightarrow> world \<times> (failure + run_result)" where
  "execute_in_process su st hr job w =
     (case create_automation_adapter job (ws_environ st) True of
        Inl t \<Rightarrow> (w, Inl (Other_failure t))
      | Inr _ \<Rightarrow>
          (let (w1, answers) = run_adapter su (snap_run_id job) (hr_reports hr) w
           in (leave_files (hr_events hr) (hr_result hr) w1,
               map_sum id (\<lambda>result. result\<lparr>res_isolation :=
                 Some (in_process_isolation_evidence (ws_version st))\<rparr>) (hr_outcome hr answers))))"

definition execute_hosted ::
  "surroundings \<Rightarrow> worker_settings \<Rightarrow> hosted_run \<Rightarrow> run_snapshot \<Rightarrow> world \<Rightarrow> world \<times> (failure + run_result)" where
  "execute_hosted su st hr job w =
     (if ws_mode st = IN_PROCESS then execute_in_process su st hr job w
      else (leave_files (hr_events hr) (hr_result hr) (post_events su (snap_run_id job) (hr_reports hr) w),
            hr_outcome hr []))"

text \<open>Everything before the executor is chosen.\<close>

definition admit_run :: "surroundings \<Rightarrow> worker_settings \<Rightarrow> run_snapshot \<Rightarrow> world \<Rightarrow> world \<times> (failure + unit)" where
  "admit_run su st job w =
     chain (report_status su (snap_run_id job) PREPARING (ws_worker_key st) w) (\<lambda>_ w1.
       case require_package (ws_packages st) (snap_package job) of
         Inl t \<Rightarrow> (w1, Inl (Package_unavailable t))
       | Inr runtime \<Rightarrow>
           if rt_runner_type runtime \<notin> {WEB_PLAYWRIGHT, ANDROID_APPIUM}
           then (w1, Inl (Package_unavailable ''worker has no adapter for automation package runner type {}''))
           else if rt_runner_type runtime = ANDROID_APPIUM \<and> ws_mode st \<noteq> IN_PROCESS
           then (w1, Inl (Package_unavailable ''ANDROID_APPIUM requires an IN_PROCESS Windows device Worker''))
           else chain (report_status su (snap_run_id job) RUNNING (ws_worker_key st) w1)
                  (\<lambda>_ w2. (w2, Inr ())))"

definition attempt_run ::
  "surroundings \<Rightarrow> worker_settings \<Rightarrow> hosted_run \<Rightarrow> child_run \<Rightarrow> nat \<Rightarrow> run_snapshot \<Rightarrow> world
     \<Rightarrow> (world \<times> (failure + run_result)) option" where
  "attempt_run su st hr ch turns job w =
     (case admit_run su st job w of
        (w1, Inl e) \<Rightarrow> Some (w1, Inl e)
      | (w1, Inr _) \<Rightarrow>
          if ws_mode st = SUBPROCESS then execute_subprocess su st ch turns job w1
          else Some (execute_hosted su st hr job w1))"

definition failed_isolation_evidence :: "worker_settings \<Rightarrow> isolation_evidence option \<Rightarrow> isolation_evidence option" where
  "failed_isolation_evidence st attached =
     (case attached of
        Some evidence \<Rightarrow> Some evidence
      | None \<Rightarrow> if ws_mode st = SUBPROCESS then Some (subprocess_isolation_evidence (ws_version st)) else None)"

text \<open>The \<open>except\<close> clauses of the task: every failure becomes a result.\<close>

fun result_of_failure ::
  "worker_settings \<Rightarrow> instant \<Rightarrow> run_snapshot \<Rightarrow> failure \<Rightarrow> contract_error + run_result" where
  "result_of_failure st moment job (Isolation_canceled t ev) =
     canceled_result moment job (ws_version st) (failed_isolation_evidence st ev)"
| "result_of_failure st moment job (Isolation_timed_out t ev) =
     (case failed_isolation_evidence st ev of
        None \<Rightarrow> recovery_result moment job (Isolation_timed_out t ev) (ws_version st) None
      | Some evidence \<Rightarrow> timed_out_result moment job (ws_version st) evidence)"
| "result_of_failure st moment job (Isolation_failed t ev) =
     recovery_result moment job (Isolation_failed t ev) (ws_version st) (failed_isolation_evidence st ev)"
| "result_of_failure st moment job e = recovery_result moment job e (ws_version st) None"

subsection \<open>Reporting the result\<close>

fun replay_events :: "surroundings \<Rightarrow> uuid \<Rightarrow> event_document list \<Rightarrow> world \<Rightarrow> world \<times> (failure + unit)" where
  "replay_events su i [] w = (w, Inr ())"
| "replay_events su i (e # es) w =
     (if \<not> is_object e then (w, Inl (Other_failure ''invalid Runner event at line {}''))
      else chain (report_event su i e w) (\<lambda>_. replay_events su i es))"

definition reconcile_events :: "surroundings \<Rightarrow> uuid \<Rightarrow> world \<Rightarrow> world \<times> (failure + unit)" where
  "reconcile_events su i w =
     (case wd_events w of
        None \<Rightarrow> (w, Inr ())
      | Some text \<Rightarrow> replay_events su i (map (su_decode su) (splitlines text)) w)"

definition upload_artifacts :: "surroundings \<Rightarrow> run_result \<Rightarrow> world \<Rightarrow> world \<times> (failure + run_result)" where
  "upload_artifacts su result w =
     (if res_artifacts result = [] then (w, Inr result)
      else (w, map_sum Other_failure id (su_upload su result)))"

record task_report =
  tr_run :: uuid
  tr_status :: run_status
  tr_recovered :: bool
  tr_ignored :: bool

definition deliver_result ::
  "surroundings \<Rightarrow> uuid \<Rightarrow> run_result \<Rightarrow> bool \<Rightarrow> world \<Rightarrow> world \<times> (failure + task_report)" where
  "deliver_result su i result recovered w =
     chain (reconcile_events su i w) (\<lambda>_ w1.
     chain (upload_artifacts su result w1) (\<lambda>uploaded w2.
     chain (report_result su uploaded w2) (\<lambda>_ w3.
       (w3, Inr \<lparr>tr_run = i, tr_status = res_status result, tr_recovered = recovered, tr_ignored = False\<rparr>))))"

definition existing_result :: "result_file \<Rightarrow> failure + run_result option" where
  "existing_result file =
     (case file of
        No_result \<Rightarrow> Inr None
      | Malformed_result \<Rightarrow> Inl (Other_failure ''invalid result document'')
      | Result_document document \<Rightarrow>
          (case parse_result document of
             Inl _ \<Rightarrow> Inl (Other_failure ''invalid result document'') | Inr result \<Rightarrow> Inr (Some result)))"

definition conclude_run ::
  "surroundings \<Rightarrow> worker_settings \<Rightarrow> run_snapshot \<Rightarrow> failure + run_result \<Rightarrow> world \<Rightarrow> world \<times> (failure + task_report)" where
  "conclude_run su st job ending w =
     (let settled = (case ending of Inr result \<Rightarrow> Inr result
            | Inl e \<Rightarrow> result_of_failure st (su_now su (wd_requests w)) job e) in
      case settled of
        Inl _ \<Rightarrow> (w, Inl (Other_failure ''invalid fallback result''))
      | Inr result \<Rightarrow>
          deliver_result su (snap_run_id job) result False
            (if res_run_id result = snap_run_id job then w\<lparr>wd_result := Result_document result\<rparr> else w))"

definition execute_run ::
  "surroundings \<Rightarrow> worker_settings \<Rightarrow> hosted_run \<Rightarrow> child_run \<Rightarrow> nat \<Rightarrow> run_snapshot \<Rightarrow> world
     \<Rightarrow> (world \<times> (failure + task_report)) option" where
  "execute_run su st hr ch turns payload w =
     (case parse_snapshot payload of
        Inl _ \<Rightarrow> Some (w, Inl (Other_failure ''invalid snapshot''))
      | Inr job \<Rightarrow>
          let i = snap_run_id job in
          case run_state su i w of
            (w1, Inl e) \<Rightarrow> Some (w1, Inl e)
          | (w1, Inr r) \<Rightarrow>
              if terminal_status (r_status r)
              then Some (w1, Inr \<lparr>tr_run = i, tr_status = r_status r, tr_recovered = False, tr_ignored = True\<rparr>)
              else case existing_result (wd_result w1) of
                Inl e \<Rightarrow> Some (w1, Inl e)
              | Inr (Some existing) \<Rightarrow> Some (deliver_result su i existing True w1)
              | Inr None \<Rightarrow>
                  if r_cancel_requested r
                  then Some (case canceled_result (su_now su (wd_requests w1)) job (ws_version st) None of
                         Inl _ \<Rightarrow> (w1, Inl (Other_failure ''invalid fallback result''))
                       | Inr result \<Rightarrow>
                           chain (report_result su result w1) (\<lambda>_ w2.
                             (w2, Inr \<lparr>tr_run = i, tr_status = res_status result,
                                tr_recovered = False, tr_ignored = False\<rparr>)))
                  else case attempt_run su st hr ch turns job w1 of
                    None \<Rightarrow> None
                  | Some (w2, ending) \<Rightarrow> Some (conclude_run su st job ending w2))"

subsection \<open>Requests and files\<close>

lemma call_service_files:
  assumes "call_service su service w = (w', out)"
  shows "wd_events w' = wd_events w" "wd_result w' = wd_result w"
  using assms by (auto simp: call_service_def Let_def split: if_split_asm sum.split_asm)

lemma call_service_Inr:
  assumes "call_service su service w = (w', Inr a)"
  shows "service (su_txn su (wd_requests w)) (su_others su (wd_requests w) (wd_db w)) = Inr (wd_db w', a)"
  using assms by (auto simp: call_service_def Let_def split: if_split_asm sum.split_asm prod.split_asm)

lemma call_service_refused:
  assumes "service (su_txn su (wd_requests w)) (su_others su (wd_requests w) (wd_db w)) = Inl e"
  shows "\<exists>f. call_service su service w = (w\<lparr>wd_db := su_others su (wd_requests w) (wd_db w),
    wd_requests := Suc (wd_requests w)\<rparr>, Inl f)"
  using assms by (simp add: call_service_def Let_def)

text \<open>A request that only reads leaves what the others made of the database.\<close>

lemma run_state_world:
  assumes "run_state su i w = (w', out)"
  shows "w' = w\<lparr>wd_db := su_others su (wd_requests w) (wd_db w), wd_requests := Suc (wd_requests w)\<rparr>"
    "out = Inr r \<Longrightarrow> lookup_row r_id i (runs (wd_db w')) = Some r"
  using assms
  by (auto simp: run_state_def call_service_def Let_def run_or_404_def bind_outcome_def require_row_def
      split: if_split_asm sum.split_asm prod.split_asm option.split_asm)

lemma chain_Inr:
  assumes "chain m k = (w', Inr b)"
  obtains w a where "m = (w, Inr a)" "k a w = (w', Inr b)"
  using assms by (cases m; cases "snd m") (auto simp: chain_def)

lemma chain_cases:
  obtains (stop) w e where "m = (w, Inl e)" "chain m k = (w, Inl e)"
  | (next_step) w a where "m = (w, Inr a)" "chain m k = k a w"
proof (cases m)
  case (Pair w out)
  then show thesis
    by (cases out) (simp_all add: chain_def that)
qed

lemma report_event_files:
  "wd_events (fst (report_event su i e w)) = wd_events w" "wd_result (fst (report_event su i e w)) = wd_result w"
  unfolding report_event_def
  by (metis call_service_files(1) prod.collapse, metis call_service_files(2) prod.collapse)

lemma replay_events_files:
  "wd_events (fst (replay_events su i es w)) = wd_events w \<and> wd_result (fst (replay_events su i es w)) = wd_result w"
proof (induction es arbitrary: w)
  case (Cons e es)
  show ?case
  proof (cases "is_object e")
    case True
    show ?thesis
    proof (cases rule: chain_cases [of "report_event su i e w" "\<lambda>_. replay_events su i es"])
      case (stop w' f)
      then show ?thesis using True report_event_files [of su i e w] by simp
    next
      case (next_step w' a)
      then show ?thesis using True report_event_files [of su i e w] Cons.IH [of w'] by simp
    qed
  qed simp
qed simp

text \<open>The replay gets to its end only over a file of whole events.\<close>

lemma replay_events_Inr: "replay_events su i es w = (w', Inr u) \<Longrightarrow> \<forall>e\<in>set es. is_object e"
  by (induction es arbitrary: w) (auto split: if_split_asm elim!: chain_Inr)

subsection \<open>A task delivered again\<close>

lemma status_callback_refused:
  assumes "lookup_row r_id i (runs d) = Some r" "r_status r \<notin> {QUEUED, PREPARING}"
  shows "\<exists>e. update_run_status x i PREPARING key d = Inl e"
proof (cases "bind_runner_slot x r key d")
  case (Inr bound)
  obtain e where "require_run_transition (r_status r) PREPARING = Inl e" "r_status r \<noteq> PREPARING"
    using assms(2) by (cases "r_status r") (auto simp: require_run_transition_def)
  with Inr assms(1) show ?thesis
    by (cases bound) (simp add: update_run_status_def run_or_404_def)
qed (use assms in \<open>simp add: update_run_status_def run_or_404_def\<close>)

lemma admit_run_refused:
  assumes "lookup_row r_id (snap_run_id job) (runs (su_others su (wd_requests w) (wd_db w))) = Some r"
    and "r_status r \<notin> {QUEUED, PREPARING}"
  shows "\<exists>w' e. admit_run su st job w = (w', Inl e)"
proof -
  obtain e where "update_run_status (su_txn su (wd_requests w)) (snap_run_id job) PREPARING (ws_worker_key st)
      (su_others su (wd_requests w) (wd_db w)) = Inl e"
    using status_callback_refused [OF assms] by blast
  from call_service_refused [where service = "\<lambda>x d. update_run_status x (snap_run_id job) PREPARING (ws_worker_key st) d",
      OF this]
  obtain w' f where "report_status su (snap_run_id job) PREPARING (ws_worker_key st) w = (w', Inl f)"
    by (auto simp: report_status_def)
  then show ?thesis by (simp add: admit_run_def chain_def)
qed

text \<open>
  C32: a run is executed once.  The broker may deliver a task again.  When the run has left QUEUED
  and PREPARING, whatever the automation would do has no influence on the task: the executor is not
  consulted, so nothing is executed a second time.  When the run has ended, the task does nothing
  but read its state.
\<close>

theorem started_run_not_repeated:
  assumes "parse_snapshot payload = Inr job"
    and "lookup_row r_id (snap_run_id job) (runs (wd_db w)) = Some r" and "r_status r \<notin> {QUEUED, PREPARING}"
    and "\<And>n d. lookup_row r_id (snap_run_id job) (runs (su_others su n d)) = lookup_row r_id (snap_run_id job) (runs d)"
  shows "execute_run su st hr ch turns payload w = execute_run su st hr' ch' turns' payload w
    \<and> (terminal_status (r_status r) \<longrightarrow> (\<exists>out. execute_run su st hr ch turns payload w
        = Some (w\<lparr>wd_db := su_others su (wd_requests w) (wd_db w), wd_requests := Suc (wd_requests w)\<rparr>, out)))"
proof -
  let ?i = "snap_run_id job"
  obtain w1 out where state: "run_state su ?i w = (w1, out)" by fastforce
  note w1 = run_state_world [OF state]
  show ?thesis
  proof (cases out)
    case (Inl e)
    then show ?thesis using state assms(1) w1 by (simp add: execute_run_def Let_def)
  next
    case (Inr r1)
    have "r1 = r" using w1(2) [OF Inr] assms(2,4) by (simp add: w1(1))
    moreover have "lookup_row r_id ?i (runs (su_others su (wd_requests w1) (wd_db w1))) = Some r"
      using assms(2,4) by (simp add: w1(1))
    then obtain w2 e where "admit_run su st job w1 = (w2, Inl e)"
      using admit_run_refused assms(3) by blast
    then have "attempt_run su st hr ch turns job w1 = Some (w2, Inl e)" for hr ch turns
      by (simp add: attempt_run_def)
    ultimately show ?thesis
      using state assms(1) w1(1) Inr by (simp add: execute_run_def Let_def cong: sum.case_cong option.case_cong)
  qed
qed

subsection \<open>What a task reports is what the control plane holds\<close>

lemma validate_case_result_same: "validate_case_result c = Inr c' \<Longrightarrow> c' = c"
  by (simp add: validate_case_result_def split: if_split_asm)

lemma validate_all_same:
  assumes "validate_all f xs = Inr ys" "\<And>x y. f x = Inr y \<Longrightarrow> y = x"
  shows "ys = xs"
  using validate_all_map [OF assms(1), of "\<lambda>x. x" "\<lambda>x. x"] assms(2) by simp

lemma parse_result_same: "parse_result r = Inr r' \<Longrightarrow> r' = r"
  by (auto simp: parse_result_def outcome_simps validate_result_def
      dest!: validate_all_same validate_isolation_same split: option.split_asm if_split_asm
      intro: validate_case_result_same)

definition holds_result :: "uuid \<Rightarrow> run_status \<Rightarrow> db \<Rightarrow> bool" where
  "holds_result i status d \<longleftrightarrow>
     (\<exists>r result. lookup_row r_id i (runs d) = Some r \<and> r_result r = Some result \<and> res_status result = status)"

lemma report_result_holds:
  assumes "report_result su result w = (w', Inr a)"
  shows "holds_result (res_run_id result) (res_status result) (wd_db w')"
proof -
  obtain r' c where a: "a = (r', c)" by fastforce
  obtain doc where "parse_result result = Inr doc"
    and stored: "record_run_result (su_txn su (wd_requests w)) (res_run_id result) doc
      (su_others su (wd_requests w) (wd_db w)) = Inr (wd_db w', r', c)"
    using call_service_Inr [OF assms [unfolded report_result_def]] by (auto simp: a split: sum.split_asm)
  then have "doc = result" by (simp add: parse_result_same)
  with record_run_result_row [OF stored] show ?thesis by (auto simp: holds_result_def)
qed

lemma deliver_result_holds:
  assumes "deliver_result su i result recovered w = (w', Inr report)"
    and "\<And>a b. su_upload su a = Inr b \<Longrightarrow> res_run_id b = res_run_id a \<and> res_status b = res_status a"
  shows "holds_result (res_run_id result) (res_status result) (wd_db w')"
    "tr_run report = i" "tr_status report = res_status result" "\<not> tr_ignored report"
proof -
  obtain w1 w2 w3 uploaded a where up: "upload_artifacts su result w1 = (w2, Inr uploaded)"
    and sent: "report_result su uploaded w2 = (w3, Inr a)"
    and rest: "w' = w3" "report = \<lparr>tr_run = i, tr_status = res_status result, tr_recovered = recovered, tr_ignored = False\<rparr>"
    using assms(1) unfolding deliver_result_def by (auto elim!: chain_Inr)
  have "res_run_id uploaded = res_run_id result \<and> res_status uploaded = res_status result"
    using up assms(2) by (cases "su_upload su result") (auto simp: upload_artifacts_def split: if_split_asm)
  with report_result_holds [OF sent] rest
  show "holds_result (res_run_id result) (res_status result) (wd_db w')"
    "tr_run report = i" "tr_status report = res_status result" "\<not> tr_ignored report"
    by simp_all
qed

lemma fallback_run_id:
  "recovery_result moment job e v ev = Inr result \<Longrightarrow> res_run_id result = snap_run_id job"
  "canceled_result moment job v ev = Inr result \<Longrightarrow> res_run_id result = snap_run_id job"
  "timed_out_result moment job v i = Inr result \<Longrightarrow> res_run_id result = snap_run_id job"
  by (auto simp: recovery_result_def canceled_result_def timed_out_result_def fallback_result_def
      dest!: parse_result_same)

lemma result_of_failure_run_id:
  "result_of_failure st moment job e = Inr result \<Longrightarrow> res_run_id result = snap_run_id job"
  by (cases e) (auto simp: fallback_run_id split: option.split_asm)

lemma read_result_run_id: "read_result stored job = Inr result \<Longrightarrow> res_run_id result = snap_run_id job"
  by (auto simp: read_result_def split: result_file.split_asm sum.split_asm if_split_asm)

lemma watch_child_run_id:
  "watch_child su job ch until turns n offset w = Some (w', Inr result) \<Longrightarrow> res_run_id result = snap_run_id job"
proof (induction turns arbitrary: n offset w)
  case (Suc turns)
  have read: "map_sum f id (read_result stored job) = Inr result \<Longrightarrow> res_run_id result = snap_run_id job" for f stored
    by (cases "read_result stored job") (simp_all add: read_result_run_id)
  show ?case
    using Suc.prems Suc.IH
    by (auto simp: watch_child.simps(2) Let_def split: prod.split_asm option.split_asm sum.split_asm if_split_asm
        dest: read)
qed (simp add: watch_child.simps)

lemma map_sum_Inr: "map_sum f g m = Inr b \<longleftrightarrow> (\<exists>a. m = Inr a \<and> b = g a)"
  by (cases m) auto

lemma attempt_run_id:
  assumes "attempt_run su st hr ch turns job w = Some (w', Inr result)"
    and "\<And>answers res. hr_outcome hr answers = Inr res \<Longrightarrow> res_run_id res = snap_run_id job"
  shows "res_run_id result = snap_run_id job"
proof -
  have hosted: "execute_hosted su st hr job w = (w', Inr result) \<Longrightarrow> res_run_id result = snap_run_id job" for w w'
    by (auto simp: execute_hosted_def execute_in_process_def map_sum_Inr dest: assms(2)
        split: if_split_asm sum.split_asm prod.split_asm)
  show ?thesis
    using assms(1) hosted
    by (auto simp: attempt_run_def execute_subprocess_def watch_child_run_id
        split: prod.split_asm sum.split_asm if_split_asm option.split_asm)
qed

lemma conclude_run_holds:
  assumes "conclude_run su st job ending w = (w', Inr report)"
    and "\<And>res. ending = Inr res \<Longrightarrow> res_run_id res = snap_run_id job"
    and "\<And>a b. su_upload su a = Inr b \<Longrightarrow> res_run_id b = res_run_id a \<and> res_status b = res_status a"
  shows "holds_result (snap_run_id job) (tr_status report) (wd_db w')" "tr_run report = snap_run_id job"
    "\<not> tr_ignored report"
proof -
  obtain result w0 where result: "res_run_id result = snap_run_id job"
    and deliver: "deliver_result su (snap_run_id job) result False w0 = (w', Inr report)"
  proof (cases ending)
    case (Inl e)
    then show thesis using assms(1) that
      by (auto simp: conclude_run_def split: sum.split_asm dest: result_of_failure_run_id)
  next
    case (Inr res)
    then show thesis using assms(1,2) that by (auto simp: conclude_run_def)
  qed
  from deliver_result_holds [OF deliver assms(3)] result
  show "holds_result (snap_run_id job) (tr_status report) (wd_db w')" "tr_run report = snap_run_id job"
    "\<not> tr_ignored report" by simp_all
qed

text \<open>
  C31: a task that returns has told the truth.  When \<open>execute_run\<close> returns a report, the control
  plane holds the run as ended with the reported status: either it had ended before and the task
  did nothing, or a result with that status is now stored for the run.  This holds whatever the
  automation did, however requests were lost and whatever others did to the database; of the
  artifact store it is used that uploading keeps a result's run and status, and of the automation
  that its results name their run.
\<close>

theorem reported_result_recorded:
  assumes "execute_run su st hr ch turns payload w = Some (w', Inr report)" and "parse_snapshot payload = Inr job"
    and "\<And>a b. su_upload su a = Inr b \<Longrightarrow> res_run_id b = res_run_id a \<and> res_status b = res_status a"
    and "\<And>doc. wd_result w = Result_document doc \<Longrightarrow> res_run_id doc = snap_run_id job"
    and "\<And>answers res. hr_outcome hr answers = Inr res \<Longrightarrow> res_run_id res = snap_run_id job"
  shows "tr_run report = snap_run_id job \<and>
    (if tr_ignored report
     then \<exists>r. lookup_row r_id (snap_run_id job) (runs (wd_db w')) = Some r \<and> r_status r = tr_status report
       \<and> terminal_status (r_status r)
     else holds_result (snap_run_id job) (tr_status report) (wd_db w'))"
proof -
  let ?i = "snap_run_id job"
  obtain w1 r where state: "run_state su ?i w = (w1, Inr r)"
    using assms(1,2) by (auto simp: execute_run_def Let_def split: prod.split_asm sum.split_asm)
  note w1 = run_state_world [OF state]
  consider (ended) "terminal_status (r_status r)"
    | (existing) result where "\<not> terminal_status (r_status r)" "existing_result (wd_result w1) = Inr (Some result)"
    | (canceled) "\<not> terminal_status (r_status r)" "existing_result (wd_result w1) = Inr None" "r_cancel_requested r"
    | (attempted) w2 ending where "\<not> terminal_status (r_status r)" "attempt_run su st hr ch turns job w1 = Some (w2, ending)"
        "conclude_run su st job ending w2 = (w', Inr report)"
    using assms(1,2) state
    by (auto simp: execute_run_def Let_def split: sum.split_asm option.split_asm if_split_asm)
  then show ?thesis
  proof cases
    case ended
    then show ?thesis using assms(1,2) state w1(2) by (auto simp: execute_run_def Let_def)
  next
    case (existing result)
    then have "deliver_result su ?i result True w1 = (w', Inr report)"
      using assms(1,2) state by (simp add: execute_run_def Let_def)
    moreover have "res_run_id result = ?i"
      using existing(2) assms(4) w1(1)
      by (auto simp: existing_result_def split: result_file.split_asm sum.split_asm dest: parse_result_same)
    ultimately show ?thesis using deliver_result_holds [OF _ assms(3)] by fastforce
  next
    case canceled
    then obtain result w2 a where result: "canceled_result (su_now su (wd_requests w1)) job (ws_version st) None = Inr result"
      and sent: "report_result su result w1 = (w2, Inr a)"
      and rest: "w' = w2" "report = \<lparr>tr_run = ?i, tr_status = res_status result, tr_recovered = False, tr_ignored = False\<rparr>"
      using assms(1,2) state
      by (auto simp: execute_run_def Let_def split: sum.split_asm elim!: chain_Inr)
    from report_result_holds [OF sent] fallback_run_id(2) [OF result] rest show ?thesis by simp
  next
    case (attempted w2 ending)
    have "res_run_id res = ?i" if "ending = Inr res" for res
      by (rule attempt_run_id [OF attempted(2) [unfolded that] assms(5)])
    from conclude_run_holds [OF attempted(3) this assms(3)] show ?thesis by simp
  qed
qed

subsection \<open>Every attempt ends\<close>

lemma watch_child_ends:
  assumes "\<And>n. started + int n * poll \<le> ch_clock ch n" "until \<le> started + int (n + turns) * poll"
  shows "watch_child su job ch until (Suc turns) n offset w \<noteq> None"
  using assms(2)
proof (induction turns arbitrary: n offset w)
  case 0
  have "until \<le> ch_clock ch n" using assms(1) [of n] 0 by simp
  then show ?case by (simp add: watch_child.simps(2) Let_def split: prod.split option.split sum.split)
next
  case (Suc turns)
  have "until \<le> started + int (Suc n + turns) * poll" using Suc.prems by simp
  with Suc.IH have "watch_child su job ch until (Suc turns) (Suc n) offset w \<noteq> None" for offset w by blast
  then show ?case
    by (subst watch_child.simps(2)) (simp add: Let_def split: prod.split option.split sum.split)
qed

text \<open>
  The loop over the child process turns at most once per poll interval, and it ends by itself,
  whatever the child does.
\<close>

lemma execute_run_within:
  assumes "\<And>n. ch_started ch + int n * ws_poll st \<le> ch_clock ch n"
    and "ws_timeout st \<le> int turns * ws_poll st"
  shows "execute_run su st hr ch (Suc turns) payload w \<noteq> None"
proof -
  have "execute_subprocess su st ch (Suc turns) job w \<noteq> None" for job w
  proof -
    have "ch_started ch + ws_timeout st \<le> ch_started ch + int (0 + turns) * ws_poll st" using assms(2) by simp
    from watch_child_ends [OF assms(1) this]
    obtain m where "watch_child su job ch (ch_started ch + ws_timeout st) (Suc turns) 0 0 w = Some m"
      by (cases "watch_child su job ch (ch_started ch + ws_timeout st) (Suc turns) 0 0 w") blast+
    then show ?thesis by (simp add: execute_subprocess_def split: option.split)
  qed
  then have "attempt_run su st hr ch (Suc turns) job w \<noteq> None" for job w
    by (auto simp: attempt_run_def split: prod.split sum.split)
  moreover define f where "f job w = the (attempt_run su st hr ch (Suc turns) job w)" for job w
  ultimately have "attempt_run su st hr ch (Suc turns) job w = Some (f job w)" for job w by simp
  then show ?thesis
    by (simp add: execute_run_def Let_def split: prod.split sum.split option.split)
qed

subsection \<open>Results that cannot be reported\<close>

lemma reconcile_events_torn:
  assumes "wd_events w = Some content" "line \<in> set (splitlines content)" "\<not> is_object (su_decode su line)"
  shows "\<exists>w' e. reconcile_events su i w = (w', Inl e) \<and> wd_events w' = wd_events w \<and> wd_result w' = wd_result w"
proof -
  let ?docs = "map (su_decode su) (splitlines content)"
  obtain w' out where replay: "replay_events su i ?docs w = (w', out)" by fastforce
  have "\<not> (\<forall>e\<in>set ?docs. is_object e)" using assms(2,3) by auto
  then obtain e where "out = Inl e" using replay_events_Inr [of su i ?docs w w'] replay by (cases out) auto
  then show ?thesis
    using replay replay_events_files [of su i ?docs w] assms(1) by (simp add: reconcile_events_def)
qed

text \<open>
  C37: one torn line of the event file withholds a result for ever.  The loop that forwards events
  passes over a line it cannot decode, the replay before the result raises on it.  With a finished
  result in the run's directory and such a line in its event file, every delivery of the task
  raises, and leaves both files as they are for the next one, until somebody else (the reliability
  sweep) has ended the run; the result is never reported.
\<close>

theorem torn_line_withholds_result:
  assumes "parse_snapshot payload = Inr job" and "wd_result w = Result_document document"
    and "wd_events w = Some content" and "line \<in> set (splitlines content)" and "\<not> is_object (su_decode su line)"
  shows "\<exists>w' out. execute_run su st hr ch turns payload w = Some (w', out)
    \<and> wd_events w' = wd_events w \<and> wd_result w' = wd_result w \<and> (\<forall>report. out = Inr report \<longrightarrow> tr_ignored report)"
proof -
  let ?i = "snap_run_id job"
  obtain w1 answer where state: "run_state su ?i w = (w1, answer)" by fastforce
  have files: "wd_events w1 = wd_events w" "wd_result w1 = wd_result w"
    using run_state_world(1) [OF state] by simp_all
  obtain w2 e where "reconcile_events su ?i w1 = (w2, Inl e)" "wd_events w2 = wd_events w" "wd_result w2 = wd_result w"
    using reconcile_events_torn [of w1 content line su ?i] assms(3-5) files by auto
  then have "deliver_result su ?i result True w1 = (w2, Inl e)" for result
    by (simp add: deliver_result_def chain_def)
  with state files \<open>wd_events w2 = _\<close> \<open>wd_result w2 = _\<close> assms(1,2) show ?thesis
    by (auto simp: execute_run_def Let_def existing_result_def split: sum.split)
qed

subsection \<open>Made-up results are accepted\<close>














subsection \<open>A task on the demonstration installation\<close>

definition demo_surroundings :: surroundings where
  "demo_surroundings = \<lparr>su_link = (\<lambda>_. Answered), su_txn = (\<lambda>_. demo_txn 1005 400),
     su_others = (\<lambda>_ d. d), su_now = (\<lambda>_. microseconds 1005), su_upload = Inr, su_decode = demo_decode\<rparr>"

definition demo_settings :: worker_settings where
  "demo_settings = \<lparr>ws_mode = SUBPROCESS, ws_version = ''1'', ws_worker_key = None,
     ws_packages = [\<lparr>rt_runner_type = WEB_PLAYWRIGHT, rt_image_repository = ''img'', rt_digest = ''kd''\<rparr>],
     ws_environ = Map.empty, ws_poll = microseconds 2, ws_timeout = microseconds 3600\<rparr>"

text \<open>A child that exits with the given code at its third poll, or never.\<close>

definition demo_child :: "int option \<Rightarrow> child_run" where
  "demo_child code = \<lparr>ch_payload_size = 1000, ch_start_error = None, ch_started = 0,
     ch_exit = (\<lambda>n. if n < 2 then None else code), ch_reports = (\<lambda>_. None),
     ch_clock = (\<lambda>n. int n * microseconds 2), ch_events = None, ch_result = No_result\<rparr>"

definition demo_hosted :: "run_status \<Rightarrow> hosted_run" where
  "demo_hosted status = \<lparr>hr_reports = [], hr_outcome = (\<lambda>_. Inr (demo_result status Case_PASSED)),
     hr_events = None, hr_result = No_result\<rparr>"

definition demo_world :: "result_file \<Rightarrow> string option \<Rightarrow> world" where
  "demo_world result_file event_file = \<lparr>wd_db = demo_run_db RUNNING [demo_lease (Some 70)], wd_requests = 0,
     wd_result = result_file, wd_events = event_file\<rparr>"

theorem started_run_not_repeated_witness:
  "execute_run demo_surroundings demo_settings (demo_hosted PASSED) (demo_child None) 5 demo_snapshot (demo_world No_result None)
    = execute_run demo_surroundings demo_settings (demo_hosted FAILED) (demo_child (Some 0)) 9 demo_snapshot (demo_world No_result None)"
  by (rule started_run_not_repeated [OF demo_snapshot_parses, where r = "demo_run RUNNING", THEN conjunct1])
    (simp_all add: demo_world_def demo_finds demo_run_def demo_snapshot_def demo_surroundings_def)

theorem reported_result_recorded_witness:
  "\<exists>w' report. execute_run demo_surroundings demo_settings (demo_hosted PASSED) (demo_child None) 5 demo_snapshot
      (demo_world (Result_document (demo_result FAILED Case_FAILED)) None) = Some (w', Inr report)
    \<and> holds_result 200 FAILED (wd_db w')"
proof -
  let ?w = "demo_world (Result_document (demo_result FAILED Case_FAILED)) None"
  obtain d' r' where stored: "record_run_result (demo_txn 1005 400) 200 (demo_result FAILED Case_FAILED)
      (demo_run_db RUNNING [demo_lease (Some 70)]) = Inr (d', r', True)"
    using demo_records by (rule created_runE)
  have parses: "parse_result (demo_result FAILED Case_FAILED) = Inr (demo_result FAILED Case_FAILED)"
    by (simp add: demo_result_def demo_case_result_def parse_result_def validate_case_result_def validate_result_def
        terminal_statuses_def microseconds_def)
  have result: "res_run_id (demo_result FAILED Case_FAILED) = 200" "res_status (demo_result FAILED Case_FAILED) = FAILED"
    "res_artifacts (demo_result FAILED Case_FAILED) = []" "snap_run_id demo_snapshot = 200"
    "r_status (demo_run RUNNING) = RUNNING"
    by (simp_all add: demo_result_def demo_snapshot_def demo_run_def)
  let ?w1 = "?w\<lparr>wd_requests := Suc 0\<rparr>"
  have db: "wd_db ?w = demo_run_db RUNNING [demo_lease (Some 70)]" "wd_requests ?w = 0"
    "wd_result ?w = Result_document (demo_result FAILED Case_FAILED)" "wd_events ?w = None"
    by (simp_all add: demo_world_def)
  have su: "su_link demo_surroundings n = Answered" "su_txn demo_surroundings n = demo_txn 1005 400"
    "su_others demo_surroundings n d = d" for n d
    by (simp_all add: demo_surroundings_def)
  have state: "run_state demo_surroundings 200 ?w = (?w1, Inr (demo_run RUNNING))"
    by (simp add: run_state_def call_service_def su db run_or_404_def demo_finds [of RUNNING "[demo_lease (Some 70)]"] Let_def)
  obtain w' where sent: "report_result demo_surroundings (demo_result FAILED Case_FAILED) ?w1 = (w', Inr (r', True))"
    by (simp add: report_result_def call_service_def su db parses result stored Let_def)
  have call: "execute_run demo_surroundings demo_settings (demo_hosted PASSED) (demo_child None) 5 demo_snapshot ?w
      = Some (w', Inr \<lparr>tr_run = 200, tr_status = FAILED, tr_recovered = True, tr_ignored = False\<rparr>)"
    by (simp add: execute_run_def demo_snapshot_parses state sent existing_result_def db parses result Let_def
        deliver_result_def reconcile_events_def upload_artifacts_def chain_def)
  have upload: "\<And>a b. su_upload demo_surroundings a = Inr b \<Longrightarrow> res_run_id b = res_run_id a \<and> res_status b = res_status a"
    by (simp add: demo_surroundings_def)
  have own: "\<And>doc. wd_result ?w = Result_document doc \<Longrightarrow> res_run_id doc = snap_run_id demo_snapshot"
    "\<And>answers res. hr_outcome (demo_hosted PASSED) answers = Inr res \<Longrightarrow> res_run_id res = snap_run_id demo_snapshot"
    using db(3) result by (auto simp: demo_hosted_def demo_result_def)
  have "holds_result 200 FAILED (wd_db w')"
    using reported_result_recorded [OF call demo_snapshot_parses upload own] result(4) by simp
  with call show ?thesis by blast
qed

theorem torn_line_withholds_result_witness:
  "\<exists>w' out. execute_run demo_surroundings demo_settings (demo_hosted PASSED) (demo_child None) 5 demo_snapshot
      (demo_world (Result_document (demo_result PASSED Case_PASSED)) (Some ''{'')) = Some (w', out)
    \<and> wd_events w' = Some ''{'' \<and> (\<forall>report. out = Inr report \<longrightarrow> tr_ignored report)"
proof -
  let ?w = "demo_world (Result_document (demo_result PASSED Case_PASSED)) (Some ''{'')"
  have w: "wd_result ?w = Result_document (demo_result PASSED Case_PASSED)" "wd_events ?w = Some ''{''"
    by (simp_all add: demo_world_def)
  have line: "''{'' \<in> set (splitlines ''{'')" "\<not> is_object (su_decode demo_surroundings ''{'')"
    by (simp_all add: splitlines_def LF_def CR_def demo_surroundings_def demo_decode_def is_object_def)
  show ?thesis
    using torn_line_withholds_result [OF demo_snapshot_parses w line] unfolding w(2) by blast
qed


end
