(* ===== verification/Worker_Settings.thy ===== *)
theory Worker_Settings
  imports Task_Execution
begin

section \<open>The settings of a worker\<close>

text \<open>
  \<open>services/worker/src/testops/worker/config.py\<close>: \<open>WorkerSettings.from_environment\<close>, which refuses to
  start a worker on settings out of bounds and derives the capabilities the worker advertises.

  An environment maps names to texts.  The JSON decoder with the contracts behind it and
  \<open>ipaddress.ip_network\<close> are parameters.  Numbers with a fraction are exact rationals, the settings in
  MiB are kept in MiB.
\<close>

subsection \<open>Reading variables\<close>



















subsection \<open>Containers, pods and live views\<close>








subsection \<open>The capabilities a worker advertises\<close>





subsection \<open>The settings\<close>





subsection \<open>A worker that starts is sound\<close>






















end
