(* ===== verification/Spec2Isabelle.thy ===== *)
theory Spec2Isabelle
  imports Dispatch_Guarantees Package_Lifecycle Run_Lifecycle Identity Governed_Changes Schedule_Guarantees Quality_Guarantees Worker_Settings
begin

text \<open>
  This library verifies the control plane of TestOps (package \<open>testops.api\<close> under
  \<open>apps/api/src\<close>, with the outbox dispatcher of \<open>services/worker/src\<close> and the shared models of
  \<open>packages/contracts/src\<close>): a service that stores test assets, creates test runs from immutable
  snapshots, hands them to runners through an outbox, follows their callbacks and recovers them
  when they hang.

  \<^bold>\<open>How the program is modelled.\<close>  The database is one record \<open>db\<close> with a list of row records per
  table (Persistence, Store; \<open>persistence.py\<close>).  A service is a function from its
  request and the database to \<open>service_error + db \<times> result\<close>: \<open>Inl\<close> is a raised exception, after
  which the transaction is rolled back, so the caller keeps the old database.  Commits and flushes
  check the unique keys (\<open>unique_ok\<close>, \<open>commit\<close>, \<open>commit_unique\<close>).  A transaction \<open>txn\<close> carries
  what the code draws from outside: the time, fresh identifiers and the digest function.
  Identifiers are numbers, instants are microseconds, digests are strings given by an arbitrary
  function on hashed documents; none of the theorems needs that function to be injective unless a
  hypothesis says so.  Rows locked by other transactions are a predicate \<open>busy\<close>, the broker a
  function \<open>publish\<close>.

  \<^bold>\<open>The theories.\<close>
    \<^item> Prelude: sums as results, rows of tables, lookups and updates, the simp collections.
    \<^item> Capabilities, Contracts: \<open>capabilities.py\<close> and \<open>models.py\<close>, the keyword registry and the
      validators of baselines, snapshots and results.
    \<^item> Persistence, Store: the rows, the database, unique keys, the audit log.
    \<^item> Run_State_Machine (\<open>state_machine.py\<close>), Event_Log, Execution_Quota, Run_Emails
      (\<open>run_email_services.py\<close>): the parts every service on runs uses.
    \<^item> Run_Invariant: the invariant \<open>control_ok\<close> of the run tables, and the locales \<open>run_service\<close>
      (keeps the invariant, evolves runs along the state machine) and \<open>side_service\<close> (leaves the
      run tables alone), each interpreted for every group of services.
    \<^item> Run_Creation: \<open>create_run\<close>, \<open>create_rerun\<close>, validation runs.  Run_Execution and
      Run_Outcomes: the runner's callbacks, results, cancellation.  Run_Reliability
      (\<open>reliability_services.py\<close>): the recovery sweep.  Outbox_Dispatch and Dispatch_Guarantees
      (\<open>outbox.py\<close>): the dispatcher.
    \<^item> Runner_Pools, Test_Assets, Asset_Bindings, Automation_Packages, Package_Lifecycle: the
      services on pools, projects, targets, environments, baselines and packages, with the
      invariants \<open>assets_ok\<close> and \<open>packages_ok\<close>.
    \<^item> Python_Text, Security, Identity: the string operations of the language, password hashes and
      tokens (\<open>security.py\<close>, with scrypt as an argument), and accounts, sessions and project
      members (\<open>identity.py\<close>) with the invariant \<open>identity_ok\<close>.
    \<^item> Governance, Governed_Changes: change requests (\<open>governance.py\<close>, \<open>case_change_policy.py\<close>), the
      refinement of candidate baselines by a map of cases, and the invariant \<open>governance_ok\<close>.
    \<^item> Cron, Schedules, Schedule_Guarantees: cron expressions (\<open>cron.py\<close>, with the conversions of the
      IANA time zones as an argument), regression schedules (\<open>schedule_services.py\<close>) and the
      invariant \<open>schedules_ok\<close>.  The search of \<open>next_after\<close> is bounded by the 2930 days of the source.
    \<^item> Quality_Analytics (\<open>quality_services.py\<close>), Quality_Webhooks (\<open>quality_webhook_services.py\<close> and
      the worker's \<open>quality_webhooks.py\<close>, with the HTTP sender as an argument), Quality_Alerts
      (\<open>quality_alert_services.py\<close>), Quality_Guarantees: pass rates and their comparison, the delivery
      of notifications with bounded retries, the alert machine \<open>alert_moves\<close> that the scheduled
      evaluation refines, and the invariant \<open>quality_ok\<close>.
    \<^item> Execution_Isolation (\<open>execution_isolation.py\<close>, \<open>isolated_executor.py\<close>, \<open>package_runtime.py\<close>,
      \<open>adapter_factory.py\<close>), Task_Execution (\<open>tasks.py\<close>, \<open>control_plane.py\<close>), Worker_Settings
      (\<open>config.py\<close> of the worker): the worker's side of a run.  A task is a function on a world of the
      database and the run's directory; its surroundings say which requests are lost and what others
      do to the database in between; what the automation does is an argument.  The loop over a child
      process has a number of turns as fuel, and the settings of every worker that starts bound the
      turns it needs.
    \<^item> Run_Lifecycle: the abstract machine \<open>life_step\<close> of a run and the refinement of it.
    \<^item> Scenario: a small database on which the witnesses run the services.
    \<^item> This theory: one step of the whole system and its histories.
  \<^bold>\<open>What the lemmas show.\<close>  Each service has a lemma \<open>..._Inr\<close> that says what a successful call
  read and commits; the invariants are proved from these, once per locale.  The properties state
  what the services do on every branch, that no interleaving of them breaks the invariant, that
  the tables refine the abstract life of a run, and that the sweep and the dispatcher respect
  their budgets.  Loops run over finite lists, so no fuel is needed unless a theory says so.

  \<^bold>\<open>Not modelled.\<close>  Concurrency inside one transaction: PostgreSQL's row locks make the services
  serial on the rows they change, so a history is a sequence of transactions (a service that
  commits twice makes two steps; the count of administrators in \<open>identity.py\<close>, read without a lock,
  is serial here only).  Lengths and
  character sets of single fields, checked by the web framework before a service is called.
  Columns that nothing reads (timestamps of rows).  Routes, the API's configuration, the AI
  features, the runners and the container and Kubernetes executors, object stores and scripts: input
  and output, or glue around third-party code.  Where two of the modelled services were found to disagree with their documentation, the
  theorem beside the service states what the code does.
\<close>

section \<open>The system\<close>

text \<open>
  One step of the control plane: a call of a service on runs, a reliability sweep, a dispatch of
  the outbox, or a service on projects and their quotas, assets, runner pools, packages, accounts, change requests, schedules or quality alerts.  Each
  is one transaction, so a history of the system is a sequence of steps in any interleaving.
\<close>

inductive quota_call :: "db \<Rightarrow> db \<Rightarrow> bool" where
  Quota_update: "update_execution_policy x p u actor d = Inr (d', v) \<Longrightarrow> quota_call d d'"

inductive system_step :: "db \<Rightarrow> db \<Rightarrow> bool" where
  Create: "run_creation d d' \<Longrightarrow> system_step d d'"
| Execute: "run_execution d d' \<Longrightarrow> system_step d d'"
| Sweep: "reliability_sweep d d' \<Longrightarrow> system_step d d'"
| Dispatch: "outbox_dispatch d d' \<Longrightarrow> system_step d d'"
| Quotas: "quota_call d d' \<Longrightarrow> system_step d d'"
| Assets: "asset_call d d' \<Longrightarrow> system_step d d'"
| Pools: "pool_call d d' \<Longrightarrow> system_step d d'"
| Packages: "package_call d d' \<Longrightarrow> system_step d d'"
| People: "identity_call d d' \<Longrightarrow> system_step d d'"
| Governing: "governance_call d d' \<Longrightarrow> system_step d d'"
| Scheduling: "schedule_call d d' \<Longrightarrow> system_step d d'"
| Watching: "quality_call d d' \<Longrightarrow> system_step d d'"

inductive reaches :: "db \<Rightarrow> db \<Rightarrow> bool" where
  Start: "reaches d d"
| Step: "reaches d d1 \<Longrightarrow> system_step d1 d2 \<Longrightarrow> reaches d d2"

lemma update_execution_policy_Inr:
  assumes "update_execution_policy x p u actor d = Inr (d', v)"
  shows "unique_ok d'" "same_run_tables d d'"
  using assms unfolding update_execution_policy_def Let_def
  by (auto elim!: bind_outcome_InrE simp: commit_Inr_iff same_run_tables_def)

interpretation quota_services: side_service quota_call
  by unfold_locales (auto elim!: quota_call.cases dest: update_execution_policy_Inr)

lemma system_step_service:
  assumes "system_step d d'" "control_ok d"
  shows "control_ok d' \<and> runs_evolve (runs d) (runs d')"
  using assms(1)
proof (cases rule: system_step.cases)
  case Create
  then show ?thesis using creation.keeps_ok creation.evolves assms(2) by simp
next
  case Execute
  then show ?thesis using execution.keeps_ok execution.evolves assms(2) by simp
next
  case Sweep
  then show ?thesis using reliability.keeps_ok reliability.evolves assms(2) by simp
next
  case Dispatch
  then show ?thesis using dispatching.keeps_ok dispatching.evolves assms(2) by simp
next
  case Quotas
  then show ?thesis using quota_services.on_runs.keeps_ok quota_services.on_runs.evolves assms(2) by simp
next
  case Assets
  then show ?thesis using asset_services.on_runs.keeps_ok asset_services.on_runs.evolves assms(2) by simp
next
  case Pools
  then show ?thesis using pool_services.on_runs.keeps_ok pool_services.on_runs.evolves assms(2) by simp
next
  case Packages
  then show ?thesis using package_services.on_runs.keeps_ok package_services.on_runs.evolves assms(2) by simp
next
  case People
  then show ?thesis using identity_services.on_runs.keeps_ok identity_services.on_runs.evolves assms(2) by simp
next
  case Governing
  then show ?thesis using governance_services.keeps_ok governance_services.evolves assms(2) by simp
next
  case Scheduling
  then show ?thesis using schedule_services.keeps_ok schedule_services.evolves assms(2) by simp
next
  case Watching
  then show ?thesis using quality_services.on_runs.keeps_ok quality_services.on_runs.evolves assms(2) by simp
qed

interpretation system: run_service system_step
  by unfold_locales (simp_all add: system_step_service)

lemma reaches_service:
  "reaches d d' \<Longrightarrow> control_ok d \<Longrightarrow> control_ok d' \<and> runs_evolve (runs d) (runs d')"
proof (induction rule: reaches.induct)
  case (Step d d1 d2)
  then have "control_ok d2" "runs_evolve (runs d) (runs d1)" "runs_evolve (runs d1) (runs d2)"
    using system_step_service [of d1 d2] by simp_all
  with runs_evolve_trans show ?case by blast
qed simp

interpretation history: run_service reaches
  by unfold_locales (simp_all add: reaches_service)

subsection \<open>What holds in every history\<close>

lemma demo_step: "\<exists>d' s sent. demo_dispatches (\<lambda>_ _. None) = Inr (d', s, sent)
    \<and> reaches (demo_run_db QUEUED []) d' \<and> length (leases d') = 1"
proof -
  obtain d' s sent where call: "demo_dispatches (\<lambda>_ _. None) = Inr (d', s, sent)" and "length (leases d') = 1"
    using demo_accepted by (auto split: sum.splits)
  moreover from call have "outbox_dispatch (demo_run_db QUEUED []) d'" unfolding outbox_dispatch_def by metis
  then have "reaches (demo_run_db QUEUED []) d'" by (intro Step [OF Start] Dispatch)
  ultimately show ?thesis by metis
qed

lemma demo_queued_ok: "control_ok (demo_run_db QUEUED [])"
  by (rule demo_run_ok) simp_all

text \<open>
  C7: the invariant of the run tables holds in every history.  From a database where it holds
  (the empty one is such), any sequence of service calls, sweeps and dispatches, in any order,
  leads to one where it holds: unique keys, references, gapless logs, runs whose columns agree with their status,
  one dispatch record and the snapshot's cases for every run, and no slot held twice or by a
  finished run.
\<close>

theorem history_keeps_invariant:
  assumes "reaches d d'" and "control_ok d"
  shows "control_ok d'"
  using assms by (rule history.keeps_ok)

theorem history_keeps_invariant_witness:
  "\<exists>d'. reaches (demo_run_db QUEUED []) d' \<and> length (leases d') = 1 \<and> control_ok d'"
  using demo_step history_keeps_invariant [OF _ demo_queued_ok] by metis

text \<open>
  C8: the tables refine the abstract life of runs.  In every history the runs' statuses, results
  and cancellation flags change only by steps of the abstract machine: a run is born QUEUED,
  moves along the transition table, records one result that agrees with its final status, and is
  never forgotten.
\<close>

theorem history_refines_lives:
  assumes "reaches d d'" and "control_ok d"
  shows "life_step\<^sup>*\<^sup>* (lives_of (runs d)) (lives_of (runs d'))"
  using history.evolves [OF assms] assms(2) history.keeps_ok [OF assms] by (rule evolution_refines)

theorem history_refines_lives_witness:
  "\<exists>d'. reaches (demo_run_db QUEUED []) d' \<and> length (leases d') = 1
     \<and> life_step\<^sup>*\<^sup>* (lives_of [demo_run QUEUED]) (lives_of (runs d'))"
proof -
  obtain d' where d': "reaches (demo_run_db QUEUED []) d'" "length (leases d') = 1"
    using demo_step by metis
  moreover have "runs (demo_run_db QUEUED []) = [demo_run QUEUED]" by (simp add: demo_run_db_def)
  ultimately show ?thesis
    using history_refines_lives [OF d'(1) demo_queued_ok] by auto
qed





end
